(* ===== verification/Prelude.thy ===== *)
theory Prelude
  imports Main "HOL-Library.Word"
begin

text \<open>
  Shared vocabulary of the development: the machine integers of the C++ sources, the types of
  SNMP object identifiers and ASN.1 values, checked list access, and the collections of rewrite
  rules the component theories extend.
\<close>

section \<open>Machine integers and object identifiers\<close>

text \<open>
  \<open>unsigned int\<close> is \<open>u32\<close>, \<open>uint64_t\<close> and \<open>unsigned long\<close> are \<open>u64\<close>, and a C \<open>int\<close>
  is kept as the 32-bit word \<open>i32\<close> that \<^const>\<open>sint\<close> reads.  A subidentifier of net-snmp
  (\<open>oid\<close>) is an \<open>unsigned long\<close>, and an object identifier an array of them.
\<close>

type_synonym u8 = "8 word"
type_synonym u16 = "16 word"
type_synonym u32 = "32 word"
type_synonym u64 = "64 word"
type_synonym i32 = "32 word"
type_synonym oid = u64

text \<open>The typed values a varbind can hold (net-snmp's \<open>ASN_*\<close> tags).\<close>

datatype asn_value =
    ASN_INTEGER int
  | ASN_UNSIGNED int
  | ASN_OCTET_STR string
  | ASN_OBJECT_ID "oid list"

text \<open>The status codes the table code returns to net-snmp.\<close>

datatype snmp_err = SNMP_ERR_NOERROR | SNMP_ERR_GENERR

text \<open>Reading \<open>v[i]\<close> of a vector: \<^const>\<open>None\<close> is an access past the end.\<close>

definition vec_at :: "'a list \<Rightarrow> nat \<Rightarrow> 'a option" where
  "vec_at xs i = (if i < length xs then Some (xs ! i) else None)"

text \<open>Overwriting \<open>a[i]\<close> of an array: \<^const>\<open>None\<close> is a write past the end.\<close>

definition arr_put :: "'a list \<Rightarrow> nat \<Rightarrow> 'a \<Rightarrow> 'a list option" where
  "arr_put xs i v = (if i < length xs then Some (xs[i := v]) else None)"

text \<open>One attempt of a call, and the loop that repeats it while it is interrupted by a signal.\<close>

datatype 'a attempt = Interrupted | Failed | Got 'a

fun retry :: "'a attempt list \<Rightarrow> 'a attempt option" where
  "retry [] = None"
| "retry (Interrupted # as) = retry as"
| "retry (Failed # as) = Some Failed"
| "retry (Got x # as) = Some (Got x)"

section \<open>Collections of rewrite rules\<close>

named_theorems oid_consts \<open>the constant object identifiers of the sources\<close>
named_theorems column_consts \<open>the column numbers of the SNMP tables\<close>
named_theorems table_simps \<open>unfolding the columns of the SNMP tables\<close>

section \<open>Generic lemmas\<close>

lemma vec_at_Some_iff [simp]: "vec_at xs i = Some x \<longleftrightarrow> i < length xs \<and> xs ! i = x"
  by (simp add: vec_at_def)

lemma vec_at_None_iff [simp]: "vec_at xs i = None \<longleftrightarrow> length xs \<le> i"
  by (auto simp: vec_at_def)

lemma vec_at_in_range: "i < length xs \<Longrightarrow> vec_at xs i = Some (xs ! i)"
  by simp

lemma arr_put_in_range [simp]: "i < length xs \<Longrightarrow> arr_put xs i v = Some (xs[i := v])"
  by (simp add: arr_put_def)

lemma sorted_wrt_filter: "sorted_wrt P xs \<Longrightarrow> sorted_wrt P (filter Q xs)"
  by (induction xs) auto

lemma list_all_tl: "list_all P xs \<Longrightarrow> list_all P (tl xs)"
  by (cases xs) auto

lemma retry_interrupted [simp]: "retry (replicate n Interrupted @ as) = retry as"
  by (induction n) simp_all

lemma retry_not_interrupted: "retry as \<noteq> Some Interrupted"
  by (induction "as" rule: retry.induct) auto

lemma unat_u32_less: "unat (x :: u32) < 2 ^ 32"
  using unsigned_less [of x] by simp

lemma ucast_u32_u64_inj [simp]: "(ucast (a :: u32) :: u64) = ucast b \<longleftrightarrow> a = b"
proof
  assume eq: "(ucast a :: u64) = ucast b"
  have wide: "uint (ucast x :: u64) = uint x" for x :: u32
    using unsigned_less [of x, where ?'a = int]
    by (simp add: unsigned_ucast_eq take_bit_int_eq_self_iff)
  from eq show "a = b" by (metis wide word_uint_eq_iff)
qed simp

end
