(* ===== verification/C_Library.thy ===== *)
theory C_Library
  imports Prelude
begin

text \<open>
  The parts of the C and C++ standard library that the sources use on strings: \<open>atoi\<close>,
  \<open>sscanf\<close> with the format \<open>%u.%u\<close> and the decimal output of \<open>operator<<\<close> on
  \<open>unsigned long\<close>.  Out-of-range conversions follow glibc (\<open>strtol\<close> and \<open>strtoul\<close>
  saturate at 64 bits and the result is cut to 32 bits); the C standard leaves them undefined.
\<close>

section \<open>Definitions\<close>

definition isspace :: "char \<Rightarrow> bool" where
  "isspace c \<longleftrightarrow> (let n = (of_char c :: nat) in n = 32 \<or> (9 \<le> n \<and> n \<le> 13))"

definition isdigit :: "char \<Rightarrow> bool" where
  "isdigit c \<longleftrightarrow> (let n = (of_char c :: nat) in 48 \<le> n \<and> n \<le> 57)"

definition digit_value :: "char \<Rightarrow> nat" where
  "digit_value c = of_char c - 48"

definition digits_value :: "string \<Rightarrow> nat" where
  "digits_value ds = foldl (\<lambda>a c. 10 * a + digit_value c) 0 ds"

text \<open>The optional sign of a number: whether it is negative, and the rest.\<close>

definition take_sign :: "string \<Rightarrow> bool \<times> string" where
  "take_sign s =
     (case s of
        [] \<Rightarrow> (False, s)
      | c # cs \<Rightarrow> if c = CHR ''-'' then (True, cs) else if c = CHR ''+'' then (False, cs)
                  else (False, s))"

definition LONG_MAX :: int where "LONG_MAX = 2 ^ 63 - 1"
definition LONG_MIN :: int where "LONG_MIN = - (2 ^ 63)"
definition ULONG_MAX :: int where "ULONG_MAX = 2 ^ 64 - 1"

definition strtol :: "string \<Rightarrow> int" where
  "strtol s =
     (let (neg, t) = take_sign (dropWhile isspace s);
          n = int (digits_value (takeWhile isdigit t))
      in max LONG_MIN (min LONG_MAX (if neg then - n else n)))"

text \<open>\<open>atoi\<close>: the \<open>long\<close> that \<open>strtol\<close> returns, cut to an \<open>int\<close>.\<close>

definition atoi :: "string \<Rightarrow> i32" where
  "atoi s = word_of_int (strtol s)"

text \<open>
  One \<open>%u\<close> conversion: white space, an optional sign, at least one digit.  \<^const>\<open>None\<close> is
  a matching failure; the second component is the input left over.
\<close>

definition scan_u :: "string \<Rightarrow> (u32 \<times> string) option" where
  "scan_u s =
     (let (neg, t) = take_sign (dropWhile isspace s);
          ds = takeWhile isdigit t;
          n = int (digits_value ds)
      in if ds = [] then None
         else Some (if n \<le> ULONG_MAX then word_of_int (if neg then - n else n)
                    else word_of_int ULONG_MAX,
                    dropWhile isdigit t))"

text \<open>\<open>sscanf(s, "%u.%u", &a, &b)\<close>: \<^const>\<open>Some\<close> when it returns 2.\<close>

definition sscanf_u_dot_u :: "string \<Rightarrow> (u32 \<times> u32) option" where
  "sscanf_u_dot_u s =
     (case scan_u s of
        None \<Rightarrow> None
      | Some (a, r) \<Rightarrow>
          (case r of
             [] \<Rightarrow> None
           | c # cs \<Rightarrow>
               if c = CHR ''.'' then map_option (\<lambda>(b, _). (a, b)) (scan_u cs) else None))"

text \<open>Decimal output of an unsigned number.\<close>

definition digit_char :: "nat \<Rightarrow> char" where
  "digit_char d = char_of (48 + d)"

fun show_dec :: "nat \<Rightarrow> string" where
  "show_dec n = (if n < 10 then [digit_char n] else show_dec (n div 10) @ [digit_char (n mod 10)])"

declare show_dec.simps [simp del]

section \<open>Reading back what was printed\<close>

lemma of_char_digit_char: "d < 10 \<Longrightarrow> (of_char (digit_char d) :: nat) = 48 + d"
  by (simp add: digit_char_def)

lemma isdigit_digit_char [simp]: "d < 10 \<Longrightarrow> isdigit (digit_char d)"
  by (simp add: isdigit_def of_char_digit_char)

lemma digit_value_digit_char [simp]: "d < 10 \<Longrightarrow> digit_value (digit_char d) = d"
  by (simp add: digit_value_def of_char_digit_char)

lemma digits_value_snoc: "digits_value (ds @ [c]) = 10 * digits_value ds + digit_value c"
  by (simp add: digits_value_def)

lemma show_dec_digits: "list_all isdigit (show_dec n)"
proof (induction n rule: show_dec.induct)
  case (1 n)
  then show ?case by (subst show_dec.simps) auto
qed

lemma show_dec_nonempty [simp]: "show_dec n \<noteq> []"
  by (subst show_dec.simps) simp

lemma digits_value_show_dec [simp]: "digits_value (show_dec n) = n"
proof (induction n rule: less_induct)
  case (less n)
  then have "digits_value (show_dec (n div 10)) = n div 10" if "10 \<le> n" using that by simp
  then show ?case
    by (cases "10 \<le> n") (simp_all add: show_dec.simps [of n] digits_value_snoc, simp add: digits_value_def)
qed

lemma digit_not_space_sign:
  assumes "isdigit c"
  shows "\<not> isspace c" and "c \<noteq> CHR ''-''" and "c \<noteq> CHR ''+''" and "c \<noteq> CHR ''.''"
  using assms by (auto simp: isdigit_def isspace_def Let_def)

text \<open>On a nonempty run of digits followed by a non-digit the prefix parsers see only the digits.\<close>

lemma take_sign_digits:
  assumes "list_all isdigit ds" and "ds \<noteq> []"
  shows "take_sign (dropWhile isspace (ds @ rest)) = (False, ds @ rest)"
  using assms by (cases ds) (auto simp: take_sign_def digit_not_space_sign)

lemma takeWhile_digits:
  assumes "list_all isdigit ds" and "rest = [] \<or> \<not> isdigit (hd rest)"
  shows "takeWhile isdigit (ds @ rest) = ds" and "dropWhile isdigit (ds @ rest) = rest"
  using assms by (induction ds) (cases rest; auto)+

lemma atoi_digits:
  assumes "list_all isdigit ds" and "ds \<noteq> []" and "rest = [] \<or> \<not> isdigit (hd rest)"
    and "digits_value ds < 2 ^ 63"
  shows "atoi (ds @ rest) = of_nat (digits_value ds)"
  using assms
  by (simp add: atoi_def strtol_def take_sign_digits takeWhile_digits LONG_MAX_def LONG_MIN_def
      min_absorb2 max_absorb2)

lemma scan_u_digits:
  assumes "list_all isdigit ds" and "ds \<noteq> []" and "rest = [] \<or> \<not> isdigit (hd rest)"
    and "digits_value ds < 2 ^ 64"
  shows "scan_u (ds @ rest) = Some (of_nat (digits_value ds), rest)"
  using assms
  by (simp add: scan_u_def take_sign_digits takeWhile_digits ULONG_MAX_def)

lemma atoi_show_dec:
  assumes "n < 2 ^ 63"
  shows "atoi (show_dec n) = of_nat n"
  using atoi_digits [of "show_dec n" "[]"] assms by (simp add: show_dec_digits)

text \<open>An identifier \<open>index.severity\<close> in plain decimal is read back exactly.\<close>

lemma sscanf_show_dec:
  assumes "a < 2 ^ 32" and "b < 2 ^ 32"
  shows "sscanf_u_dot_u (show_dec a @ CHR ''.'' # show_dec b) = Some (of_nat a, of_nat b)"
proof -
  have "scan_u (show_dec a @ CHR ''.'' # show_dec b) = Some (of_nat a, CHR ''.'' # show_dec b)"
    using assms scan_u_digits [of "show_dec a" "CHR ''.'' # show_dec b"]
    by (simp add: show_dec_digits isdigit_def)
  moreover have "scan_u (show_dec b) = Some (of_nat b, [])"
    using assms scan_u_digits [of "show_dec b" "[]"] by (simp add: show_dec_digits)
  ultimately show ?thesis by (simp add: sscanf_u_dot_u_def)
qed

end
