(* ===== verification/Std_Map.thy ===== *)
theory Std_Map
  imports Prelude
begin

text \<open>
  \<open>std::map\<close> with a user-supplied comparison: an association list that the operations keep
  strictly increasing, so that iteration visits the keys in the order of the comparison.  As in
  the standard library, two keys are equivalent when neither is smaller.  The locale
  \<open>map_compare\<close> is the requirement of the standard on the comparison; it is interpreted by
  the comparisons of the sources.
\<close>

section \<open>Operations\<close>

type_synonym ('k, 'v) std_map = "('k \<times> 'v) list"
type_synonym 'k compare = "'k \<Rightarrow> 'k \<Rightarrow> bool"

text \<open>\<open>find\<close>: the element with an equivalent key, or \<open>end()\<close>.\<close>

fun map_find :: "'k compare \<Rightarrow> 'k \<Rightarrow> ('k, 'v) std_map \<Rightarrow> 'v option" where
  "map_find lt k [] = None"
| "map_find lt k ((a, v) # m) =
     (if lt k a then None else if lt a k then map_find lt k m else Some v)"

text \<open>\<open>emplace\<close> and \<open>insert\<close>: an element with an equivalent key stays as it is.\<close>

fun map_emplace :: "'k compare \<Rightarrow> 'k \<Rightarrow> 'v \<Rightarrow> ('k, 'v) std_map \<Rightarrow> ('k, 'v) std_map" where
  "map_emplace lt k v [] = [(k, v)]"
| "map_emplace lt k v ((a, w) # m) =
     (if lt k a then (k, v) # (a, w) # m
      else if lt a k then (a, w) # map_emplace lt k v m else (a, w) # m)"

text \<open>\<open>m[k] = v\<close>: an element with an equivalent key is overwritten.\<close>

fun map_assign :: "'k compare \<Rightarrow> 'k \<Rightarrow> 'v \<Rightarrow> ('k, 'v) std_map \<Rightarrow> ('k, 'v) std_map" where
  "map_assign lt k v [] = [(k, v)]"
| "map_assign lt k v ((a, w) # m) =
     (if lt k a then (k, v) # (a, w) # m
      else if lt a k then (a, w) # map_assign lt k v m else (a, v) # m)"

text \<open>\<open>erase(k)\<close>.\<close>

fun map_erase :: "'k compare \<Rightarrow> 'k \<Rightarrow> ('k, 'v) std_map \<Rightarrow> ('k, 'v) std_map" where
  "map_erase lt k [] = []"
| "map_erase lt k ((a, w) # m) =
     (if lt k a then (a, w) # m else if lt a k then (a, w) # map_erase lt k m else m)"

text \<open>\<open>upper_bound(k)\<close>: the first element whose key is greater than \<open>k\<close>.\<close>

fun map_upper_bound :: "'k compare \<Rightarrow> 'k \<Rightarrow> ('k, 'v) std_map \<Rightarrow> ('k \<times> 'v) option" where
  "map_upper_bound lt k [] = None"
| "map_upper_bound lt k ((a, v) # m) =
     (if lt k a then Some (a, v) else map_upper_bound lt k m)"

text \<open>\<open>insert(first, last)\<close>: the elements of a range, one by one.\<close>

fun map_insert_range :: "'k compare \<Rightarrow> ('k, 'v) std_map \<Rightarrow> ('k, 'v) std_map \<Rightarrow> ('k, 'v) std_map" where
  "map_insert_range lt [] m = m"
| "map_insert_range lt ((k, v) # r) m = map_insert_range lt r (map_emplace lt k v m)"

text \<open>The representation invariant of the ordered container.\<close>

definition map_ok :: "'k compare \<Rightarrow> ('k, 'v) std_map \<Rightarrow> bool" where
  "map_ok lt m \<longleftrightarrow> sorted_wrt lt (map fst m)"

section \<open>The comparison's contract and what the container promises\<close>

locale map_compare =
  fixes lt :: "'k \<Rightarrow> 'k \<Rightarrow> bool"
  assumes lt_irrefl: "\<not> lt a a"
    and lt_trans: "lt a b \<Longrightarrow> lt b c \<Longrightarrow> lt a c"
    and lt_total: "a = b \<or> lt a b \<or> lt b a"
begin

lemma lt_self [simp]: "lt a a \<longleftrightarrow> False"
  by (simp add: lt_irrefl)

lemma lt_asym: "lt a b \<Longrightarrow> lt b a \<longleftrightarrow> False"
  using lt_irrefl lt_trans by blast

lemma trichotomy:
  obtains (less) "lt a b" "\<not> lt b a" "a \<noteq> b"
    | (same) "a = b"
    | (greater) "lt b a" "\<not> lt a b" "a \<noteq> b"
  using lt_total [of a b] lt_asym lt_irrefl by blast

lemma ok_Nil [simp]: "map_ok lt []"
  by (simp add: map_ok_def)

lemma ok_Cons [simp]: "map_ok lt ((a, v) # m) \<longleftrightarrow> (\<forall>k \<in> fst ` set m. lt a k) \<and> map_ok lt m"
  by (auto simp: map_ok_def)

lemma smaller_key_absent:
  assumes "map_ok lt ((a, v) # m)" and "lt k a \<or> k = a"
  shows "map_of m k = None"
proof -
  have "lt k b" if "b \<in> fst ` set m" for b
    using that assms lt_trans [of k a b] by auto
  then have "k \<notin> fst ` set m" using lt_irrefl by blast
  then show ?thesis by (simp add: map_of_eq_None_iff)
qed

lemma find_map_of: "map_ok lt m \<Longrightarrow> map_find lt k m = map_of m k"
proof (induction m)
  case Nil
  then show ?case by simp
next
  case (Cons p m)
  obtain a v where p: "p = (a, v)" by (cases p)
  show ?case
  proof (cases k a rule: trichotomy)
    case less
    with Cons.prems p smaller_key_absent [of a v m k] show ?thesis by simp
  qed (use Cons p in simp_all)
qed

lemma map_of_assign: "map_of (map_assign lt k v m) = (map_of m)(k \<mapsto> v)"
proof (induction m)
  case Nil
  then show ?case by simp
next
  case (Cons p m)
  obtain a w where p: "p = (a, w)" by (cases p)
  show ?case
    by (cases k a rule: trichotomy) (use Cons p in \<open>auto simp: fun_upd_twist\<close>)
qed

lemma map_of_emplace:
  assumes "map_ok lt m"
  shows "map_of (map_emplace lt k v m) = (case map_of m k of None \<Rightarrow> (map_of m)(k \<mapsto> v) | Some _ \<Rightarrow> map_of m)"
  using assms
proof (induction m)
  case Nil
  then show ?case by simp
next
  case (Cons p m)
  obtain a w where p: "p = (a, w)" by (cases p)
  show ?case
  proof (cases k a rule: trichotomy)
    case less
    with Cons.prems p smaller_key_absent [of a w m k] show ?thesis by simp
  qed (use Cons p in \<open>auto simp: fun_upd_twist split: option.splits\<close>)
qed

lemma map_of_erase:
  assumes "map_ok lt m"
  shows "map_of (map_erase lt k m) = (map_of m)(k := None)"
  using assms
proof (induction m)
  case Nil
  then show ?case by simp
next
  case (Cons p m)
  obtain a w where p: "p = (a, w)" by (cases p)
  have absent: "map_of m k = None" if "lt k a \<or> k = a"
    using that Cons.prems p smaller_key_absent [of a w m k] by simp
  show ?case
  proof (cases k a rule: trichotomy)
    case greater
    with Cons p show ?thesis by (auto simp: fun_eq_iff)
  next
    case less
    with Cons p absent show ?thesis by (simp add: fun_upd_idem)
  next
    case same
    with Cons p absent show ?thesis by (auto simp: fun_eq_iff)
  qed
qed

lemma keys_emplace: "fst ` set (map_emplace lt k v m) = insert k (fst ` set m)"
proof (induction m)
  case Nil
  then show ?case by simp
next
  case (Cons p m)
  obtain a w where p: "p = (a, w)" by (cases p)
  show ?case
    by (cases k a rule: trichotomy) (use Cons p in auto)
qed

lemma keys_assign: "fst ` set (map_assign lt k v m) = insert k (fst ` set m)"
proof -
  have "dom (map_of (map_assign lt k v m)) = insert k (dom (map_of m))"
    by (simp add: map_of_assign)
  then show ?thesis by (simp add: dom_map_of_conv_image_fst)
qed

lemma keys_erase_subset: "set (map_erase lt k m) \<subseteq> set m"
  by (induction m) (auto split: if_splits)

lemma ok_emplace [simp, intro]: "map_ok lt m \<Longrightarrow> map_ok lt (map_emplace lt k v m)"
proof (induction m)
  case Nil
  then show ?case by simp
next
  case (Cons p m)
  obtain a w where p: "p = (a, w)" by (cases p)
  show ?case
    by (cases k a rule: trichotomy) (use Cons p in \<open>auto simp: keys_emplace intro: lt_trans\<close>)
qed

lemma ok_assign [simp, intro]: "map_ok lt m \<Longrightarrow> map_ok lt (map_assign lt k v m)"
proof (induction m)
  case Nil
  then show ?case by simp
next
  case (Cons p m)
  obtain a w where p: "p = (a, w)" by (cases p)
  show ?case
    by (cases k a rule: trichotomy) (use Cons p in \<open>auto simp: keys_assign intro: lt_trans\<close>)
qed

lemma ok_erase [simp, intro]: "map_ok lt m \<Longrightarrow> map_ok lt (map_erase lt k m)"
proof (induction m)
  case Nil
  then show ?case by simp
next
  case (Cons p m)
  obtain a w where p: "p = (a, w)" by (cases p)
  show ?case
    by (cases k a rule: trichotomy) (use Cons p keys_erase_subset [of k m] in auto)
qed

lemma ok_filter [simp, intro]: "map_ok lt m \<Longrightarrow> map_ok lt (filter P m)"
  by (induction m) auto

lemma find_assign:
  "map_ok lt m \<Longrightarrow>
    map_find lt k' (map_assign lt k v m) = (if k' = k then Some v else map_find lt k' m)"
  by (simp add: find_map_of map_of_assign)

lemma find_emplace:
  "map_ok lt m \<Longrightarrow>
    map_find lt k' (map_emplace lt k v m) =
      (if k' = k \<and> map_find lt k m = None then Some v else map_find lt k' m)"
  by (simp add: find_map_of map_of_emplace split: option.splits)

lemma find_erase:
  "map_ok lt m \<Longrightarrow>
    map_find lt k' (map_erase lt k m) = (if k' = k then None else map_find lt k' m)"
  by (simp add: find_map_of map_of_erase)

lemma find_filter_keys:
  assumes "map_ok lt m"
  shows "map_find lt k (filter (\<lambda>(a, _). P a) m) = (if P k then map_find lt k m else None)"
proof -
  have "map_of (filter (\<lambda>(a, _). P a) m) k = (if P k then map_of m k else None)"
    by (induction m) auto
  with assms show ?thesis by (simp add: find_map_of)
qed

lemma ok_insert_range [simp, intro]: "map_ok lt m \<Longrightarrow> map_ok lt (map_insert_range lt r m)"
proof (induction r arbitrary: m)
  case Nil
  then show ?case by simp
next
  case (Cons p r)
  then show ?case by (cases p) simp
qed

lemma find_insert_range:
  assumes "map_ok lt m"
  shows "map_find lt k (map_insert_range lt r m) =
    (case map_find lt k m of Some v \<Rightarrow> Some v | None \<Rightarrow> map_of r k)"
  using assms
proof (induction r arbitrary: m)
  case Nil
  then show ?case by (simp split: option.splits)
next
  case (Cons p r)
  then show ?case
    by (cases p) (auto simp: find_emplace split: option.splits)
qed

lemma upper_bound_None: "map_upper_bound lt k m = None \<longleftrightarrow> (\<forall>a \<in> fst ` set m. \<not> lt k a)"
  by (induction m) (auto split: if_splits)

lemma upper_bound_Some:
  assumes "map_ok lt m" and "map_upper_bound lt k m = Some (a, v)"
  shows "(a, v) \<in> set m \<and> lt k a \<and> (\<forall>b \<in> fst ` set m. lt k b \<longrightarrow> b = a \<or> lt a b)"
  using assms
proof (induction m)
  case Nil
  then show ?case by simp
next
  case (Cons p m)
  obtain b w where p: "p = (b, w)" by (cases p)
  show ?case
  proof (cases "lt k b")
    case True
    with Cons.prems p show ?thesis by auto
  next
    case False
    with Cons p show ?thesis by auto
  qed
qed

lemma find_Some_iff: "map_ok lt m \<Longrightarrow> map_find lt k m = Some v \<longleftrightarrow> (k, v) \<in> set m"
proof -
  assume ok: "map_ok lt m"
  then have "distinct (map fst m)"
  proof (induction m)
    case Nil
    then show ?case by simp
  next
    case (Cons p m)
    then show ?case using lt_irrefl by (cases p) fastforce
  qed
  with ok show ?thesis by (simp add: find_map_of)
qed

lemma ok_distinct: "map_ok lt m \<Longrightarrow> distinct (map fst m)"
  by (induction m) (auto simp: map_ok_def dest: bspec)

lemma find_None_iff: "map_ok lt m \<Longrightarrow> map_find lt k m = None \<longleftrightarrow> k \<notin> fst ` set m"
  by (simp add: find_map_of map_of_eq_None_iff)

end

section \<open>The built-in comparison of unsigned integers\<close>

text \<open>\<open>std::map<unsigned int, ...>\<close> compares with \<open>std::less\<close>.\<close>

abbreviation uint_less :: "u32 \<Rightarrow> u32 \<Rightarrow> bool" where
  "uint_less \<equiv> (<)"

text \<open>A linear order, like that of the unsigned integers, is a comparison for the container.\<close>

lemma linorder_compare: "map_compare ((<) :: 'a::linorder \<Rightarrow> 'a \<Rightarrow> bool)"
  by unfold_locales auto

interpretation uint_map: map_compare uint_less
  by (rule linorder_compare)

end
