(* ===== verification/Table_Defs.thy ===== *)
theory Table_Defs
  imports Std_Map
begin

text \<open>
  The alarm definitions (\<open>include/alarm_table_defs.hpp\<close>, \<open>src/alarm_table_defs.cpp\<close>):
  the definition of one alarm at one severity, the ordered table of all of them, its construction
  from the JSON files of a directory, and the lookup by index and severity.  The JSON validator
  (\<open>JSONAlarms::validate_alarms_from_json\<close> of cpp-common) and the directory listing (boost)
  are arguments.
\<close>

section \<open>Severities\<close>

text \<open>
  The enumerators and their values are the ones the tables \<open>severity_to_string\<close> and
  \<open>severity_to_state\<close> are indexed by.
\<close>

datatype Severity =
  UNDEFINED_SEVERITY | CLEARED | INDETERMINATE | CRITICAL | MAJOR | MINOR | WARNING

fun severity_value :: "Severity \<Rightarrow> u32" where
  "severity_value UNDEFINED_SEVERITY = 0"
| "severity_value CLEARED = 1"
| "severity_value INDETERMINATE = 2"
| "severity_value CRITICAL = 3"
| "severity_value MAJOR = 4"
| "severity_value MINOR = 5"
| "severity_value WARNING = 6"

text \<open>The cast \<open>(AlarmDef::Severity)n\<close>; \<^const>\<open>None\<close> when no enumerator has the value.\<close>

definition severity_cast :: "u32 \<Rightarrow> Severity option" where
  "severity_cast n =
     vec_at [UNDEFINED_SEVERITY, CLEARED, INDETERMINATE, CRITICAL, MAJOR, MINOR, WARNING] (unat n)"

section \<open>Definitions of alarms\<close>

text \<open>The fields of cpp-common's \<open>SeverityDetails\<close> and \<open>AlarmDefinition\<close> the sources read.\<close>

record SeverityDetails =
  sd_severity :: Severity
  sd_description :: string
  sd_details :: string
  sd_cause :: string
  sd_effect :: string
  sd_action :: string
  sd_extended_details :: string
  sd_extended_description :: string

record AlarmDefinition =
  ad_name :: string
  ad_index :: u32
  ad_cause :: int
  ad_severity_details :: "SeverityDetails list"

record AlarmTableDef =
  atd_valid :: bool
  atd_alarm_definition :: AlarmDefinition
  atd_severity_details :: SeverityDetails

text \<open>
  The two constructors.  The default one leaves an invalid definition, with the values that
  cpp-common's default constructors give to its two members.
\<close>

definition new_AlarmTableDef :: "AlarmDefinition \<Rightarrow> SeverityDetails \<Rightarrow> AlarmTableDef" where
  "new_AlarmTableDef ad sd =
     \<lparr>atd_valid = False, atd_alarm_definition = ad, atd_severity_details = sd\<rparr>"

definition mk_AlarmTableDef :: "AlarmDefinition \<Rightarrow> SeverityDetails \<Rightarrow> AlarmTableDef" where
  "mk_AlarmTableDef ad sd =
     \<lparr>atd_valid = True, atd_alarm_definition = ad, atd_severity_details = sd\<rparr>"

definition atd_name :: "AlarmTableDef \<Rightarrow> string" where
  "atd_name d = ad_name (atd_alarm_definition d)"
definition alarm_index :: "AlarmTableDef \<Rightarrow> u32" where
  "alarm_index d = ad_index (atd_alarm_definition d)"
definition alarm_cause :: "AlarmTableDef \<Rightarrow> int" where
  "alarm_cause d = ad_cause (atd_alarm_definition d)"
definition severity :: "AlarmTableDef \<Rightarrow> Severity" where
  "severity d = sd_severity (atd_severity_details d)"
definition description :: "AlarmTableDef \<Rightarrow> string" where
  "description d = sd_description (atd_severity_details d)"
definition details :: "AlarmTableDef \<Rightarrow> string" where
  "details d = sd_details (atd_severity_details d)"
definition cause :: "AlarmTableDef \<Rightarrow> string" where
  "cause d = sd_cause (atd_severity_details d)"
definition effect :: "AlarmTableDef \<Rightarrow> string" where
  "effect d = sd_effect (atd_severity_details d)"
definition action :: "AlarmTableDef \<Rightarrow> string" where
  "action d = sd_action (atd_severity_details d)"
definition extended_details :: "AlarmTableDef \<Rightarrow> string" where
  "extended_details d = sd_extended_details (atd_severity_details d)"
definition extended_description :: "AlarmTableDef \<Rightarrow> string" where
  "extended_description d = sd_extended_description (atd_severity_details d)"
definition is_valid :: "AlarmTableDef \<Rightarrow> bool" where
  "is_valid d = atd_valid d"
definition is_not_clear :: "AlarmTableDef \<Rightarrow> bool" where
  "is_not_clear d \<longleftrightarrow> severity d \<noteq> CLEARED"

text \<open>\<open>AlarmTableDef::state\<close>: the alarmModelState of a perceived severity.\<close>

definition severity_to_state :: "u32 list" where
  "severity_to_state = [2, 1, 2, 6, 5, 4, 3]"

definition state :: "AlarmTableDef \<Rightarrow> u32" where
  "state d = severity_to_state ! unat (severity_value (severity d))"

section \<open>The table of definitions\<close>

datatype AlarmTableDefKey = Key (key_index: u32) (key_severity: u32)

definition AlarmTableDefKey_less :: "AlarmTableDefKey \<Rightarrow> AlarmTableDefKey \<Rightarrow> bool" where
  "AlarmTableDefKey_less a b \<longleftrightarrow>
     key_index a < key_index b \<or> (key_index a = key_index b \<and> key_severity a < key_severity b)"

record AlarmTableDefs =
  key_to_def :: "(AlarmTableDefKey, AlarmTableDef) std_map"
  invalid_def :: AlarmTableDef

text \<open>A new table is empty and holds an invalid definition to answer failed lookups with.\<close>

definition new_AlarmTableDefs :: "AlarmDefinition \<Rightarrow> SeverityDetails \<Rightarrow> AlarmTableDefs" where
  "new_AlarmTableDefs ad sd = \<lparr>key_to_def = [], invalid_def = new_AlarmTableDef ad sd\<rparr>"

definition def_key :: "AlarmTableDef \<Rightarrow> AlarmTableDefKey" where
  "def_key d = Key (alarm_index d) (severity_value (severity d))"

definition insert_def :: "AlarmTableDef \<Rightarrow> AlarmTableDefs \<Rightarrow> AlarmTableDefs" where
  "insert_def d T =
     T\<lparr>key_to_def := map_emplace AlarmTableDefKey_less (def_key d) d (key_to_def T)\<rparr>"

definition get_definition :: "AlarmTableDefs \<Rightarrow> u32 \<Rightarrow> u32 \<Rightarrow> AlarmTableDef" where
  "get_definition T index sev =
     (case map_find AlarmTableDefKey_less (Key index sev) (key_to_def T) of
        Some d \<Rightarrow> d
      | None \<Rightarrow> invalid_def T)"

text \<open>Enumerating the table: \<open>begin()\<close> to \<open>end()\<close> in key order.\<close>

definition all_definitions :: "AlarmTableDefs \<Rightarrow> AlarmTableDef list" where
  "all_definitions T = map snd (key_to_def T)"

type_synonym dup_check = "(u32, u32) std_map"
type_synonym validator = "string \<Rightarrow> string + AlarmDefinition list"

text \<open>The inner loop of \<open>populate_map\<close>: one table entry per severity of an alarm.\<close>

fun insert_severities :: "AlarmDefinition \<Rightarrow> SeverityDetails list \<Rightarrow> AlarmTableDefs \<Rightarrow> AlarmTableDefs" where
  "insert_severities a [] T = T"
| "insert_severities a (sd # sds) T = insert_severities a sds (insert_def (mk_AlarmTableDef a sd) T)"

text \<open>Its outer loop, which stops at the first index seen before.\<close>

fun populate_alarms ::
  "AlarmDefinition list \<Rightarrow> dup_check \<Rightarrow> AlarmTableDefs \<Rightarrow> bool \<times> dup_check \<times> AlarmTableDefs" where
  "populate_alarms [] dup T = (True, dup, T)"
| "populate_alarms (a # as) dup T =
     (if map_find uint_less (ad_index a) dup \<noteq> None then (False, dup, T)
      else populate_alarms as (map_assign uint_less (ad_index a) 1 dup)
             (insert_severities a (ad_severity_details a) T))"

definition populate_map ::
  "validator \<Rightarrow> string \<Rightarrow> dup_check \<Rightarrow> AlarmTableDefs \<Rightarrow> bool \<times> dup_check \<times> AlarmTableDefs" where
  "populate_map validate path dup T =
     (case validate path of
        Inl error \<Rightarrow> (False, dup, T)
      | Inr alarm_definitions \<Rightarrow> populate_alarms alarm_definitions dup T)"

text \<open>An entry of the directory iterator: its path, file kind and extension.\<close>

record dir_entry =
  de_path :: string
  de_regular :: bool
  de_extension :: string

definition is_alarm_file :: "dir_entry \<Rightarrow> bool" where
  "is_alarm_file e \<longleftrightarrow> de_regular e \<and> de_extension e = ''.json''"

fun initialize_loop ::
  "validator \<Rightarrow> dir_entry list \<Rightarrow> dup_check \<Rightarrow> AlarmTableDefs \<Rightarrow> bool \<times> AlarmTableDefs" where
  "initialize_loop validate [] dup T = (True, T)"
| "initialize_loop validate (e # es) dup T =
     (if is_alarm_file e then
        (let (rc, dup', T') = populate_map validate (de_path e) dup T
         in if rc then initialize_loop validate es dup' T' else (False, T'))
      else initialize_loop validate es dup T)"

text \<open>
  \<open>AlarmTableDefs::initialize\<close>; the directory is \<^const>\<open>None\<close> when the path does not exist
  or is not a directory.
\<close>

definition initialize ::
  "validator \<Rightarrow> dir_entry list option \<Rightarrow> AlarmTableDefs \<Rightarrow> bool \<times> AlarmTableDefs" where
  "initialize validate dir T =
     (let T0 = T\<lparr>key_to_def := []\<rparr>
      in case dir of
           Some entries \<Rightarrow> initialize_loop validate entries [] T0
         | None \<Rightarrow> (False, T0))"

text \<open>
  What the table has to hold: the alarms of all the files in the order they are read, or
  \<^const>\<open>None\<close> when a file does not validate.
\<close>

fun parsed_alarms :: "validator \<Rightarrow> dir_entry list \<Rightarrow> AlarmDefinition list option" where
  "parsed_alarms validate [] = Some []"
| "parsed_alarms validate (e # es) =
     (if is_alarm_file e then
        (case validate (de_path e) of
           Inl _ \<Rightarrow> None
         | Inr as \<Rightarrow> map_option (append as) (parsed_alarms validate es))
      else parsed_alarms validate es)"

text \<open>The definition the files give for an index and a severity.\<close>

definition defined_as :: "AlarmDefinition list \<Rightarrow> u32 \<Rightarrow> u32 \<Rightarrow> AlarmTableDef option" where
  "defined_as as index sev =
     (case find (\<lambda>a. ad_index a = index) as of
        None \<Rightarrow> None
      | Some a \<Rightarrow> map_option (mk_AlarmTableDef a)
                    (find (\<lambda>sd. severity_value (sd_severity sd) = sev) (ad_severity_details a)))"

text \<open>The invariant of the table: ordered, keyed by the entry's own index and severity, valid.\<close>

definition defs_ok :: "AlarmTableDefs \<Rightarrow> bool" where
  "defs_ok T \<longleftrightarrow>
     map_ok AlarmTableDefKey_less (key_to_def T) \<and>
     (\<forall>(k, d) \<in> set (key_to_def T). k = def_key d \<and> is_valid d) \<and>
     \<not> is_valid (invalid_def T)"

section \<open>Severities and states\<close>

lemma severity_value_less: "unat (severity_value s) < 7"
  by (cases s) simp_all

lemma severity_value_inj [simp]: "severity_value a = severity_value b \<longleftrightarrow> a = b"
  by (cases a; cases b) simp_all

lemma severity_cast_value [simp]: "severity_cast (severity_value s) = Some s"
  by (cases s) (simp_all add: severity_cast_def vec_at_def)

lemma severity_cast_Some: "severity_cast n = Some s \<Longrightarrow> n = severity_value s"
proof -
  assume cast: "severity_cast n = Some s"
  then have "unat n < 7" by (auto simp: severity_cast_def vec_at_def split: if_splits)
  then consider "unat n = 0" | "unat n = 1" | "unat n = 2" | "unat n = 3" | "unat n = 4"
    | "unat n = 5" | "unat n = 6" by linarith
  then have "unat n = unat (severity_value s)"
    using cast by cases (auto simp: severity_cast_def vec_at_def)
  then show ?thesis by (simp add: word_unat_eq_iff)
qed

lemma state_cases:
  "state d = (case severity d of
     UNDEFINED_SEVERITY \<Rightarrow> 2 | CLEARED \<Rightarrow> 1 | INDETERMINATE \<Rightarrow> 2 | CRITICAL \<Rightarrow> 6
   | MAJOR \<Rightarrow> 5 | MINOR \<Rightarrow> 4 | WARNING \<Rightarrow> 3)"
  by (cases "severity d") (simp_all add: state_def severity_to_state_def)

lemma mk_AlarmTableDef_simps [simp]:
  "is_valid (mk_AlarmTableDef a sd)"
  "alarm_index (mk_AlarmTableDef a sd) = ad_index a"
  "severity (mk_AlarmTableDef a sd) = sd_severity sd"
  by (simp_all add: mk_AlarmTableDef_def is_valid_def alarm_index_def severity_def)

section \<open>The key order\<close>

text \<open>\<open>operator<\<close> is a linear order on the keys.\<close>

instantiation AlarmTableDefKey :: linorder
begin

definition less_AlarmTableDefKey :: "AlarmTableDefKey \<Rightarrow> AlarmTableDefKey \<Rightarrow> bool" where
  "less_AlarmTableDefKey = AlarmTableDefKey_less"

definition less_eq_AlarmTableDefKey :: "AlarmTableDefKey \<Rightarrow> AlarmTableDefKey \<Rightarrow> bool" where
  "less_eq_AlarmTableDefKey a b \<longleftrightarrow> a = b \<or> AlarmTableDefKey_less a b"

instance
proof
  fix a b :: AlarmTableDefKey
  show "a \<le> b \<or> b \<le> a"
    by (cases a; cases b) (auto simp: less_eq_AlarmTableDefKey_def AlarmTableDefKey_less_def)
qed (auto simp: less_AlarmTableDefKey_def less_eq_AlarmTableDefKey_def AlarmTableDefKey_less_def)

end

interpretation def_map: map_compare AlarmTableDefKey_less
  by (rule linorder_compare [where 'a = AlarmTableDefKey, unfolded less_AlarmTableDefKey_def])

section \<open>Building the table\<close>

abbreviation lookup_def :: "AlarmTableDefs \<Rightarrow> u32 \<Rightarrow> u32 \<Rightarrow> AlarmTableDef option" where
  "lookup_def T i s \<equiv> map_find AlarmTableDefKey_less (Key i s) (key_to_def T)"

lemma defs_ok_map [simp]: "defs_ok T \<Longrightarrow> map_ok AlarmTableDefKey_less (key_to_def T)"
  by (simp add: defs_ok_def)

lemma lookup_def_Some:
  assumes "defs_ok T" and "lookup_def T i s = Some d"
  shows "alarm_index d = i \<and> severity_value (severity d) = s \<and> is_valid d"
proof -
  from assms have "(Key i s, d) \<in> set (key_to_def T)"
    by (simp add: def_map.find_Some_iff)
  with assms(1) show ?thesis by (auto simp: defs_ok_def def_key_def)
qed

lemma get_definition_valid_iff:
  assumes "defs_ok T"
  shows "is_valid (get_definition T i s) \<longleftrightarrow> lookup_def T i s = Some (get_definition T i s)"
proof (cases "lookup_def T i s")
  case None
  with assms show ?thesis by (simp add: get_definition_def defs_ok_def)
next
  case (Some d)
  with lookup_def_Some [OF assms Some] show ?thesis by (simp add: get_definition_def)
qed

lemma invalid_def_insert_def [simp]: "invalid_def (insert_def d T) = invalid_def T"
  by (simp add: insert_def_def)

lemma map_emplace_set: "set (map_emplace lt k v m) \<subseteq> insert (k, v) (set m)"
  by (induction m) (auto split: if_splits)

lemma defs_ok_insert_def:
  assumes "defs_ok T" and "is_valid d"
  shows "defs_ok (insert_def d T)"
  using assms map_emplace_set [of AlarmTableDefKey_less "def_key d" d "key_to_def T"]
  by (auto simp: defs_ok_def insert_def_def)

lemma defs_ok_insert_severities: "defs_ok T \<Longrightarrow> defs_ok (insert_severities a sds T)"
  by (induction sds arbitrary: T) (simp_all add: defs_ok_insert_def)

lemma lookup_insert_severities:
  "defs_ok T \<Longrightarrow>
    lookup_def (insert_severities a sds T) i s =
      (case lookup_def T i s of
         Some d \<Rightarrow> Some d
       | None \<Rightarrow> if i = ad_index a
                 then map_option (mk_AlarmTableDef a) (find (\<lambda>sd. severity_value (sd_severity sd) = s) sds)
                 else None)"
proof (induction sds arbitrary: T)
  case Nil
  then show ?case by (simp split: option.splits)
next
  case (Cons sd sds)
  have "defs_ok (insert_def (mk_AlarmTableDef a sd) T)"
    using Cons.prems by (simp add: defs_ok_insert_def)
  then show ?case
    using Cons by (auto simp: insert_def_def def_key_def def_map.find_emplace split: option.splits)
qed

text \<open>No alarm of \<open>as\<close> repeats an index, of \<open>as\<close> or of the ones seen before.\<close>

definition fresh_alarms :: "dup_check \<Rightarrow> AlarmDefinition list \<Rightarrow> bool" where
  "fresh_alarms dup as \<longleftrightarrow>
     distinct (map ad_index as) \<and> (\<forall>a \<in> set as. map_find uint_less (ad_index a) dup = None)"

definition mark_seen :: "AlarmDefinition list \<Rightarrow> dup_check \<Rightarrow> dup_check" where
  "mark_seen as dup = foldl (\<lambda>m a. map_assign uint_less (ad_index a) 1 m) dup as"

lemma mark_seen_ok: "map_ok uint_less dup \<Longrightarrow> map_ok uint_less (mark_seen as dup)"
  by (induction as arbitrary: dup) (auto simp: mark_seen_def)

lemma mark_seen_find:
  "map_ok uint_less dup \<Longrightarrow>
    map_find uint_less i (mark_seen as dup) =
      (if i \<in> ad_index ` set as then Some 1 else map_find uint_less i dup)"
proof (induction as arbitrary: dup)
  case Nil
  then show ?case by (simp add: mark_seen_def)
next
  case (Cons a as)
  have ok: "map_ok uint_less (map_assign uint_less (ad_index a) 1 dup)"
    using Cons.prems by blast
  from Cons.IH [OF ok] show ?case
    using Cons.prems by (auto simp: mark_seen_def uint_map.find_assign)
qed

definition enter_alarms :: "AlarmDefinition list \<Rightarrow> AlarmTableDefs \<Rightarrow> AlarmTableDefs" where
  "enter_alarms as T = foldl (\<lambda>U a. insert_severities a (ad_severity_details a) U) T as"

lemma defs_ok_enter_alarms: "defs_ok T \<Longrightarrow> defs_ok (enter_alarms as T)"
  by (induction as arbitrary: T) (auto simp: enter_alarms_def defs_ok_insert_severities)

lemma defined_as_Cons:
  "defined_as (a # as) i s =
     (if ad_index a = i
      then map_option (mk_AlarmTableDef a)
             (find (\<lambda>sd. severity_value (sd_severity sd) = s) (ad_severity_details a))
      else defined_as as i s)"
  by (simp add: defined_as_def)

lemma defined_as_None: "i \<notin> ad_index ` set as \<Longrightarrow> defined_as as i s = None"
  by (induction as) (auto simp: defined_as_Cons, simp add: defined_as_def)

lemma lookup_enter_alarms:
  "defs_ok T \<Longrightarrow> distinct (map ad_index as) \<Longrightarrow>
    lookup_def (enter_alarms as T) i s =
      (case lookup_def T i s of Some d \<Rightarrow> Some d | None \<Rightarrow> defined_as as i s)"
proof (induction as arbitrary: T)
  case Nil
  then show ?case by (simp add: enter_alarms_def defined_as_def split: option.splits)
next
  case (Cons a as)
  let ?U = "insert_severities a (ad_severity_details a) T"
  have "defs_ok ?U" using Cons.prems by (simp add: defs_ok_insert_severities)
  moreover have "i = ad_index a \<Longrightarrow> defined_as as i s = None"
    using Cons.prems(2) by (intro defined_as_None) auto
  ultimately show ?case
    using Cons
    by (auto simp: enter_alarms_def defined_as_Cons lookup_insert_severities split: option.splits)
qed

lemma populate_alarms_fresh:
  "map_ok uint_less dup \<Longrightarrow> fresh_alarms dup as \<Longrightarrow>
    populate_alarms as dup T = (True, mark_seen as dup, enter_alarms as T)"
proof (induction as arbitrary: dup T)
  case Nil
  then show ?case by (simp add: mark_seen_def enter_alarms_def)
next
  case (Cons a as)
  have "fresh_alarms (map_assign uint_less (ad_index a) 1 dup) as"
    using Cons.prems by (auto simp: fresh_alarms_def uint_map.find_assign) (metis image_eqI)
  with Cons show ?case
    by (auto simp: fresh_alarms_def mark_seen_def enter_alarms_def)
qed

lemma populate_alarms_dup:
  "map_ok uint_less dup \<Longrightarrow> \<not> fresh_alarms dup as \<Longrightarrow> \<not> fst (populate_alarms as dup T)"
proof (induction as arbitrary: dup T)
  case Nil
  then show ?case by (simp add: fresh_alarms_def)
next
  case (Cons a as)
  show ?case
  proof (cases "map_find uint_less (ad_index a) dup = None")
    case True
    then have "\<not> fresh_alarms (map_assign uint_less (ad_index a) 1 dup) as"
      using Cons.prems by (auto simp: fresh_alarms_def uint_map.find_assign split: if_splits)
    with True Cons show ?thesis by auto
  qed simp
qed

lemma defs_ok_populate_alarms: "defs_ok T \<Longrightarrow> defs_ok (snd (snd (populate_alarms as dup T)))"
  by (induction as arbitrary: dup T) (auto simp: defs_ok_insert_severities)

lemma defs_ok_initialize_loop: "defs_ok T \<Longrightarrow> defs_ok (snd (initialize_loop v es dup T))"
proof (induction es arbitrary: dup T)
  case Nil
  then show ?case by simp
next
  case (Cons e es)
  have "defs_ok (snd (snd (populate_map v (de_path e) dup T)))"
    using Cons.prems by (auto simp: populate_map_def defs_ok_populate_alarms split: sum.splits)
  with Cons show ?case by (auto split: prod.splits)
qed

lemma fresh_alarms_append:
  "map_ok uint_less dup \<Longrightarrow>
    fresh_alarms dup (as @ bs) \<longleftrightarrow> fresh_alarms dup as \<and> fresh_alarms (mark_seen as dup) bs"
  by (auto simp: fresh_alarms_def mark_seen_find split: if_splits) (metis image_eqI)

lemma enter_alarms_append: "enter_alarms (as @ bs) T = enter_alarms bs (enter_alarms as T)"
  by (simp add: enter_alarms_def)

lemma initialize_loop_parsed:
  "map_ok uint_less dup \<Longrightarrow>
    (case parsed_alarms v es of
       Some as \<Rightarrow> if fresh_alarms dup as then initialize_loop v es dup T = (True, enter_alarms as T)
                  else \<not> fst (initialize_loop v es dup T)
     | None \<Rightarrow> \<not> fst (initialize_loop v es dup T))"
proof (induction es arbitrary: dup T)
  case Nil
  then show ?case by (simp add: fresh_alarms_def enter_alarms_def)
next
  case (Cons e es)
  show ?case
  proof (cases "is_alarm_file e")
    case False
    with Cons.IH [OF Cons.prems, of T] show ?thesis by (auto split: option.splits)
  next
    case json: True
    show ?thesis
    proof (cases "v (de_path e)")
      case (Inl err)
      with json show ?thesis by (simp add: populate_map_def)
    next
      case (Inr as)
      show ?thesis
      proof (cases "fresh_alarms dup as")
        case True
        with Inr json Cons.prems have
          "initialize_loop v (e # es) dup T = initialize_loop v es (mark_seen as dup) (enter_alarms as T)"
          by (simp add: populate_map_def populate_alarms_fresh)
        with True Inr json Cons.IH [OF mark_seen_ok [OF Cons.prems], of as "enter_alarms as T"] show ?thesis
          by (auto simp: fresh_alarms_append [OF Cons.prems] enter_alarms_append split: option.splits if_splits)
      next
        case False
        with populate_alarms_dup [OF Cons.prems False, of T] Inr json
        have "\<not> fst (initialize_loop v (e # es) dup T)"
          by (auto simp: populate_map_def split: prod.splits)
        with False Inr json show ?thesis
          by (auto simp: fresh_alarms_append [OF Cons.prems] split: option.splits)
      qed
    qed
  qed
qed

section \<open>Properties\<close>

text \<open>The alarm of \<open>src/ut/valid_alarms\<close> at two of its severities, used in examples.\<close>

definition sample_details :: "Severity \<Rightarrow> SeverityDetails" where
  "sample_details s =
     \<lparr>sd_severity = s, sd_description = ''Process failure'', sd_details = ''Monit'',
      sd_cause = ''Cause'', sd_effect = ''Effect'', sd_action = ''Action'',
      sd_extended_details = ''Monit'', sd_extended_description = ''Process failure''\<rparr>"

definition sample_alarm :: "u32 \<Rightarrow> AlarmDefinition" where
  "sample_alarm i =
     \<lparr>ad_name = ''PROCESS_FAIL'', ad_index = i, ad_cause = 163,
      ad_severity_details = [sample_details CLEARED, sample_details CRITICAL]\<rparr>"

definition sample_def :: "u32 \<Rightarrow> Severity \<Rightarrow> AlarmTableDef" where
  "sample_def i s = mk_AlarmTableDef (sample_alarm i) (sample_details s)"

definition sample_files :: "dir_entry list" where
  "sample_files =
     [\<lparr>de_path = ''a.json'', de_regular = True, de_extension = ''.json''\<rparr>,
      \<lparr>de_path = ''readme'', de_regular = True, de_extension = []\<rparr>]"

definition sample_validate :: validator where
  "sample_validate p =
     (if p = ''a.json'' then Inr [sample_alarm 1000, sample_alarm 1001] else Inl ''Invalid JSON file'')"

definition sample_empty :: AlarmTableDefs where
  "sample_empty = new_AlarmTableDefs (sample_alarm 0) (sample_details UNDEFINED_SEVERITY)"

definition sample_defs :: AlarmTableDefs where
  "sample_defs = enter_alarms [sample_alarm 1000, sample_alarm 1001] sample_empty"

lemmas sample_simps =
  sample_details_def sample_alarm_def sample_def_def sample_files_def
  sample_validate_def sample_empty_def new_AlarmTableDefs_def new_AlarmTableDef_def

lemma sample_defs_ok: "defs_ok sample_defs"
  unfolding sample_defs_def
  by (rule defs_ok_enter_alarms) (simp add: defs_ok_def sample_simps is_valid_def)

lemma initialize_rc:
  "fst (initialize v (Some es) T) \<longleftrightarrow>
     (\<exists>as. parsed_alarms v es = Some as \<and> distinct (map ad_index as))"
proof -
  have "fresh_alarms [] as \<longleftrightarrow> distinct (map ad_index as)" for as
    by (simp add: fresh_alarms_def)
  with initialize_loop_parsed [of "[]" v es "T\<lparr>key_to_def := []\<rparr>"] show ?thesis
    by (auto simp: initialize_def split: option.splits if_splits)
qed

lemma invalid_def_insert_severities [simp]:
  "invalid_def (insert_severities a sds T) = invalid_def T"
  by (induction sds arbitrary: T) simp_all

lemma invalid_def_enter_alarms [simp]: "invalid_def (enter_alarms as T) = invalid_def T"
  by (induction as arbitrary: T) (simp_all add: enter_alarms_def)

lemma defs_ok_initialize:
  assumes "\<not> is_valid (invalid_def T)"
  shows "defs_ok (snd (initialize v dir T))"
proof -
  have "defs_ok (T\<lparr>key_to_def := []\<rparr>)" using assms by (simp add: defs_ok_def)
  then show ?thesis
    by (auto simp: initialize_def Let_def defs_ok_initialize_loop split: option.splits)
qed

lemma new_defs_invalid [simp]: "\<not> is_valid (invalid_def (new_AlarmTableDefs ad sd))"
  by (simp add: new_AlarmTableDefs_def new_AlarmTableDef_def is_valid_def)

lemma sample_empty_invalid: "\<not> is_valid (invalid_def sample_empty)"
  by (simp add: sample_simps is_valid_def)

text \<open>
  C13. After a successful start the lookup by index and severity returns what the files define for
  that pair (the first entry of that severity under that index), and the invalid definition when
  they define nothing.
\<close>

theorem initialize_get_definition:
  assumes "\<not> is_valid (invalid_def T)"
    and "initialize v (Some es) T = (True, T')"
    and "parsed_alarms v es = Some as"
  shows "get_definition T' i s =
    (case defined_as as i s of Some d \<Rightarrow> d | None \<Rightarrow> invalid_def T)"
proof -
  let ?T0 = "T\<lparr>key_to_def := []\<rparr>"
  have ok: "defs_ok ?T0" using assms(1) by (simp add: defs_ok_def)
  have "fst (initialize v (Some es) T)" using assms(2) by simp
  then have distinct: "distinct (map ad_index as)"
    using assms(3) by (simp add: initialize_rc)
  then have "T' = enter_alarms as ?T0"
    using assms(2,3) initialize_loop_parsed [of "[]" v es ?T0]
    by (simp add: initialize_def fresh_alarms_def)
  then show ?thesis
    using lookup_enter_alarms [OF ok distinct, of i s]
    by (simp add: get_definition_def split: option.splits)
qed

theorem initialize_get_definition_witness:
  "get_definition (snd (initialize sample_validate (Some sample_files) sample_empty)) 1000 3 =
     sample_def 1000 CRITICAL"
proof -
  have init: "initialize sample_validate (Some sample_files) sample_empty =
    (True, snd (initialize sample_validate (Some sample_files) sample_empty))"
    by (simp add: initialize_def sample_simps is_alarm_file_def populate_map_def)
  have parsed: "parsed_alarms sample_validate sample_files = Some [sample_alarm 1000, sample_alarm 1001]"
    by (simp add: sample_simps is_alarm_file_def)
  from initialize_get_definition [OF sample_empty_invalid init parsed] show ?thesis
    by (simp add: defined_as_def sample_alarm_def sample_details_def sample_def_def)
qed

end
