(* ===== verification/Snmp_Tables.thy ===== *)
theory Snmp_Tables
  imports Table_Defs
begin

text \<open>
  What the SNMP tables of the agent share (\<open>include/oid_definitions.hpp\<close> and the net-snmp
  helpers they call), and the two static tables: the alarm model table
  (\<open>src/alarm_model_table.cpp\<close>) and the ITU alarm table (\<open>src/itu_alarm_table.cpp\<close>).
  net-snmp's \<open>build_oid\<close> and its row container are arguments; the contracts they are used
  under are \<open>build_oid_spec\<close> and the locale \<open>netsnmp_container\<close>.
\<close>

section \<open>Object identifiers of the tables\<close>

definition alarmModelTable_oid :: "oid list" where
  [oid_consts]: "alarmModelTable_oid = [1,3,6,1,2,1,118,1,1,2]"
definition alarmActiveTable_oid :: "oid list" where
  [oid_consts]: "alarmActiveTable_oid = [1,3,6,1,2,1,118,1,2,2]"
definition ituAlarmTable_oid :: "oid list" where
  [oid_consts]: "ituAlarmTable_oid = [1,3,6,1,2,1,121,1,1,1]"
definition zero_dot_zero_oid :: "oid list" where
  [oid_consts]: "zero_dot_zero_oid = [0,0]"
definition alarm_active_state_oid :: "oid list" where
  [oid_consts]: "alarm_active_state_oid = [1,3,6,1,2,1,118,0,2]"
definition alarm_clear_state_oid :: "oid list" where
  [oid_consts]: "alarm_clear_state_oid = [1,3,6,1,2,1,118,0,3]"
definition itu_alarm_table_row_oid :: "oid list" where
  [oid_consts]: "itu_alarm_table_row_oid = [1,3,6,1,2,1,121,1,1,1,1,2,0,1,1]"
definition alarm_model_table_row_oid :: "oid list" where
  [oid_consts]: "alarm_model_table_row_oid = [1,3,6,1,2,1,118,1,1,2,1,3,0,1,2]"
definition entry_column_oid :: "oid list" where
  [oid_consts]: "entry_column_oid = [1,3]"

section \<open>Library operations\<close>

text \<open>\<open>build_oid\<close>: the index OID of a list of index varbinds, \<^const>\<open>None\<close> on error.\<close>

type_synonym build_oid_fn = "asn_value list \<Rightarrow> oid list option"

fun index_subids :: "asn_value \<Rightarrow> oid list" where
  "index_subids (ASN_INTEGER i) = [word_of_int i]"
| "index_subids (ASN_UNSIGNED n) = [word_of_int n]"
| "index_subids (ASN_OCTET_STR s) = of_nat (length s) # map (\<lambda>c. of_nat (of_char c)) s"
| "index_subids (ASN_OBJECT_ID ids) = of_nat (length ids) # ids"

text \<open>
  The encoding of table indexes of RFC 2578, section 7.7, within net-snmp's limit of 128
  subidentifiers.
\<close>

definition encode_index :: build_oid_fn where
  "encode_index vs = (let ids = concat (map index_subids vs) in if length ids \<le> 128 then Some ids else None)"

definition build_oid_spec :: "build_oid_fn \<Rightarrow> bool" where
  "build_oid_spec bo \<longleftrightarrow> (\<forall>vs. bo vs = encode_index vs)"

text \<open>
  A row container: rows of type \<open>'r\<close> are kept under the index OID that is the first member of
  the row's context.
\<close>

record ('r, 'c) container_ops =
  c_new :: 'c
  c_insert :: "oid list \<Rightarrow> 'r \<Rightarrow> 'c \<Rightarrow> 'c"
  c_remove :: "oid list \<Rightarrow> 'c \<Rightarrow> 'c"
  c_find :: "oid list \<Rightarrow> 'c \<Rightarrow> 'r option"

fun c_insert_all :: "('r, 'c) container_ops \<Rightarrow> (oid list \<times> 'r) list \<Rightarrow> 'c \<Rightarrow> 'c" where
  "c_insert_all C [] c = c"
| "c_insert_all C ((k, r) # rs) c = c_insert_all C rs (c_insert C k r c)"

text \<open>A container that satisfies the contract, as a partial function.\<close>

definition fun_container :: "('r, oid list \<rightharpoonup> 'r) container_ops" where
  "fun_container =
     \<lparr>c_new = (\<lambda>_. None),
      c_insert = (\<lambda>k r c. case c k of None \<Rightarrow> c(k \<mapsto> r) | Some _ \<Rightarrow> c),
      c_remove = (\<lambda>k c. c(k := None)),
      c_find = (\<lambda>k c. c k)\<rparr>"

section \<open>Registering a table\<close>

datatype asn_type = T_OCTET_STR | T_UNSIGNED | T_INTEGER

record table_reg =
  reg_name :: string
  reg_oid :: "oid list"
  reg_indexes :: "asn_type list"
  min_column :: nat
  max_column :: nat

text \<open>The file-scope variables \<open>my_handler\<close> and \<open>cb.container\<close> of a table.\<close>

record 'c table_state =
  my_handler :: "table_reg option"
  container :: "'c option"

text \<open>
  The common steps of the three initialisation functions.  The two flags say whether the
  allocations of the table information and of the handler registration succeed.  The call
  \<open>netsnmp_container_find\<close>, whose result the code does not test, is taken to return a new
  container.
\<close>

definition register_table ::
  "('r, 'c) container_ops \<Rightarrow> table_reg \<Rightarrow> bool \<Rightarrow> bool \<Rightarrow> ('c, 'z) table_state_scheme \<Rightarrow>
   snmp_err \<times> ('c, 'z) table_state_scheme" where
  "register_table C reg info_ok handler_ok st =
     (if my_handler st \<noteq> None then (SNMP_ERR_NOERROR, st)
      else let st0 = st\<lparr>container := None\<rparr>
           in if \<not> info_ok then (SNMP_ERR_GENERR, st0)
              else if \<not> handler_ok then (SNMP_ERR_GENERR, st0)
              else (SNMP_ERR_NOERROR, st0\<lparr>my_handler := Some reg, container := Some (c_new C)\<rparr>))"

text \<open>The outcome of copying a column into a varbind; \<open>OutOfBounds\<close> is a write past an array.\<close>

datatype get_result = GotValue asn_value | GenErr | OutOfBounds

text \<open>Overwriting the two last subidentifiers of a copied row OID.\<close>

definition patch_row_oid :: "oid list \<Rightarrow> nat \<Rightarrow> oid \<Rightarrow> nat \<Rightarrow> oid \<Rightarrow> get_result" where
  "patch_row_oid o1 i x j y =
     (case arr_put o1 i x of
        None \<Rightarrow> OutOfBounds
      | Some o2 \<Rightarrow> (case arr_put o2 j y of
                       None \<Rightarrow> OutOfBounds
                     | Some o3 \<Rightarrow> GotValue (ASN_OBJECT_ID o3)))"

section \<open>The alarm model table\<close>

text \<open>
  The columns of the table, the bounds of the readable ones, and the places of a row OID that
  are overwritten, as \<open>include/alarm_model_table.hpp\<close> numbers them.  The two first columns
  are the index and are not accessible.
\<close>

definition COLUMN_ALARMMODELINDEX :: nat where [column_consts]: "COLUMN_ALARMMODELINDEX = 1"
definition COLUMN_ALARMMODELSTATE :: nat where [column_consts]: "COLUMN_ALARMMODELSTATE = 2"
definition COLUMN_ALARMMODELNOTIFICATIONID :: nat where [column_consts]: "COLUMN_ALARMMODELNOTIFICATIONID = 3"
definition COLUMN_ALARMMODELVARBINDINDEX :: nat where [column_consts]: "COLUMN_ALARMMODELVARBINDINDEX = 4"
definition COLUMN_ALARMMODELVARBINDVALUE :: nat where [column_consts]: "COLUMN_ALARMMODELVARBINDVALUE = 5"
definition COLUMN_ALARMMODELDESCRIPTION :: nat where [column_consts]: "COLUMN_ALARMMODELDESCRIPTION = 6"
definition COLUMN_ALARMMODELSPECIFICPOINTER :: nat where [column_consts]: "COLUMN_ALARMMODELSPECIFICPOINTER = 7"
definition COLUMN_ALARMMODELVARBINDSUBTREE :: nat where [column_consts]: "COLUMN_ALARMMODELVARBINDSUBTREE = 8"
definition COLUMN_ALARMMODELRESOURCEPREFIX :: nat where [column_consts]: "COLUMN_ALARMMODELRESOURCEPREFIX = 9"
definition COLUMN_ALARMMODELROWSTATUS :: nat where [column_consts]: "COLUMN_ALARMMODELROWSTATUS = 10"
definition alarmModelTable_COL_MIN :: nat where [column_consts]: "alarmModelTable_COL_MIN = 3"
definition alarmModelTable_COL_MAX :: nat where [column_consts]: "alarmModelTable_COL_MAX = 10"
definition ITUALARMTABLEROW_INDEX :: nat where [column_consts]: "ITUALARMTABLEROW_INDEX = 13"
definition ITUALARMTABLEROW_SEVERITY :: nat where [column_consts]: "ITUALARMTABLEROW_SEVERITY = 14"
definition ROWSTATUS_ACTIVE :: int where [column_consts]: "ROWSTATUS_ACTIVE = 1"

definition alarmModelTable_reg :: table_reg where
  "alarmModelTable_reg =
     \<lparr>reg_name = ''alarmModelTable'', reg_oid = alarmModelTable_oid,
      reg_indexes = [T_OCTET_STR, T_UNSIGNED, T_UNSIGNED], min_column = alarmModelTable_COL_MIN,
      max_column = alarmModelTable_COL_MAX\<rparr>"

definition initialize_table_alarmModelTable ::
  "('r, 'c) container_ops \<Rightarrow> bool \<Rightarrow> bool \<Rightarrow> 'c table_state \<Rightarrow> snmp_err \<times> 'c table_state" where
  "initialize_table_alarmModelTable C = register_table C alarmModelTable_reg"

definition alarmModelTable_index_to_oid ::
  "build_oid_fn \<Rightarrow> string \<Rightarrow> u64 \<Rightarrow> u64 \<Rightarrow> oid list option" where
  "alarmModelTable_index_to_oid bo name index st =
     bo [ASN_OCTET_STR name, ASN_UNSIGNED (uint index), ASN_UNSIGNED (uint st)]"

text \<open>The index of the new row context; \<^const>\<open>None\<close> when \<open>malloc\<close> or the index fails.\<close>

definition alarmModelTable_create_row_context ::
  "build_oid_fn \<Rightarrow> bool \<Rightarrow> string \<Rightarrow> u64 \<Rightarrow> u64 \<Rightarrow> oid list option" where
  "alarmModelTable_create_row_context bo malloc_ok name index st =
     (if \<not> malloc_ok then None else alarmModelTable_index_to_oid bo name index st)"

fun alarmModelTable_insert_rows ::
  "build_oid_fn \<Rightarrow> (AlarmTableDef, 'c) container_ops \<Rightarrow> (AlarmTableDef \<Rightarrow> bool) \<Rightarrow>
   AlarmTableDef list \<Rightarrow> 'c \<Rightarrow> 'c" where
  "alarmModelTable_insert_rows bo C mem [] c = c"
| "alarmModelTable_insert_rows bo C mem (d # ds) c =
     alarmModelTable_insert_rows bo C mem ds
       (case alarmModelTable_create_row_context bo (mem d) [] (ucast (alarm_index d)) (ucast (state d)) of
          None \<Rightarrow> c
        | Some k \<Rightarrow> c_insert C k d c)"

definition alarmModelTable_insert_defs ::
  "build_oid_fn \<Rightarrow> (AlarmTableDef, 'c) container_ops \<Rightarrow> (AlarmTableDef \<Rightarrow> bool) \<Rightarrow>
   AlarmTableDefs \<Rightarrow> 'c table_state \<Rightarrow> 'c table_state" where
  "alarmModelTable_insert_defs bo C mem T st =
     st\<lparr>container := map_option (alarmModelTable_insert_rows bo C mem (all_definitions T)) (container st)\<rparr>"

definition init_alarmModelTable ::
  "build_oid_fn \<Rightarrow> (AlarmTableDef, 'c) container_ops \<Rightarrow> bool \<Rightarrow> bool \<Rightarrow> (AlarmTableDef \<Rightarrow> bool) \<Rightarrow>
   AlarmTableDefs \<Rightarrow> 'c table_state \<Rightarrow> 'c table_state" where
  "init_alarmModelTable bo C info_ok handler_ok mem T st =
     (case initialize_table_alarmModelTable C info_ok handler_ok st of
        (err, st') \<Rightarrow> if err = SNMP_ERR_NOERROR then alarmModelTable_insert_defs bo C mem T st' else st')"

definition alarmModelTable_get_value :: "AlarmTableDef \<Rightarrow> nat \<Rightarrow> get_result" where
  "alarmModelTable_get_value d col =
     (if col = COLUMN_ALARMMODELNOTIFICATIONID then
        (if severity d = CLEARED then GotValue (ASN_OBJECT_ID alarm_clear_state_oid)
         else GotValue (ASN_OBJECT_ID alarm_active_state_oid))
      else if col = COLUMN_ALARMMODELVARBINDINDEX then GotValue (ASN_UNSIGNED 0)
      else if col = COLUMN_ALARMMODELVARBINDVALUE then GotValue (ASN_INTEGER 0)
      else if col = COLUMN_ALARMMODELDESCRIPTION then GotValue (ASN_OCTET_STR (description d))
      else if col = COLUMN_ALARMMODELSPECIFICPOINTER then
        patch_row_oid itu_alarm_table_row_oid
          ITUALARMTABLEROW_INDEX (ucast (alarm_index d))
          ITUALARMTABLEROW_SEVERITY (ucast (severity_value (severity d)))
      else if col = COLUMN_ALARMMODELVARBINDSUBTREE then GotValue (ASN_OBJECT_ID zero_dot_zero_oid)
      else if col = COLUMN_ALARMMODELRESOURCEPREFIX then GotValue (ASN_OBJECT_ID zero_dot_zero_oid)
      else if col = COLUMN_ALARMMODELROWSTATUS then GotValue (ASN_INTEGER ROWSTATUS_ACTIVE)
      else GenErr)"

section \<open>The ITU alarm table\<close>

text \<open>The numbers of \<open>include/itu_alarm_table.hpp\<close>; the first column is the last index.\<close>

definition COLUMN_ITUALARMPERCEIVEDSEVERITY :: nat where [column_consts]: "COLUMN_ITUALARMPERCEIVEDSEVERITY = 1"
definition COLUMN_ITUALARMEVENTTYPE :: nat where [column_consts]: "COLUMN_ITUALARMEVENTTYPE = 2"
definition COLUMN_ITUALARMPROBABLECAUSE :: nat where [column_consts]: "COLUMN_ITUALARMPROBABLECAUSE = 3"
definition COLUMN_ITUALARMADDITIONALTEXT :: nat where [column_consts]: "COLUMN_ITUALARMADDITIONALTEXT = 4"
definition COLUMN_ITUALARMGENERICMODEL :: nat where [column_consts]: "COLUMN_ITUALARMGENERICMODEL = 5"
definition ituAlarmTable_COL_MIN :: nat where [column_consts]: "ituAlarmTable_COL_MIN = 2"
definition ituAlarmTable_COL_MAX :: nat where [column_consts]: "ituAlarmTable_COL_MAX = 5"
definition ALARMMODELTABLEROW_INDEX :: nat where [column_consts]: "ALARMMODELTABLEROW_INDEX = 13"
definition ALARMMODELTABLEROW_STATE :: nat where [column_consts]: "ALARMMODELTABLEROW_STATE = 14"
definition IANAITUEVENTTYPE_OPERATIONALVIOLATION :: int where
  [column_consts]: "IANAITUEVENTTYPE_OPERATIONALVIOLATION = 8"

definition ituAlarmTable_reg :: table_reg where
  "ituAlarmTable_reg =
     \<lparr>reg_name = ''ituAlarmTable'', reg_oid = ituAlarmTable_oid,
      reg_indexes = [T_OCTET_STR, T_UNSIGNED, T_INTEGER], min_column = ituAlarmTable_COL_MIN,
      max_column = ituAlarmTable_COL_MAX\<rparr>"

definition initialize_table_ituAlarmTable ::
  "('r, 'c) container_ops \<Rightarrow> bool \<Rightarrow> bool \<Rightarrow> 'c table_state \<Rightarrow> snmp_err \<times> 'c table_state" where
  "initialize_table_ituAlarmTable C = register_table C ituAlarmTable_reg"

text \<open>The severity is passed as a \<open>long\<close>.\<close>

definition ituAlarmTable_index_to_oid ::
  "build_oid_fn \<Rightarrow> string \<Rightarrow> u64 \<Rightarrow> int \<Rightarrow> oid list option" where
  "ituAlarmTable_index_to_oid bo name index sev =
     bo [ASN_OCTET_STR name, ASN_UNSIGNED (uint index), ASN_INTEGER sev]"

definition ituAlarmTable_create_row_context ::
  "build_oid_fn \<Rightarrow> bool \<Rightarrow> string \<Rightarrow> u64 \<Rightarrow> int \<Rightarrow> oid list option" where
  "ituAlarmTable_create_row_context bo malloc_ok name index sev =
     (if \<not> malloc_ok then None else ituAlarmTable_index_to_oid bo name index sev)"

fun ituAlarmTable_insert_rows ::
  "build_oid_fn \<Rightarrow> (AlarmTableDef, 'c) container_ops \<Rightarrow> (AlarmTableDef \<Rightarrow> bool) \<Rightarrow>
   AlarmTableDef list \<Rightarrow> 'c \<Rightarrow> 'c" where
  "ituAlarmTable_insert_rows bo C mem [] c = c"
| "ituAlarmTable_insert_rows bo C mem (d # ds) c =
     ituAlarmTable_insert_rows bo C mem ds
       (case ituAlarmTable_create_row_context bo (mem d) [] (ucast (alarm_index d))
               (uint (severity_value (severity d))) of
          None \<Rightarrow> c
        | Some k \<Rightarrow> c_insert C k d c)"

definition ituAlarmTable_insert_defs ::
  "build_oid_fn \<Rightarrow> (AlarmTableDef, 'c) container_ops \<Rightarrow> (AlarmTableDef \<Rightarrow> bool) \<Rightarrow>
   AlarmTableDefs \<Rightarrow> 'c table_state \<Rightarrow> 'c table_state" where
  "ituAlarmTable_insert_defs bo C mem T st =
     st\<lparr>container := map_option (ituAlarmTable_insert_rows bo C mem (all_definitions T)) (container st)\<rparr>"

definition init_ituAlarmTable ::
  "build_oid_fn \<Rightarrow> (AlarmTableDef, 'c) container_ops \<Rightarrow> bool \<Rightarrow> bool \<Rightarrow> (AlarmTableDef \<Rightarrow> bool) \<Rightarrow>
   AlarmTableDefs \<Rightarrow> 'c table_state \<Rightarrow> 'c table_state" where
  "init_ituAlarmTable bo C info_ok handler_ok mem T st =
     (case initialize_table_ituAlarmTable C info_ok handler_ok st of
        (err, st') \<Rightarrow> if err = SNMP_ERR_NOERROR then ituAlarmTable_insert_defs bo C mem T st' else st')"

definition ituAlarmTable_get_value :: "AlarmTableDef \<Rightarrow> nat \<Rightarrow> get_result" where
  "ituAlarmTable_get_value d col =
     (if col = COLUMN_ITUALARMEVENTTYPE then GotValue (ASN_INTEGER IANAITUEVENTTYPE_OPERATIONALVIOLATION)
      else if col = COLUMN_ITUALARMPROBABLECAUSE then GotValue (ASN_INTEGER (alarm_cause d))
      else if col = COLUMN_ITUALARMADDITIONALTEXT then GotValue (ASN_OCTET_STR (details d))
      else if col = COLUMN_ITUALARMGENERICMODEL then
        patch_row_oid alarm_model_table_row_oid
          ALARMMODELTABLEROW_INDEX (ucast (alarm_index d)) ALARMMODELTABLEROW_STATE (ucast (state d))
      else GenErr)"

section \<open>Contracts\<close>

locale netsnmp_container =
  fixes C :: "('r, 'c) container_ops"
  assumes find_new [simp]: "c_find C k (c_new C) = None"
    and find_insert: "c_find C k' (c_insert C k r c) =
      (if k' = k \<and> c_find C k c = None then Some r else c_find C k' c)"
    and find_remove: "c_find C k' (c_remove C k c) = (if k' = k then None else c_find C k' c)"
begin

lemma find_insert_all:
  "c_find C k (c_insert_all C rs c) =
     (case c_find C k c of Some r \<Rightarrow> Some r | None \<Rightarrow> map_of rs k)"
proof (induction rs arbitrary: c)
  case Nil
  then show ?case by (simp split: option.splits)
next
  case (Cons p rs)
  then show ?case by (cases p) (auto simp: find_insert split: option.splits)
qed

lemma find_insert_all_distinct:
  assumes "(k, r) \<in> set rs" and "\<And>r'. (k, r') \<in> set rs \<Longrightarrow> r' = r"
  shows "c_find C k (c_insert_all C rs (c_new C)) = Some r"
proof -
  have "map_of rs k = Some r"
    using assms by (metis map_of_SomeD not_None_eq weak_map_of_SomeI)
  then show ?thesis by (simp add: find_insert_all)
qed

end

interpretation fun_container: netsnmp_container fun_container
  by unfold_locales (auto simp: fun_container_def split: option.splits)

text \<open>
  The contract of a read-only SNMP table: every column between the registered bounds is served,
  every other column is refused, and no column access runs past an array.
\<close>

locale snmp_table =
  fixes get_value :: "AlarmTableDef \<Rightarrow> nat \<Rightarrow> get_result"
    and reg :: table_reg
  assumes served: "min_column reg \<le> col \<Longrightarrow> col \<le> max_column reg \<Longrightarrow> \<exists>v. get_value d col = GotValue v"
    and refused: "col < min_column reg \<or> max_column reg < col \<Longrightarrow> get_value d col = GenErr"
begin

lemma in_bounds: "get_value d col \<noteq> OutOfBounds"
  using served refused by (metis get_result.distinct(3,5) linorder_not_less)

lemma served_iff: "(\<exists>v. get_value d col = GotValue v) \<longleftrightarrow> min_column reg \<le> col \<and> col \<le> max_column reg"
  using served refused by (metis get_result.distinct(1) linorder_not_less)

end

text \<open>The columns of an interval, one by one.\<close>

lemma column_cases: "lo \<le> col \<Longrightarrow> col \<le> hi \<Longrightarrow> col \<in> set [lo..<Suc hi]"
  by auto

lemmas column_simps = upt_rec_numeral upt_conv_Cons

lemma patch_row_oid_simp [table_simps]:
  "i < length xs \<Longrightarrow> j < length xs \<Longrightarrow>
    patch_row_oid xs i x j y = GotValue (ASN_OBJECT_ID (xs[i := x, j := y]))"
  by (simp add: patch_row_oid_def)

interpretation model_table: snmp_table alarmModelTable_get_value alarmModelTable_reg
proof unfold_locales
  fix col d
  assume "min_column alarmModelTable_reg \<le> col" and "col \<le> max_column alarmModelTable_reg"
  then have "col \<in> set [3..<11]" using column_cases by (fastforce simp: alarmModelTable_reg_def column_consts)
  then show "\<exists>v. alarmModelTable_get_value d col = GotValue v"
    by (auto simp: column_simps alarmModelTable_get_value_def table_simps column_consts oid_consts simp del: set_upt)
qed (auto simp: alarmModelTable_get_value_def alarmModelTable_reg_def column_consts)

interpretation itu_table: snmp_table ituAlarmTable_get_value ituAlarmTable_reg
proof unfold_locales
  fix col d
  assume "min_column ituAlarmTable_reg \<le> col" and "col \<le> max_column ituAlarmTable_reg"
  then have "col \<in> set [2..<6]" using column_cases by (fastforce simp: ituAlarmTable_reg_def column_consts)
  then show "\<exists>v. ituAlarmTable_get_value d col = GotValue v"
    by (auto simp: column_simps ituAlarmTable_get_value_def table_simps column_consts oid_consts simp del: set_upt)
qed (auto simp: ituAlarmTable_get_value_def ituAlarmTable_reg_def column_consts)

section \<open>The rows of the static tables\<close>

definition model_row_key :: "AlarmTableDef \<Rightarrow> oid list" where
  "model_row_key d = [0, ucast (alarm_index d), ucast (state d)]"

definition itu_row_key :: "AlarmTableDef \<Rightarrow> oid list" where
  "itu_row_key d = [0, ucast (alarm_index d), ucast (severity_value (severity d))]"

lemma model_create_row:
  "build_oid_spec bo \<Longrightarrow>
    alarmModelTable_create_row_context bo True [] (ucast (alarm_index d)) (ucast (state d)) =
      Some (model_row_key d)"
  by (simp add: alarmModelTable_create_row_context_def alarmModelTable_index_to_oid_def
      build_oid_spec_def encode_index_def model_row_key_def)

lemma uint_severity_value: "word_of_int (uint (severity_value s)) = (ucast (severity_value s) :: u64)"
  by (cases s) simp_all

lemma itu_create_row:
  "build_oid_spec bo \<Longrightarrow>
    ituAlarmTable_create_row_context bo True [] (ucast (alarm_index d)) (uint (severity_value (severity d))) =
      Some (itu_row_key d)"
  by (simp add: ituAlarmTable_create_row_context_def ituAlarmTable_index_to_oid_def
      build_oid_spec_def encode_index_def itu_row_key_def uint_severity_value)

lemma model_insert_rows:
  "build_oid_spec bo \<Longrightarrow>
    alarmModelTable_insert_rows bo C (\<lambda>_. True) ds c = c_insert_all C (map (\<lambda>d. (model_row_key d, d)) ds) c"
  by (induction ds arbitrary: c) (simp_all add: model_create_row)

lemma itu_insert_rows:
  "build_oid_spec bo \<Longrightarrow>
    ituAlarmTable_insert_rows bo C (\<lambda>_. True) ds c = c_insert_all C (map (\<lambda>d. (itu_row_key d, d)) ds) c"
  by (induction ds arbitrary: c) (simp_all add: itu_create_row)

lemma all_definitions_key:
  assumes "defs_ok T" and "d \<in> set (all_definitions T)"
  shows "lookup_def T (alarm_index d) (severity_value (severity d)) = Some d"
proof -
  from assms(2) obtain k where k: "(k, d) \<in> set (key_to_def T)"
    by (auto simp: all_definitions_def)
  with assms(1) have "k = def_key d" by (fastforce simp: defs_ok_def)
  with k have "(def_key d, d) \<in> set (key_to_def T)" by simp
  with assms(1) show ?thesis by (simp add: def_map.find_Some_iff def_key_def)
qed

lemma all_definitions_eqI:
  assumes "defs_ok T" and "d \<in> set (all_definitions T)" and "d' \<in> set (all_definitions T)"
    and "alarm_index d = alarm_index d'" and "severity d = severity d'"
  shows "d = d'"
proof -
  have "Some d = lookup_def T (alarm_index d) (severity_value (severity d))"
    by (rule all_definitions_key [OF assms(1,2), symmetric])
  also have "\<dots> = lookup_def T (alarm_index d') (severity_value (severity d'))"
    by (simp only: assms(4,5))
  also have "\<dots> = Some d'" by (rule all_definitions_key [OF assms(1,3)])
  finally show ?thesis by simp
qed

lemma lookup_all_definitions:
  assumes "defs_ok T" and "lookup_def T i s = Some d"
  shows "d \<in> set (all_definitions T)"
proof -
  from assms have "(Key i s, d) \<in> set (key_to_def T)" by (simp add: def_map.find_Some_iff)
  then show ?thesis by (force simp: all_definitions_def)
qed

text \<open>No definition of the table has the undefined severity, as the JSON validation ensures.\<close>

definition severities_defined :: "AlarmTableDefs \<Rightarrow> bool" where
  "severities_defined T \<longleftrightarrow> (\<forall>d \<in> set (all_definitions T). severity d \<noteq> UNDEFINED_SEVERITY)"

text \<open>
  The alarm model state is one of the six states of RFC 3877, \<open>clear(1)\<close> exactly for cleared
  alarms, and distinct for distinct severities, the undefined one excepted.
\<close>

lemma state_range: "1 \<le> state d \<and> state d \<le> 6 \<and> (state d = 1 \<longleftrightarrow> severity d = CLEARED)"
  by (cases "severity d") (simp_all add: state_cases)

lemma state_inj:
  assumes "severity a \<noteq> UNDEFINED_SEVERITY" and "severity b \<noteq> UNDEFINED_SEVERITY"
  shows "state a = state b \<longleftrightarrow> severity a = severity b"
  using assms by (cases "severity a"; cases "severity b") (simp_all add: state_cases)

lemma model_row_key_inj:
  assumes "defs_ok T" and "severities_defined T"
    and "d \<in> set (all_definitions T)" and "d' \<in> set (all_definitions T)"
    and "model_row_key d' = model_row_key d"
  shows "d' = d"
proof -
  have "alarm_index d' = alarm_index d" and "state d' = state d"
    using assms(5) by (simp_all add: model_row_key_def)
  moreover from assms(2-4) have "severity d \<noteq> UNDEFINED_SEVERITY" "severity d' \<noteq> UNDEFINED_SEVERITY"
    by (auto simp: severities_defined_def)
  ultimately show ?thesis
    using assms(1,3,4) by (intro all_definitions_eqI) (simp_all add: state_inj)
qed

lemma itu_row_key_inj:
  assumes "defs_ok T" and "d \<in> set (all_definitions T)" and "d' \<in> set (all_definitions T)"
    and "itu_row_key d' = itu_row_key d"
  shows "d' = d"
  using assms by (intro all_definitions_eqI) (simp_all add: itu_row_key_def)

lemma init_model_rows:
  assumes "build_oid_spec bo" and "my_handler st = None"
  shows "container (init_alarmModelTable bo C True True (\<lambda>_. True) T st) =
    Some (c_insert_all C (map (\<lambda>d. (model_row_key d, d)) (all_definitions T)) (c_new C))"
  using assms
  by (simp add: init_alarmModelTable_def initialize_table_alarmModelTable_def register_table_def
      alarmModelTable_insert_defs_def model_insert_rows)

lemma init_itu_rows:
  assumes "build_oid_spec bo" and "my_handler st = None"
  shows "container (init_ituAlarmTable bo C True True (\<lambda>_. True) T st) =
    Some (c_insert_all C (map (\<lambda>d. (itu_row_key d, d)) (all_definitions T)) (c_new C))"
  using assms
  by (simp add: init_ituAlarmTable_def initialize_table_ituAlarmTable_def register_table_def
      ituAlarmTable_insert_defs_def itu_insert_rows)

lemma model_row_found:
  assumes "netsnmp_container C" and "build_oid_spec bo" and "my_handler st = None"
    and "defs_ok T" and "severities_defined T" and "d \<in> set (all_definitions T)"
  shows "map_option (c_find C (model_row_key d))
    (container (init_alarmModelTable bo C True True (\<lambda>_. True) T st)) = Some (Some d)"
proof -
  let ?rows = "map (\<lambda>d. (model_row_key d, d)) (all_definitions T)"
  have "c_find C (model_row_key d) (c_insert_all C ?rows (c_new C)) = Some d"
  proof (rule netsnmp_container.find_insert_all_distinct [OF assms(1)])
    show "(model_row_key d, d) \<in> set ?rows" using assms(6) by simp
  qed (use model_row_key_inj [OF assms(4,5,6)] in auto)
  with init_model_rows [OF assms(2,3)] show ?thesis by simp
qed

lemma itu_row_found:
  assumes "netsnmp_container C" and "build_oid_spec bo" and "my_handler st = None"
    and "defs_ok T" and "d \<in> set (all_definitions T)"
  shows "map_option (c_find C (itu_row_key d))
    (container (init_ituAlarmTable bo C True True (\<lambda>_. True) T st)) = Some (Some d)"
proof -
  let ?rows = "map (\<lambda>d. (itu_row_key d, d)) (all_definitions T)"
  have "c_find C (itu_row_key d) (c_insert_all C ?rows (c_new C)) = Some d"
  proof (rule netsnmp_container.find_insert_all_distinct [OF assms(1)])
    show "(itu_row_key d, d) \<in> set ?rows" using assms(5) by simp
  qed (use itu_row_key_inj [OF assms(4,5)] in auto)
  with init_itu_rows [OF assms(2,3)] show ?thesis by simp
qed

lemma specific_pointer: "alarmModelTable_get_value d COLUMN_ALARMMODELSPECIFICPOINTER =
  GotValue (ASN_OBJECT_ID (ituAlarmTable_oid @ [1, 2] @ itu_row_key d))"
  by (simp add: alarmModelTable_get_value_def table_simps column_consts oid_consts itu_row_key_def)

lemma generic_model_pointer: "ituAlarmTable_get_value d COLUMN_ITUALARMGENERICMODEL =
  GotValue (ASN_OBJECT_ID (alarmModelTable_oid @ [1, 3] @ model_row_key d))"
  by (simp add: ituAlarmTable_get_value_def table_simps column_consts oid_consts model_row_key_def)

section \<open>Properties\<close>

lemma sample_severities_defined: "severities_defined sample_defs"
  by (simp add: severities_defined_def all_definitions_def sample_defs_def enter_alarms_def
      insert_def_def sample_simps def_key_def AlarmTableDefKey_less_def mk_AlarmTableDef_def
      alarm_index_def severity_def)

lemma sample_in_defs: "sample_def 1000 CRITICAL \<in> set (all_definitions sample_defs)"
  by (simp add: all_definitions_def sample_defs_def enter_alarms_def
      insert_def_def sample_simps def_key_def AlarmTableDefKey_less_def mk_AlarmTableDef_def
      alarm_index_def severity_def)

lemma build_oid_spec_encode: "build_oid_spec encode_index"
  by (simp add: build_oid_spec_def)

definition fresh_table :: "'c table_state" where
  "fresh_table = \<lparr>my_handler = None, container = None\<rparr>"

text \<open>
  C26. The two static tables point at each other.  The specific pointer of a definition's row in
  the alarm model table is the OID of the first column of its row in the ITU table, the generic
  model pointer of that row leads back, and both rows exist and hold the definition.
\<close>

theorem static_table_pointers:
  assumes "netsnmp_container C" and "build_oid_spec bo" and "my_handler st = None"
    and "defs_ok T" and "severities_defined T" and "d \<in> set (all_definitions T)"
  shows "\<exists>model_index itu_index.
    alarmModelTable_get_value d COLUMN_ALARMMODELSPECIFICPOINTER = GotValue (ASN_OBJECT_ID (ituAlarmTable_oid @ [1, 2] @ itu_index)) \<and>
    map_option (c_find C itu_index)
      (container (init_ituAlarmTable bo C True True (\<lambda>_. True) T st)) = Some (Some d) \<and>
    ituAlarmTable_get_value d COLUMN_ITUALARMGENERICMODEL = GotValue (ASN_OBJECT_ID (alarmModelTable_oid @ [1, 3] @ model_index)) \<and>
    map_option (c_find C model_index)
      (container (init_alarmModelTable bo C True True (\<lambda>_. True) T st)) = Some (Some d)"
  using model_row_found [OF assms] itu_row_found [OF assms(1-4,6)] specific_pointer [of d]
    generic_model_pointer [of d] by blast

theorem static_table_pointers_witness:
  "\<exists>model_index itu_index.
    alarmModelTable_get_value (sample_def 1000 CRITICAL) COLUMN_ALARMMODELSPECIFICPOINTER =
      GotValue (ASN_OBJECT_ID (ituAlarmTable_oid @ [1, 2] @ itu_index)) \<and>
    map_option (c_find fun_container itu_index)
      (container (init_ituAlarmTable encode_index fun_container True True (\<lambda>_. True) sample_defs fresh_table)) =
        Some (Some (sample_def 1000 CRITICAL)) \<and>
    ituAlarmTable_get_value (sample_def 1000 CRITICAL) COLUMN_ITUALARMGENERICMODEL =
      GotValue (ASN_OBJECT_ID (alarmModelTable_oid @ [1, 3] @ model_index)) \<and>
    map_option (c_find fun_container model_index)
      (container (init_alarmModelTable encode_index fun_container True True (\<lambda>_. True) sample_defs fresh_table)) =
        Some (Some (sample_def 1000 CRITICAL))"
  by (rule static_table_pointers [OF fun_container.netsnmp_container_axioms build_oid_spec_encode _
      sample_defs_ok sample_severities_defined sample_in_defs]) (simp add: fresh_table_def)

end
