(* ===== verification/Active_Table.thy ===== *)
theory Active_Table
  imports Snmp_Tables
begin

unbundle bit_operations_syntax

text \<open>
  The alarm active table (\<open>src/alarm_active_table.cpp\<close>): one row per raised alarm, allocated
  with \<open>malloc\<close>, kept in the net-snmp container under an index made of the time of issue and a
  counter, and found again through \<open>alarm_indexes_to_rows\<close>.  The row contexts live in an
  explicit store of addresses, so that a dangling pointer, a double free or a leaked row would be
  visible.  \<open>malloc\<close>, \<open>build_oid\<close>, the container and the broken-down local time are
  arguments.
\<close>

section \<open>The time of issue\<close>

text \<open>What \<open>localtime\<close> and \<open>tzset\<close> deliver: \<open>struct tm\<close> and \<open>timezone\<close>
  (seconds west of UTC).\<close>

record local_time =
  tm_year :: int
  tm_mon :: int
  tm_mday :: int
  tm_hour :: int
  tm_min :: int
  tm_sec :: int
  timezone :: int

record SNMPDateTime =
  dt_year :: u16
  dt_month :: u8
  dt_day :: u8
  dt_hour :: u8
  dt_minute :: u8
  dt_second :: u8
  dt_decisecond :: u8
  dt_direction :: u8
  dt_timegeozone :: u8
  dt_mintimezone :: u8

text \<open>\<open>htons\<close> on a little-endian host.\<close>

definition htons :: "u16 \<Rightarrow> u16" where
  "htons x = push_bit 8 x OR drop_bit 8 x"

definition alarm_time_issued :: "local_time \<Rightarrow> SNMPDateTime" where
  "alarm_time_issued lt =
     \<lparr>dt_year = htons (word_of_int (1900 + tm_year lt)),
      dt_month = word_of_int (1 + tm_mon lt),
      dt_day = word_of_int (tm_mday lt),
      dt_hour = word_of_int (tm_hour lt),
      dt_minute = word_of_int (tm_min lt),
      dt_second = word_of_int (tm_sec lt),
      dt_decisecond = 0,
      dt_direction = (if timezone lt > 0 then 43 else 45),
      dt_timegeozone = word_of_int (\<bar>timezone lt\<bar> div 3600),
      dt_mintimezone = word_of_int (\<bar>timezone lt\<bar> mod 3600 div 60)\<rparr>"

text \<open>The first eleven octets of the structure in memory (little-endian \<open>year\<close>).\<close>

definition datetime_octets :: "SNMPDateTime \<Rightarrow> u8 list" where
  "datetime_octets d =
     [ucast (dt_year d), ucast (drop_bit 8 (dt_year d)), dt_month d, dt_day d, dt_hour d, dt_minute d,
      dt_second d, dt_decisecond d, dt_direction d, dt_timegeozone d, dt_mintimezone d]"

definition octet_string :: "u8 list \<Rightarrow> string" where
  "octet_string bs = map (\<lambda>b. char_of (unat b)) bs"

section \<open>State and operations\<close>

record active_context =
  ac_index :: "oid list"
  ac_def :: AlarmTableDef

type_synonym row_store = "nat \<rightharpoonup> active_context"

text \<open>
  The file-scope variables; \<open>alarm_indexes_to_rows\<close> maps an index to the address of its row
  (\<^const>\<open>None\<close> is the null pointer that \<open>operator[]\<close> also yields for a new key).
\<close>

record 'c active_table = "'c table_state" +
  alarm_indexes_to_rows :: "u64 \<Rightarrow> nat option"
  alarm_counter :: u64
  local_ip :: string
  row_store :: row_store

record 'c active_env =
  ae_container :: "(nat, 'c) container_ops"
  ae_build_oid :: build_oid_fn
  ae_malloc :: "row_store \<Rightarrow> nat option"

definition UINT_MAX :: u64 where
  "UINT_MAX = 4294967295"

text \<open>
  The columns of \<open>include/alarm_active_table.hpp\<close>; the three first are the index and are not
  accessible.
\<close>

definition COLUMN_ALARMLISTNAME :: nat where [column_consts]: "COLUMN_ALARMLISTNAME = 1"
definition COLUMN_ALARMACTIVEDATEANDTIME :: nat where [column_consts]: "COLUMN_ALARMACTIVEDATEANDTIME = 2"
definition COLUMN_ALARMACTIVEINDEX :: nat where [column_consts]: "COLUMN_ALARMACTIVEINDEX = 3"
definition COLUMN_ALARMACTIVEENGINEID :: nat where [column_consts]: "COLUMN_ALARMACTIVEENGINEID = 4"
definition COLUMN_ALARMACTIVEENGINEADDRESSTYPE :: nat where [column_consts]: "COLUMN_ALARMACTIVEENGINEADDRESSTYPE = 5"
definition COLUMN_ALARMACTIVEENGINEADDRESS :: nat where [column_consts]: "COLUMN_ALARMACTIVEENGINEADDRESS = 6"
definition COLUMN_ALARMACTIVECONTEXTNAME :: nat where [column_consts]: "COLUMN_ALARMACTIVECONTEXTNAME = 7"
definition COLUMN_ALARMACTIVEVARIABLES :: nat where [column_consts]: "COLUMN_ALARMACTIVEVARIABLES = 8"
definition COLUMN_ALARMACTIVENOTIFICATIONID :: nat where [column_consts]: "COLUMN_ALARMACTIVENOTIFICATIONID = 9"
definition COLUMN_ALARMACTIVERESOURCEID :: nat where [column_consts]: "COLUMN_ALARMACTIVERESOURCEID = 10"
definition COLUMN_ALARMACTIVEDESCRIPTION :: nat where [column_consts]: "COLUMN_ALARMACTIVEDESCRIPTION = 11"
definition COLUMN_ALARMACTIVELOGPOINTER :: nat where [column_consts]: "COLUMN_ALARMACTIVELOGPOINTER = 12"
definition COLUMN_ALARMACTIVEMODELPOINTER :: nat where [column_consts]: "COLUMN_ALARMACTIVEMODELPOINTER = 13"
definition COLUMN_ALARMACTIVESPECIFICPOINTER :: nat where [column_consts]: "COLUMN_ALARMACTIVESPECIFICPOINTER = 14"
definition alarmActiveTable_COL_MIN :: nat where [column_consts]: "alarmActiveTable_COL_MIN = 4"
definition alarmActiveTable_COL_MAX :: nat where [column_consts]: "alarmActiveTable_COL_MAX = 14"

definition alarmActiveTable_reg :: table_reg where
  "alarmActiveTable_reg =
     \<lparr>reg_name = ''alarmActiveTable'', reg_oid = alarmActiveTable_oid,
      reg_indexes = [T_OCTET_STR, T_OCTET_STR, T_UNSIGNED], min_column = alarmActiveTable_COL_MIN,
      max_column = alarmActiveTable_COL_MAX\<rparr>"

definition init_alarmActiveTable ::
  "'c active_env \<Rightarrow> bool \<Rightarrow> bool \<Rightarrow> string \<Rightarrow> 'c active_table \<Rightarrow> snmp_err \<times> 'c active_table" where
  "init_alarmActiveTable E info_ok handler_ok ip st =
     register_table (ae_container E) alarmActiveTable_reg info_ok handler_ok (st\<lparr>local_ip := ip\<rparr>)"

definition alarmActiveTable_index_to_oid ::
  "build_oid_fn \<Rightarrow> string \<Rightarrow> SNMPDateTime \<Rightarrow> u64 \<Rightarrow> oid list option" where
  "alarmActiveTable_index_to_oid bo name datetime counter =
     bo [ASN_OCTET_STR name, ASN_OCTET_STR (octet_string (datetime_octets datetime)),
         ASN_UNSIGNED (uint counter)]"

text \<open>
  A failed allocation and a failed index both leave the table without the row; in the second case
  the counter has moved and the context has been freed again.
\<close>

definition alarmActiveTable_create_row ::
  "'c active_env \<Rightarrow> local_time \<Rightarrow> AlarmTableDef \<Rightarrow> 'c active_table \<Rightarrow> 'c active_table" where
  "alarmActiveTable_create_row E lt d st =
     (case ae_malloc E (row_store st) of
        None \<Rightarrow> st
      | Some a \<Rightarrow>
          (let counter = alarm_counter st + 1;
               st1 = st\<lparr>alarm_counter := counter\<rparr>
           in case alarmActiveTable_index_to_oid (ae_build_oid E) [] (alarm_time_issued lt) counter of
                None \<Rightarrow> st1
              | Some k \<Rightarrow>
                  (let st2 = st1\<lparr>container := map_option (c_insert (ae_container E) k a) (container st1),
                                 alarm_indexes_to_rows :=
                                   (alarm_indexes_to_rows st1)(ucast (alarm_index d) := Some a),
                                 row_store := (row_store st1)(a \<mapsto> \<lparr>ac_index = k, ac_def = d\<rparr>)\<rparr>
                   in if alarm_counter st2 = UINT_MAX then st2\<lparr>alarm_counter := 0\<rparr> else st2)))"

text \<open>\<^const>\<open>None\<close> is the use of a null or freed row.\<close>

definition alarmActiveTable_delete_row ::
  "'c active_env \<Rightarrow> AlarmTableDef \<Rightarrow> 'c active_table \<Rightarrow> 'c active_table option" where
  "alarmActiveTable_delete_row E d st =
     (case alarm_indexes_to_rows st (ucast (alarm_index d)) of
        None \<Rightarrow> None
      | Some a \<Rightarrow>
          (case row_store st a of
             None \<Rightarrow> None
           | Some ctx \<Rightarrow>
               Some (st\<lparr>container := map_option (c_remove (ae_container E) (ac_index ctx)) (container st),
                        row_store := (row_store st)(a := None),
                        alarm_indexes_to_rows :=
                          (alarm_indexes_to_rows st)(ucast (alarm_index d) := None)\<rparr>)))"

definition alarmActiveTable_trap_handler ::
  "'c active_env \<Rightarrow> local_time \<Rightarrow> AlarmTableDef \<Rightarrow> 'c active_table \<Rightarrow> 'c active_table option" where
  "alarmActiveTable_trap_handler E lt d st =
     (if my_handler st = None then Some st
      else case alarm_indexes_to_rows st (ucast (alarm_index d)) of
             None \<Rightarrow>
               if severity d \<noteq> CLEARED then Some (alarmActiveTable_create_row E lt d st) else Some st
           | Some a \<Rightarrow>
               if severity d \<noteq> CLEARED then
                 (case row_store st a of
                    None \<Rightarrow> None
                  | Some ctx \<Rightarrow>
                      if severity d \<noteq> severity (ac_def ctx)
                      then map_option (alarmActiveTable_create_row E lt d)
                             (alarmActiveTable_delete_row E d st)
                      else Some st)
               else alarmActiveTable_delete_row E d st)"

text \<open>The columns; the address type is 2 when the local IP address contains a colon.\<close>

definition alarmActiveTable_get_value :: "string \<Rightarrow> AlarmTableDef \<Rightarrow> nat \<Rightarrow> get_result" where
  "alarmActiveTable_get_value ip d col =
     (if col = COLUMN_ALARMACTIVEENGINEID then GotValue (ASN_OCTET_STR [])
      else if col = COLUMN_ALARMACTIVEENGINEADDRESSTYPE then GotValue (ASN_INTEGER (if CHR '':'' \<in> set ip then 2 else 1))
      else if col = COLUMN_ALARMACTIVEENGINEADDRESS then GotValue (ASN_OCTET_STR ip)
      else if col = COLUMN_ALARMACTIVECONTEXTNAME then GotValue (ASN_OCTET_STR [])
      else if col = COLUMN_ALARMACTIVEVARIABLES then GotValue (ASN_UNSIGNED 0)
      else if col = COLUMN_ALARMACTIVENOTIFICATIONID then GotValue (ASN_OBJECT_ID alarm_active_state_oid)
      else if col = COLUMN_ALARMACTIVERESOURCEID then GotValue (ASN_OBJECT_ID zero_dot_zero_oid)
      else if col = COLUMN_ALARMACTIVEDESCRIPTION then GotValue (ASN_OCTET_STR (description d))
      else if col = COLUMN_ALARMACTIVELOGPOINTER then GotValue (ASN_OBJECT_ID zero_dot_zero_oid)
      else if col = COLUMN_ALARMACTIVEMODELPOINTER then
        GotValue (ASN_OBJECT_ID (alarmModelTable_oid @ entry_column_oid @
          [0, ucast (alarm_index d), ucast (severity_value (severity d))]))
      else if col = COLUMN_ALARMACTIVESPECIFICPOINTER then GotValue (ASN_OBJECT_ID zero_dot_zero_oid)
      else GenErr)"

section \<open>Invariants and abstraction\<close>

text \<open>\<open>malloc\<close> never hands out an address in use.\<close>

definition malloc_fresh :: "(row_store \<Rightarrow> nat option) \<Rightarrow> bool" where
  "malloc_fresh m \<longleftrightarrow> (\<forall>s a. m s = Some a \<longrightarrow> s a = None)"

text \<open>\<open>malloc\<close> succeeds while fewer than \<open>n\<close> rows are live.\<close>

definition malloc_serves :: "nat \<Rightarrow> (row_store \<Rightarrow> nat option) \<Rightarrow> bool" where
  "malloc_serves n m \<longleftrightarrow> (\<forall>s. finite (dom s) \<and> card (dom s) < n \<longrightarrow> m s \<noteq> None)"

text \<open>An allocator with \<open>n\<close> addresses.\<close>

definition first_free :: "nat \<Rightarrow> row_store \<Rightarrow> nat option" where
  "first_free n s = find (\<lambda>a. s a = None) [0..<n]"

text \<open>
  Pointers and rows agree: every pointer leads to a live row of its index that is not cleared, and
  every live row is reachable through its index.
\<close>

definition rows_ok :: "'c active_table \<Rightarrow> bool" where
  "rows_ok st \<longleftrightarrow>
     (\<forall>i a. alarm_indexes_to_rows st i = Some a \<longrightarrow>
        (\<exists>ctx. row_store st a = Some ctx \<and> ucast (alarm_index (ac_def ctx)) = i \<and>
               severity (ac_def ctx) \<noteq> CLEARED)) \<and>
     (\<forall>a ctx. row_store st a = Some ctx \<longrightarrow>
        alarm_indexes_to_rows st (ucast (alarm_index (ac_def ctx))) = Some a)"

text \<open>
  The container holds exactly the live rows under their own index, whose last subidentifier is a
  counter value between 1 and the current one.
\<close>

definition container_ok :: "(nat, 'c) container_ops \<Rightarrow> 'c active_table \<Rightarrow> bool" where
  "container_ok C st \<longleftrightarrow>
     (\<exists>c. container st = Some c \<and>
        (\<forall>k a. c_find C k c = Some a \<longleftrightarrow> (\<exists>ctx. row_store st a = Some ctx \<and> ac_index ctx = k))) \<and>
     (\<forall>a ctx. row_store st a = Some ctx \<longrightarrow>
        ac_index ctx \<noteq> [] \<and> 1 \<le> last (ac_index ctx) \<and> last (ac_index ctx) \<le> alarm_counter st) \<and>
     alarm_counter st < UINT_MAX"

text \<open>The contract of the table: the severity at which each alarm is raised.\<close>

definition active_severity :: "'c active_table \<Rightarrow> u32 \<Rightarrow> Severity option" where
  "active_severity st i =
     (case alarm_indexes_to_rows st (ucast i) of
        None \<Rightarrow> None
      | Some a \<Rightarrow> map_option (\<lambda>ctx. severity (ac_def ctx)) (row_store st a))"

definition raise_or_clear :: "AlarmTableDef \<Rightarrow> (u32 \<Rightarrow> Severity option) \<Rightarrow> u32 \<Rightarrow> Severity option" where
  "raise_or_clear d m =
     m(alarm_index d := (if severity d = CLEARED then None else Some (severity d)))"

definition fresh_active :: "'c active_table" where
  "fresh_active =
     \<lparr>my_handler = None, container = None, alarm_indexes_to_rows = (\<lambda>_. None), alarm_counter = 0,
      local_ip = [], row_store = Map.empty\<rparr>"

section \<open>Memory safety\<close>

text \<open>The three outcomes of \<open>create_row\<close>, as far as pointers and rows are concerned.\<close>

lemma create_row_cases:
  obtains (failed) "alarm_indexes_to_rows (alarmActiveTable_create_row E lt d st) = alarm_indexes_to_rows st"
      "row_store (alarmActiveTable_create_row E lt d st) = row_store st"
      "ae_malloc E (row_store st) = None \<or>
       alarmActiveTable_index_to_oid (ae_build_oid E) [] (alarm_time_issued lt) (alarm_counter st + 1) = None"
  | (created) a k where "ae_malloc E (row_store st) = Some a"
      "alarmActiveTable_index_to_oid (ae_build_oid E) [] (alarm_time_issued lt) (alarm_counter st + 1) = Some k"
      "alarm_indexes_to_rows (alarmActiveTable_create_row E lt d st) =
        (alarm_indexes_to_rows st)(ucast (alarm_index d) := Some a)"
      "row_store (alarmActiveTable_create_row E lt d st) =
        (row_store st)(a \<mapsto> \<lparr>ac_index = k, ac_def = d\<rparr>)"
      "container (alarmActiveTable_create_row E lt d st) =
        map_option (c_insert (ae_container E) k a) (container st)"
      "alarm_counter (alarmActiveTable_create_row E lt d st) =
        (if alarm_counter st + 1 = UINT_MAX then 0 else alarm_counter st + 1)"
proof (cases "ae_malloc E (row_store st)")
  case None
  with failed show ?thesis by (simp add: alarmActiveTable_create_row_def)
next
  case (Some a)
  show ?thesis
  proof (cases "alarmActiveTable_index_to_oid (ae_build_oid E) [] (alarm_time_issued lt) (alarm_counter st + 1)")
    case None
    with Some failed show ?thesis by (simp add: alarmActiveTable_create_row_def Let_def)
  next
    case (Some k)
    with \<open>ae_malloc E (row_store st) = Some a\<close> created [of a k] show ?thesis
      by (simp add: alarmActiveTable_create_row_def Let_def)
  qed
qed

lemma my_handler_create_row [simp]:
  "my_handler (alarmActiveTable_create_row E lt d st) = my_handler st"
  by (simp add: alarmActiveTable_create_row_def Let_def split: option.split)

lemma delete_row_Some:
  assumes "rows_ok st" and "alarm_indexes_to_rows st (ucast (alarm_index d)) = Some a"
  obtains ctx where "row_store st a = Some ctx" and "alarm_index (ac_def ctx) = alarm_index d"
    and "alarmActiveTable_delete_row E d st =
      Some (st\<lparr>container := map_option (c_remove (ae_container E) (ac_index ctx)) (container st),
               row_store := (row_store st)(a := None),
               alarm_indexes_to_rows := (alarm_indexes_to_rows st)(ucast (alarm_index d) := None)\<rparr>)"
proof -
  from assms obtain ctx where ctx: "row_store st a = Some ctx"
    and "(ucast (alarm_index (ac_def ctx)) :: u64) = ucast (alarm_index d)"
    by (fastforce simp: rows_ok_def)
  then have "alarm_index (ac_def ctx) = alarm_index d" by simp
  with ctx assms(2) that show ?thesis by (simp add: alarmActiveTable_delete_row_def)
qed

lemma rows_ok_index:
  assumes "rows_ok st" and "alarm_indexes_to_rows st i = Some a" and "row_store st a = Some ctx"
  shows "i = ucast (alarm_index (ac_def ctx))"
  using assms by (fastforce simp: rows_ok_def)

lemma rows_ok_address:
  assumes "rows_ok st" and "row_store st a = Some ctx"
  shows "alarm_indexes_to_rows st (ucast (alarm_index (ac_def ctx))) = Some a"
  using assms by (fastforce simp: rows_ok_def)

lemma rows_ok_create_row:
  assumes "rows_ok st" and "malloc_fresh (ae_malloc E)" and "severity d \<noteq> CLEARED"
    and "alarm_indexes_to_rows st (ucast (alarm_index d)) = None"
  shows "rows_ok (alarmActiveTable_create_row E lt d st)"
proof (cases rule: create_row_cases [of E lt d st])
  case failed
  with assms(1) show ?thesis by (simp add: rows_ok_def)
next
  case (created a k)
  then have "row_store st a = None" using assms(2) by (simp add: malloc_fresh_def)
  with assms(1,3,4) show ?thesis
    unfolding rows_ok_def created(3,4) by (auto split: if_splits) (metis option.distinct(1))+
qed

lemma rows_ok_delete_row:
  assumes "rows_ok st" and "alarm_indexes_to_rows st (ucast (alarm_index d)) = Some a"
  obtains st' where "alarmActiveTable_delete_row E d st = Some st'" and "rows_ok st'"
    and "alarm_indexes_to_rows st' (ucast (alarm_index d)) = None" and "my_handler st' = my_handler st"
proof (rule delete_row_Some [OF assms, of E])
  fix ctx
  assume ctx: "row_store st a = Some ctx" "alarm_index (ac_def ctx) = alarm_index d"
    and del: "alarmActiveTable_delete_row E d st =
      Some (st\<lparr>container := map_option (c_remove (ae_container E) (ac_index ctx)) (container st),
               row_store := (row_store st)(a := None),
               alarm_indexes_to_rows := (alarm_indexes_to_rows st)(ucast (alarm_index d) := None)\<rparr>)"
  have other: "a' \<noteq> a" if "alarm_indexes_to_rows st i = Some a'" "i \<noteq> ucast (alarm_index d)" for i a'
    using that ctx rows_ok_index [OF assms(1), of i a ctx] by auto
  have kept: "alarm_index (ac_def ctx') \<noteq> alarm_index d" if "row_store st a' = Some ctx'" "a' \<noteq> a" for a' ctx'
    using that ctx assms(2) rows_ok_address [OF assms(1) that(1)] by auto
  show thesis
    by (rule that [OF del]) (use assms(1) other kept in \<open>fastforce simp: rows_ok_def\<close>, simp_all)
qed

lemma trap_handler_rows_ok:
  assumes "rows_ok st" and "malloc_fresh (ae_malloc E)"
  shows "\<exists>st'. alarmActiveTable_trap_handler E lt d st = Some st' \<and> rows_ok st' \<and>
    my_handler st' = my_handler st"
proof (cases "my_handler st = None")
  case True
  with assms show ?thesis by (simp add: alarmActiveTable_trap_handler_def)
next
  case registered: False
  show ?thesis
  proof (cases "alarm_indexes_to_rows st (ucast (alarm_index d))")
    case None
    with registered assms show ?thesis
      by (auto simp: alarmActiveTable_trap_handler_def rows_ok_create_row)
  next
    case (Some a)
    from assms(1) Some obtain ctx where ctx: "row_store st a = Some ctx"
      by (fastforce simp: rows_ok_def)
    from rows_ok_delete_row [OF assms(1) Some, of E] obtain st' where del:
      "alarmActiveTable_delete_row E d st = Some st'" "rows_ok st'"
      "alarm_indexes_to_rows st' (ucast (alarm_index d)) = None" "my_handler st' = my_handler st" .
    with registered Some ctx assms show ?thesis
      by (auto simp: alarmActiveTable_trap_handler_def rows_ok_create_row)
  qed
qed

section \<open>The container holds the live rows\<close>

definition active_row_key :: "local_time \<Rightarrow> u64 \<Rightarrow> oid list" where
  "active_row_key lt n =
     [0, 11] @ map (\<lambda>b. of_nat (unat b)) (datetime_octets (alarm_time_issued lt)) @ [n]"

lemma length_datetime_octets [simp]: "length (datetime_octets d) = 11"
  by (simp add: datetime_octets_def)

lemma octet_string_codes:
  "map (\<lambda>c. of_nat (of_char c)) (octet_string bs) = map (\<lambda>b. of_nat (unat b)) bs"
proof -
  have "unat (b :: u8) mod 256 = unat b" for b
    using unsigned_less [of b, where ?'a = nat] by simp
  then show ?thesis by (simp add: octet_string_def)
qed

lemma index_to_oid_key:
  assumes "build_oid_spec bo"
  shows "alarmActiveTable_index_to_oid bo [] (alarm_time_issued lt) n = Some (active_row_key lt n)"
proof -
  have "index_subids (ASN_OCTET_STR (octet_string (datetime_octets (alarm_time_issued lt)))) =
    11 # map (\<lambda>b. of_nat (unat b)) (datetime_octets (alarm_time_issued lt))"
    using octet_string_codes by (simp add: octet_string_def)
  with assms show ?thesis
    by (simp add: alarmActiveTable_index_to_oid_def build_oid_spec_def encode_index_def
        active_row_key_def del: index_subids.simps(3))
      (simp add: index_subids.simps(3))
qed

text \<open>Inserting a row under an index that is not in use.\<close>

lemma rows_served_insert:
  assumes C: "netsnmp_container C"
    and served: "\<And>k a. c_find C k c = Some a \<longleftrightarrow> (\<exists>ctx. rows a = Some ctx \<and> ac_index ctx = k)"
    and a: "rows a = None" and unused: "\<And>b ctx. rows b = Some ctx \<Longrightarrow> ac_index ctx \<noteq> k"
  shows "c_find C k' (c_insert C k a c) = Some b \<longleftrightarrow>
    (\<exists>ctx. (rows(a \<mapsto> \<lparr>ac_index = k, ac_def = d\<rparr>)) b = Some ctx \<and> ac_index ctx = k')"
proof -
  have new: "c_find C k c = None" using served [of k] unused by (cases "c_find C k c") auto
  then have "c_find C k' (c_insert C k a c) = (if k' = k then Some a else c_find C k' c)"
    by (simp add: netsnmp_container.find_insert [OF C])
  then show ?thesis using new a served [of k' b] served [of k' a] by (cases "b = a") auto
qed

lemma container_ok_create_row:
  assumes C: "netsnmp_container (ae_container E)" and bo: "build_oid_spec (ae_build_oid E)"
    and fresh: "malloc_fresh (ae_malloc E)" and ok: "container_ok (ae_container E) st"
    and bound: "alarm_counter st + 1 < UINT_MAX"
  shows "container_ok (ae_container E) (alarmActiveTable_create_row E lt d st)"
proof (cases rule: create_row_cases [of E lt d st])
  case failed
  then have "ae_malloc E (row_store st) = None" using index_to_oid_key [OF bo] by simp
  with ok show ?thesis by (simp add: alarmActiveTable_create_row_def)
next
  case (created a k)
  let ?n = "alarm_counter st + 1"
  have up: "alarm_counter st < ?n" and pos: "1 \<le> ?n"
    using bound ok by (auto simp: container_ok_def UINT_MAX_def word_less_nat_alt word_le_nat_alt unat_word_ariths)
  have k: "k \<noteq> []" "last k = ?n"
    using created(2) index_to_oid_key [OF bo, of lt ?n] by (auto simp: active_row_key_def)
  have a: "row_store st a = None" using created(1) fresh by (simp add: malloc_fresh_def)
  from ok obtain c where c: "container st = Some c"
    and served: "\<And>k a. c_find (ae_container E) k c = Some a \<longleftrightarrow>
      (\<exists>ctx. row_store st a = Some ctx \<and> ac_index ctx = k)"
    by (auto simp: container_ok_def)
  have unused: "ac_index ctx \<noteq> k" if "row_store st b = Some ctx" for b ctx
    using ok that k up by (fastforce simp: container_ok_def)
  have mono: "1 \<le> x \<Longrightarrow> x \<le> alarm_counter st \<Longrightarrow> x \<le> ?n" for x using up by simp
  show ?thesis
    unfolding container_ok_def created(4,5,6)
  proof (intro conjI allI impI exI)
    show "map_option (c_insert (ae_container E) k a) (container st) = Some (c_insert (ae_container E) k a c)"
      by (simp add: c)
  next
    fix k' b
    show "c_find (ae_container E) k' (c_insert (ae_container E) k a c) = Some b \<longleftrightarrow>
      (\<exists>ctx. ((row_store st)(a \<mapsto> \<lparr>ac_index = k, ac_def = d\<rparr>)) b = Some ctx \<and> ac_index ctx = k')"
      by (rule rows_served_insert [OF C served a unused])
  qed (use ok bound k pos mono in \<open>auto simp: container_ok_def split: if_splits\<close>)
qed

lemma container_ok_delete_row:
  assumes C: "netsnmp_container (ae_container E)" and ok: "container_ok (ae_container E) st"
    and del: "alarmActiveTable_delete_row E d st = Some st'"
  shows "container_ok (ae_container E) st' \<and> alarm_counter st' = alarm_counter st"
proof -
  from del obtain a ctx where a: "row_store st a = Some ctx"
    and st': "st' = st\<lparr>container := map_option (c_remove (ae_container E) (ac_index ctx)) (container st),
               row_store := (row_store st)(a := None),
               alarm_indexes_to_rows := (alarm_indexes_to_rows st)(ucast (alarm_index d) := None)\<rparr>"
    by (auto simp: alarmActiveTable_delete_row_def split: option.splits)
  from ok obtain c where c: "container st = Some c"
    and find: "\<And>k a. c_find (ae_container E) k c = Some a \<longleftrightarrow>
      (\<exists>ctx. row_store st a = Some ctx \<and> ac_index ctx = k)"
    by (auto simp: container_ok_def)
  have same: "b = a" if "row_store st b = Some ctx'" "ac_index ctx' = ac_index ctx" for b ctx'
    using that a find [of "ac_index ctx" a] find [of "ac_index ctx" b] by auto
  have "c_find (ae_container E) k (c_remove (ae_container E) (ac_index ctx) c) = Some b \<longleftrightarrow>
      (\<exists>ctx'. ((row_store st)(a := None)) b = Some ctx' \<and> ac_index ctx' = k)" for k b
  proof (cases "k = ac_index ctx")
    case True
    with same [of b] show ?thesis by (auto simp: netsnmp_container.find_remove [OF C])
  next
    case False
    with a find [of k b] show ?thesis by (auto simp: netsnmp_container.find_remove [OF C])
  qed
  with ok c st' show ?thesis by (auto simp: container_ok_def split: if_splits)
qed

lemma container_ok_trap_handler:
  assumes C: "netsnmp_container (ae_container E)" and bo: "build_oid_spec (ae_build_oid E)"
    and fresh: "malloc_fresh (ae_malloc E)" and ok: "container_ok (ae_container E) st"
    and bound: "alarm_counter st + 1 < UINT_MAX"
    and step: "alarmActiveTable_trap_handler E lt d st = Some st'"
  shows "container_ok (ae_container E) st'"
proof -
  have create: "container_ok (ae_container E) (alarmActiveTable_create_row E lt d u)"
    if "container_ok (ae_container E) u" "alarm_counter u + 1 < UINT_MAX" for u
    using container_ok_create_row [OF C bo fresh that] .
  show ?thesis
    using step ok bound create container_ok_delete_row [OF C ok]
    by (auto simp: alarmActiveTable_trap_handler_def split: if_splits option.splits)
qed

section \<open>Refinement of the contract\<close>

lemma rows_ok_finite: "finite (dom (row_store st)) \<Longrightarrow> alarmActiveTable_delete_row E d st = Some st' \<Longrightarrow>
  finite (dom (row_store st')) \<and> card (dom (row_store st')) \<le> card (dom (row_store st))"
  by (auto simp: alarmActiveTable_delete_row_def card_mono split: option.splits)

lemma active_severity_create_row:
  assumes "rows_ok st" and "malloc_fresh (ae_malloc E)" and "ae_malloc E (row_store st) \<noteq> None"
    and "build_oid_spec (ae_build_oid E)"
  shows "active_severity (alarmActiveTable_create_row E lt d st) =
    (active_severity st)(alarm_index d := Some (severity d))"
proof (cases rule: create_row_cases [of E lt d st])
  case failed
  with assms(3,4) index_to_oid_key show ?thesis by simp
next
  case (created a k)
  then have free: "row_store st a = None" using assms(2) by (simp add: malloc_fresh_def)
  have "alarm_indexes_to_rows st i \<noteq> Some a" for i
    using free assms(1) by (fastforce simp: rows_ok_def)
  then show ?thesis
    unfolding active_severity_def created(3,4) by (auto simp: fun_eq_iff split: option.splits)
qed

lemma active_severity_delete_row:
  assumes "rows_ok st" and "alarm_indexes_to_rows st (ucast (alarm_index d)) = Some a"
    and "alarmActiveTable_delete_row E d st = Some st'"
  shows "active_severity st' = (active_severity st)(alarm_index d := None)"
proof (rule delete_row_Some [OF assms(1,2), of E])
  fix ctx
  assume ctx: "row_store st a = Some ctx" "alarm_index (ac_def ctx) = alarm_index d"
    and del: "alarmActiveTable_delete_row E d st =
      Some (st\<lparr>container := map_option (c_remove (ae_container E) (ac_index ctx)) (container st),
               row_store := (row_store st)(a := None),
               alarm_indexes_to_rows := (alarm_indexes_to_rows st)(ucast (alarm_index d) := None)\<rparr>)"
  have "alarm_indexes_to_rows st (ucast i) = Some a \<Longrightarrow> i = alarm_index d" for i
    using assms(1) ctx by (fastforce simp: rows_ok_def)
  with del assms(3) show ?thesis
    by (auto simp: active_severity_def fun_eq_iff split: option.splits)
qed

lemma trap_handler_refines:
  assumes "rows_ok st" and "malloc_fresh (ae_malloc E)" and "malloc_serves n (ae_malloc E)"
    and "build_oid_spec (ae_build_oid E)" and "my_handler st \<noteq> None"
    and "finite (dom (row_store st))" and "card (dom (row_store st)) < n"
    and "alarmActiveTable_trap_handler E lt d st = Some st'"
  shows "active_severity st' = raise_or_clear d (active_severity st)"
proof (cases "alarm_indexes_to_rows st (ucast (alarm_index d))")
  case None
  then have absent: "active_severity st (alarm_index d) = None" by (simp add: active_severity_def)
  have "ae_malloc E (row_store st) \<noteq> None" using assms(3,6,7) by (simp add: malloc_serves_def)
  with None absent assms active_severity_create_row [OF assms(1,2) _ assms(4)] show ?thesis
    by (auto simp: alarmActiveTable_trap_handler_def raise_or_clear_def split: if_splits)
next
  case (Some a)
  from assms(1) Some obtain ctx where ctx: "row_store st a = Some ctx"
    by (fastforce simp: rows_ok_def)
  then have present: "active_severity st (alarm_index d) = Some (severity (ac_def ctx))"
    using Some by (simp add: active_severity_def)
  from rows_ok_delete_row [OF assms(1) Some, of E] obtain u where u:
    "alarmActiveTable_delete_row E d st = Some u" "rows_ok u" .
  have "ae_malloc E (row_store u) \<noteq> None"
    using rows_ok_finite [OF assms(6) u(1)] assms(3,7) by (simp add: malloc_serves_def)
  then have "active_severity (alarmActiveTable_create_row E lt d u) =
      (active_severity st)(alarm_index d := Some (severity d))"
    using active_severity_create_row [OF u(2) assms(2) _ assms(4), of lt d]
      active_severity_delete_row [OF assms(1) Some u(1)] by simp
  with Some ctx present u assms(5,8) active_severity_delete_row [OF assms(1) Some u(1)] show ?thesis
    by (auto simp: alarmActiveTable_trap_handler_def raise_or_clear_def fun_eq_iff split: if_splits)
qed

section \<open>Columns\<close>

lemma active_columns: "{4..14} = set [4::nat,5,6,7,8,9,10,11,12,13,14]"
  by (simp add: atLeastAtMost_upt upt_rec)

interpretation active_table: snmp_table "alarmActiveTable_get_value ip" alarmActiveTable_reg for ip
proof unfold_locales
  fix col d
  assume "min_column alarmActiveTable_reg \<le> col" and "col \<le> max_column alarmActiveTable_reg"
  then have "col \<in> {4..14}" by (simp add: alarmActiveTable_reg_def column_consts)
  then show "\<exists>v. alarmActiveTable_get_value ip d col = GotValue v"
    unfolding active_columns by (auto simp: alarmActiveTable_get_value_def column_consts)
qed (auto simp: alarmActiveTable_get_value_def alarmActiveTable_reg_def column_consts)

lemma active_model_pointer:
  "alarmActiveTable_get_value ip d COLUMN_ALARMACTIVEMODELPOINTER =
     GotValue (ASN_OBJECT_ID (alarmModelTable_oid @ [1, 3] @ itu_row_key d))"
  by (simp add: alarmActiveTable_get_value_def column_consts entry_column_oid_def itu_row_key_def)

section \<open>Properties\<close>

text \<open>A run of the trap handler over a sequence of notifications.\<close>

fun run_traps ::
  "'c active_env \<Rightarrow> (local_time \<times> AlarmTableDef) list \<Rightarrow> 'c active_table \<Rightarrow> 'c active_table option" where
  "run_traps E [] st = Some st"
| "run_traps E ((lt, d) # ts) st =
     (case alarmActiveTable_trap_handler E lt d st of None \<Rightarrow> None | Some st' \<Rightarrow> run_traps E ts st')"

lemma run_traps_rows_ok:
  "rows_ok st \<Longrightarrow> malloc_fresh (ae_malloc E) \<Longrightarrow> \<exists>st'. run_traps E ts st = Some st' \<and> rows_ok st'"
proof (induction ts arbitrary: st)
  case Nil
  then show ?case by simp
next
  case (Cons t ts)
  obtain lt d where t: "t = (lt, d)" by (cases t)
  from trap_handler_rows_ok [OF Cons.prems, of lt d] obtain st1
    where "alarmActiveTable_trap_handler E lt d st = Some st1" "rows_ok st1" by blast
  with Cons t show ?case by auto
qed

lemma rows_ok_fresh: "rows_ok fresh_active"
  by (simp add: rows_ok_def fresh_active_def)

lemma malloc_fresh_first_free: "malloc_fresh (first_free n)"
  by (auto simp: malloc_fresh_def first_free_def find_Some_iff)

lemma malloc_serves_first_free: "malloc_serves n (first_free n)"
proof -
  have "\<exists>a < n. s a = None" if "finite (dom s)" "card (dom s) < n" for s :: row_store
  proof (rule ccontr)
    assume "\<not> (\<exists>a < n. s a = None)"
    then have "{0..<n} \<subseteq> dom s" by auto
    with that(1) have "card {0..<n} \<le> card (dom s)" by (intro card_mono)
    with that(2) show False by simp
  qed
  then show ?thesis
    by (fastforce simp: malloc_serves_def first_free_def find_None_iff)
qed

definition sample_env :: "(oid list \<rightharpoonup> nat) active_env" where
  "sample_env =
     \<lparr>ae_container = fun_container, ae_build_oid = encode_index, ae_malloc = first_free 16\<rparr>"

text \<open>11 January 2016, 11:22:19, UTC: the row of the comment in \<open>src/ut/alarm_tables_testing.hpp\<close>.\<close>

definition sample_time :: local_time where
  "sample_time =
     \<lparr>tm_year = 116, tm_mon = 0, tm_mday = 11, tm_hour = 11, tm_min = 22, tm_sec = 19, timezone = 0\<rparr>"

definition sample_active :: "(oid list \<rightharpoonup> nat) active_table" where
  "sample_active = snd (init_alarmActiveTable sample_env True True ''10.0.0.1'' fresh_active)"

lemma sample_env_laws:
  "malloc_fresh (ae_malloc sample_env)" "malloc_serves 16 (ae_malloc sample_env)"
  "netsnmp_container (ae_container sample_env)" "build_oid_spec (ae_build_oid sample_env)"
  by (simp_all add: sample_env_def malloc_fresh_first_free malloc_serves_first_free
      fun_container.netsnmp_container_axioms build_oid_spec_encode)

lemma sample_active_rows_ok: "rows_ok sample_active"
  by (simp add: rows_ok_def sample_active_def init_alarmActiveTable_def register_table_def fresh_active_def)

text \<open>
  C11. Whatever sequence of alarm notifications reaches the active table, and whichever allocations
  and index constructions fail on the way, the handler never follows a null or freed row pointer,
  every pointer it keeps leads to a live, uncleared row of that alarm, and every live row is still
  reachable through its alarm index, so that nothing leaks.
\<close>

theorem active_table_memory_safe:
  assumes "malloc_fresh (ae_malloc E)"
  shows "\<exists>st. run_traps E ts (snd (init_alarmActiveTable E info_ok handler_ok ip fresh_active)) = Some st \<and>
    rows_ok st"
proof -
  have "rows_ok (snd (init_alarmActiveTable E info_ok handler_ok ip fresh_active))"
    by (simp add: init_alarmActiveTable_def register_table_def fresh_active_def rows_ok_def Let_def)
  then show ?thesis using assms by (rule run_traps_rows_ok)
qed

theorem active_table_memory_safe_witness:
  "\<exists>st. run_traps sample_env
    [(sample_time, sample_def 1000 CRITICAL), (sample_time, sample_def 1000 MINOR),
     (sample_time, sample_def 1000 CLEARED)]
    (snd (init_alarmActiveTable sample_env True True ''10.0.0.1'' fresh_active)) = Some st \<and> rows_ok st"
  by (rule active_table_memory_safe) (rule sample_env_laws)

text \<open>
  C8. The active table implements its contract: once it is registered, and while memory for a row
  is available, the handler completes on every notification, and makes the table show the alarm at
  exactly the notified severity, or removes it when the alarm is cleared, and leaves every other
  alarm as it was.
\<close>

theorem active_table_refines:
  assumes "rows_ok st" and "malloc_fresh (ae_malloc E)" and "malloc_serves n (ae_malloc E)"
    and "build_oid_spec (ae_build_oid E)" and "my_handler st \<noteq> None"
    and "finite (dom (row_store st))" and "card (dom (row_store st)) < n"
  shows "\<exists>st'. alarmActiveTable_trap_handler E lt d st = Some st' \<and>
    active_severity st' = raise_or_clear d (active_severity st)"
  using trap_handler_rows_ok [OF assms(1,2)] trap_handler_refines [OF assms] by blast

theorem active_table_refines_witness:
  "\<exists>st'. alarmActiveTable_trap_handler sample_env sample_time (sample_def 1000 CRITICAL) sample_active = Some st' \<and>
    active_severity st' 1000 = Some CRITICAL"
proof -
  have "my_handler sample_active \<noteq> None" "finite (dom (row_store sample_active))"
    "card (dom (row_store sample_active)) < 16"
    by (simp_all add: sample_active_def init_alarmActiveTable_def register_table_def fresh_active_def)
  from active_table_refines [OF sample_active_rows_ok sample_env_laws(1,2,4) this, of sample_time "sample_def 1000 CRITICAL"]
  show ?thesis
    by (auto simp: raise_or_clear_def sample_simps alarm_index_def severity_def mk_AlarmTableDef_def)
qed

text \<open>
  C37. The model pointer that the active table serves for an alarm is the row of that alarm in the
  alarm model table only for the severities whose value equals their model state (undefined excluded:
  cleared and indeterminate).  For every alarm that is critical, major, minor or a warning it names
  the row of another state.
\<close>

theorem active_model_pointer_correct_iff:
  "alarmActiveTable_get_value ip d COLUMN_ALARMACTIVEMODELPOINTER =
     GotValue (ASN_OBJECT_ID (alarmModelTable_oid @ [1, 3] @ [0, ucast (alarm_index d), ucast (state d)])) \<longleftrightarrow>
   severity d = CLEARED \<or> severity d = INDETERMINATE"
  by (cases "severity d") (simp_all add: active_model_pointer itu_row_key_def state_cases)

text \<open>The UTC offset in minutes that the direction, hour and minute octets denote (RFC 2579).\<close>

definition denoted_utc_offset :: "SNMPDateTime \<Rightarrow> int" where
  "denoted_utc_offset d =
     (if dt_direction d = 43 then 1 else - 1) *
     (60 * uint (dt_timegeozone d) + uint (dt_mintimezone d))"

lemma uint_word_of_int_u8: "0 \<le> i \<Longrightarrow> i < 256 \<Longrightarrow> uint (word_of_int i :: u8) = i"
  by (simp add: uint_word_of_int take_bit_int_eq_self)

lemma minutes_split: "0 \<le> z \<Longrightarrow> 60 * (z div 3600) + z mod 3600 div 60 = (z div 60 :: int)"
proof -
  have "z div 3600 = z div 60 div 60"
    using zdiv_zmult2_eq [of 60 z 60] by simp
  moreover have "z mod 3600 = 60 * (z div 60 mod 60) + z mod 60"
    using zmod_zmult2_eq [of 60 z 60] by simp
  then have "z mod 3600 div 60 = z div 60 mod 60" by simp
  ultimately show ?thesis by simp
qed

text \<open>
  C38. The time-zone octets of a row's index denote the negation of the UTC offset: \<open>timezone\<close>
  counts the seconds west of UTC, and the offset in minutes written into the index is that number,
  where RFC 2579 asks for the offset east.
\<close>

theorem utc_offset_is_negated:
  assumes "\<bar>timezone lt\<bar> < 256 * 3600" and "60 dvd timezone lt"
  shows "denoted_utc_offset (alarm_time_issued lt) = timezone lt div 60"
proof -
  let ?z = "\<bar>timezone lt\<bar>"
  have hours: "uint (word_of_int (?z div 3600) :: u8) = ?z div 3600"
    using assms(1) by (intro uint_word_of_int_u8) auto
  have "?z mod 3600 < 3600" "0 \<le> ?z mod 3600" by simp_all
  then have minutes: "uint (word_of_int (?z mod 3600 div 60) :: u8) = ?z mod 3600 div 60"
    by (intro uint_word_of_int_u8) auto
  have neg: "(- timezone lt) div 60 = - (timezone lt div 60)"
    using assms(2) by (simp add: dvd_neg_div)
  have "denoted_utc_offset (alarm_time_issued lt) = (if timezone lt > 0 then 1 else - 1) * (?z div 60)"
    by (simp add: denoted_utc_offset_def alarm_time_issued_def hours minutes minutes_split)
  also have "\<dots> = timezone lt div 60"
    by (cases "timezone lt > 0") (simp_all add: neg)
  finally show ?thesis .
qed

theorem utc_offset_is_negated_witness:
  "denoted_utc_offset (alarm_time_issued (sample_time\<lparr>timezone := 18000\<rparr>)) = 300"
  using utc_offset_is_negated [of "sample_time\<lparr>timezone := 18000\<rparr>"] by simp

end
