(* ===== verification/Trap_Sender.thy ===== *)
theory Trap_Sender
  imports Active_Table
begin

text \<open>
  The trap sender (\<open>include/alarm_trap_sender.hpp\<close>, \<open>src/alarm_trap_sender.cpp\<close>): which
  INFORMs are handed to net-snmp for an alarm, in the RFC 3877 and in the enterprise format, and
  what a delivery report leads to.  An INFORM is its list of varbinds together with the correlator
  that the delivery report brings back.
\<close>

section \<open>Definitions\<close>

datatype NotificationType = RFC3877 | ENTERPRISE

fun notification_less :: "NotificationType \<Rightarrow> NotificationType \<Rightarrow> bool" where
  "notification_less RFC3877 ENTERPRISE = True"
| "notification_less _ _ = False"

text \<open>\<open>std::set<NotificationType>\<close>: an ordered map to nothing.\<close>

type_synonym notification_set = "(NotificationType, unit) std_map"

definition notifications_insert :: "NotificationType \<Rightarrow> notification_set \<Rightarrow> notification_set" where
  "notifications_insert n s = map_emplace notification_less n () s"

type_synonym varbind = "oid list \<times> asn_value"

record inform =
  in_varbinds :: "varbind list"
  in_correlator :: AlarmTableDef

record AlarmTrapSender =
  ts_notifications :: notification_set
  ts_hostname :: string

definition MIB_VERSION :: string where
  "MIB_VERSION = ''201608081100''"

definition model_row_oid :: "oid list" where
  [oid_consts]: "model_row_oid = [1,3,6,1,2,1,118,1,1,2,1,3,0,1,2]"

definition snmp_trap_oid :: "oid list" where
  [oid_consts]: "snmp_trap_oid = [1,3,6,1,6,3,1,1,4,1,0]"

text \<open>The value of the model pointer varbind after its two last subidentifiers are overwritten.\<close>

definition model_pointer_value :: "AlarmTableDef \<Rightarrow> asn_value option" where
  "model_pointer_value d =
     (case patch_row_oid model_row_oid ALARMMODELTABLEROW_INDEX (ucast (alarm_index d))
             ALARMMODELTABLEROW_STATE (ucast (state d)) of
        GotValue v \<Rightarrow> Some v
      | _ \<Rightarrow> None)"

text \<open>The INFORM passed to \<open>send_v2trap\<close>; \<^const>\<open>None\<close> is an access past an array.\<close>

definition send_rfc3877_trap :: "AlarmTableDef \<Rightarrow> inform option" where
  "send_rfc3877_trap d =
     map_option (\<lambda>ptr.
       \<lparr>in_varbinds =
          [(snmp_trap_oid,
            ASN_OBJECT_ID (if severity d = CLEARED then [1,3,6,1,2,1,118,0,3] else [1,3,6,1,2,1,118,0,2])),
           ([1,3,6,1,2,1,118,1,2,2,1,13,0], ptr),
           ([1,3,6,1,2,1,118,1,2,2,1,10,0], ASN_OBJECT_ID [0,0])],
        in_correlator = d\<rparr>) (model_pointer_value d)"

definition severity_to_string :: "string list" where
  "severity_to_string =
     [''UNDEFINED_SEVERITY'', ''CLEARED'', ''INDETERMINATE'', ''CRITICAL'', ''MAJOR'', ''MINOR'', ''WARNING'']"

definition enterprise_oid :: "oid \<Rightarrow> oid list" where
  "enterprise_oid n = [1,3,6,1,4,1,19444,12,2,0,n]"

definition send_enterprise_trap :: "AlarmTrapSender \<Rightarrow> AlarmTableDef \<Rightarrow> inform option" where
  "send_enterprise_trap ts d =
     (case (model_pointer_value d, vec_at severity_to_string (unat (severity_value (severity d)))) of
        (Some ptr, Some sev) \<Rightarrow>
          Some \<lparr>in_varbinds =
            [(snmp_trap_oid, ASN_OBJECT_ID (enterprise_oid 1)),
             ([1,2,826,0,1,1578918,12,1,1], ASN_OCTET_STR MIB_VERSION),
             (enterprise_oid 2, ASN_OCTET_STR (atd_name d)),
             (enterprise_oid 3, ptr),
             (enterprise_oid 4, ASN_OBJECT_ID [0,0]),
             (enterprise_oid 5, ASN_OCTET_STR sev),
             (enterprise_oid 6, ASN_OCTET_STR (extended_description d)),
             (enterprise_oid 7, ASN_OCTET_STR (extended_details d)),
             (enterprise_oid 8, ASN_OCTET_STR (cause d)),
             (enterprise_oid 9, ASN_OCTET_STR (effect d)),
             (enterprise_oid 10, ASN_OCTET_STR (action d)),
             (enterprise_oid 12, ASN_OCTET_STR (ts_hostname ts))],
            in_correlator = d\<rparr>
      | _ \<Rightarrow> None)"

fun send_each :: "AlarmTrapSender \<Rightarrow> AlarmTableDef \<Rightarrow> NotificationType list \<Rightarrow> inform list option" where
  "send_each ts d [] = Some []"
| "send_each ts d (n # ns) =
     (case (case n of RFC3877 \<Rightarrow> send_rfc3877_trap d | ENTERPRISE \<Rightarrow> send_enterprise_trap ts d) of
        None \<Rightarrow> None
      | Some i \<Rightarrow> map_option (\<lambda>infs. i # infs) (send_each ts d ns))"

definition send_trap :: "AlarmTrapSender \<Rightarrow> AlarmTableDef \<Rightarrow> inform list option" where
  "send_trap ts d = send_each ts d (map fst (ts_notifications ts))"

text \<open>The operation codes of net-snmp's delivery report.\<close>

datatype callback_op =
    NETSNMP_CALLBACK_OP_RECEIVED_MESSAGE
  | NETSNMP_CALLBACK_OP_SEND_FAILED
  | NETSNMP_CALLBACK_OP_TIMED_OUT
  | CALLBACK_OP_OTHER int

section \<open>Lemmas\<close>

text \<open>The order of \<open>std::set<NotificationType>\<close>, that of the enumerators.\<close>

instantiation NotificationType :: linorder
begin

definition less_NotificationType :: "NotificationType \<Rightarrow> NotificationType \<Rightarrow> bool" where
  "less_NotificationType = notification_less"

definition less_eq_NotificationType :: "NotificationType \<Rightarrow> NotificationType \<Rightarrow> bool" where
  "less_eq_NotificationType a b \<longleftrightarrow> a = b \<or> notification_less a b"

instance
proof
  fix a b c :: NotificationType
  show "a < b \<longleftrightarrow> a \<le> b \<and> \<not> b \<le> a" "a \<le> b \<or> b \<le> a" "a \<le> b \<Longrightarrow> b \<le> a \<Longrightarrow> a = b"
    by (cases a; cases b; simp add: less_NotificationType_def less_eq_NotificationType_def)+
  show "a \<le> b \<Longrightarrow> b \<le> c \<Longrightarrow> a \<le> c"
    by (cases a; cases b; cases c) (simp_all add: less_eq_NotificationType_def)
qed (simp add: less_eq_NotificationType_def)

end

interpretation notification_set: map_compare notification_less
  by (rule linorder_compare [where 'a = NotificationType, unfolded less_NotificationType_def])

lemma model_pointer_value_row:
  "model_pointer_value d = Some (ASN_OBJECT_ID (alarmModelTable_oid @ [1, 3] @ model_row_key d))"
  by (simp add: model_pointer_value_def table_simps column_consts oid_consts model_row_key_def)

lemma severity_to_string_total:
  "\<exists>s. vec_at severity_to_string (unat (severity_value sev)) = Some s"
  by (cases sev) (simp_all add: severity_to_string_def)

lemma send_rfc3877_total: "\<exists>i. send_rfc3877_trap d = Some i \<and> in_correlator i = d"
  by (simp add: send_rfc3877_trap_def model_pointer_value_row)

lemma send_enterprise_total: "\<exists>i. send_enterprise_trap ts d = Some i \<and> in_correlator i = d"
  using severity_to_string_total [of "severity d"]
  by (auto simp: send_enterprise_trap_def model_pointer_value_row vec_at_def split: if_splits)

lemma send_each_total:
  "\<exists>infs. send_each ts d ns = Some infs \<and> length infs = length ns \<and> (\<forall>i \<in> set infs. in_correlator i = d)"
proof (induction ns)
  case Nil
  then show ?case by simp
next
  case (Cons n ns)
  obtain i where "(case n of RFC3877 \<Rightarrow> send_rfc3877_trap d | ENTERPRISE \<Rightarrow> send_enterprise_trap ts d) = Some i"
    and "in_correlator i = d"
    using send_rfc3877_total send_enterprise_total by (cases n) fastforce+
  with Cons show ?case by auto
qed

lemma send_trap_total:
  obtains infs where "send_trap ts d = Some infs" and "length infs = length (ts_notifications ts)"
    and "\<forall>i \<in> set infs. in_correlator i = d"
  using send_each_total [of ts d "map fst (ts_notifications ts)"] by (auto simp: send_trap_def)

section \<open>Properties\<close>

text \<open>
  An RFC 3877 INFORM carries the notification that the alarm model table serves for the alarm
  (\<open>alarmClearState\<close> for a cleared alarm, \<open>alarmActiveState\<close> otherwise), and its model
  pointer is the OID of the alarm's own row in the alarm model table; its resource is
  \<open>zeroDotZero\<close>.
\<close>

lemma rfc3877_inform:
  "\<exists>i notification.
     send_rfc3877_trap d = Some i \<and> in_correlator i = d \<and>
     alarmModelTable_get_value d COLUMN_ALARMMODELNOTIFICATIONID = GotValue notification \<and>
     notification = ASN_OBJECT_ID (if severity d = CLEARED then alarm_clear_state_oid else alarm_active_state_oid) \<and>
     in_varbinds i =
       [(snmp_trap_oid, notification),
        (alarmActiveTable_oid @ [1, 13, 0],
         ASN_OBJECT_ID (alarmModelTable_oid @ [1, 3] @ [0, ucast (alarm_index d), ucast (state d)])),
        (alarmActiveTable_oid @ [1, 10, 0], ASN_OBJECT_ID zero_dot_zero_oid)]"
  by (simp add: send_rfc3877_trap_def model_pointer_value_row alarmModelTable_get_value_def column_consts oid_consts
      model_row_key_def)

text \<open>
  C31. For every alarm the trap sender hands net-snmp exactly one INFORM per configured notification
  type, in the order of the types, and every one of them reports its delivery for that alarm.  No
  severity makes it read past the table of severity names.
\<close>

theorem send_trap_informs:
  "\<exists>infs. send_trap ts d = Some infs \<and> length infs = length (ts_notifications ts) \<and>
     (\<forall>n < length infs. map fst (ts_notifications ts) ! n = RFC3877 \<longrightarrow> send_rfc3877_trap d = Some (infs ! n)) \<and>
     (\<forall>n < length infs. map fst (ts_notifications ts) ! n = ENTERPRISE \<longrightarrow> send_enterprise_trap ts d = Some (infs ! n)) \<and>
     (\<forall>i \<in> set infs. in_correlator i = d)"
proof -
  have "send_each ts d ns = Some infs \<Longrightarrow> n < length infs \<Longrightarrow>
    (case ns ! n of RFC3877 \<Rightarrow> send_rfc3877_trap d | ENTERPRISE \<Rightarrow> send_enterprise_trap ts d) = Some (infs ! n)"
    for ns infs n
  proof (induction ns arbitrary: infs n)
    case Nil
    then show ?case by simp
  next
    case (Cons m ns)
    then show ?case by (cases n) (auto split: option.splits)
  qed
  with send_trap_total [of ts d] show ?thesis
    by (metis (no_types, lifting) NotificationType.simps(3,4) send_trap_def)
qed

theorem send_trap_informs_witness:
  "\<exists>infs. send_trap \<lparr>ts_notifications = [(RFC3877, ()), (ENTERPRISE, ())], ts_hostname = ''node1''\<rparr>
     (sample_def 1000 CRITICAL) = Some infs \<and> length infs = 2"
  using send_trap_informs
    [of "\<lparr>ts_notifications = [(RFC3877, ()), (ENTERPRISE, ())], ts_hostname = ''node1''\<rparr>" "sample_def 1000 CRITICAL"]
  by auto

end
