(* ===== verification/Timer_Heap.thy ===== *)
theory Timer_Heap
  imports Prelude
begin

text \<open>
  The interface of cpp-common's \<open>TimerHeap\<close> as the scheduler uses it.  The heap holds pointers
  to timers, one timer per alarm, so a timer is named by its alarm index; the pop times stay in the
  timers, and every operation is given their current values.  The locale \<open>timer_heap\<close> is the
  contract; a sorted list satisfies it.
\<close>

section \<open>Operations\<close>

type_synonym pop_times = "u32 \<Rightarrow> u64"

record 'h heap_ops =
  h_new :: 'h
  h_insert :: "pop_times \<Rightarrow> u32 \<Rightarrow> 'h \<Rightarrow> 'h"
  h_remove :: "pop_times \<Rightarrow> u32 \<Rightarrow> 'h \<Rightarrow> 'h"
  h_rebalance :: "pop_times \<Rightarrow> u32 \<Rightarrow> 'h \<Rightarrow> 'h"
  h_next :: "'h \<Rightarrow> u32 option"
  h_mem :: "'h \<Rightarrow> u32 \<Rightarrow> bool"
  h_clear :: "'h \<Rightarrow> 'h"

text \<open>A heap as the list of its timers in the order of their pop times.\<close>

type_synonym timer_list = "(u64 \<times> u32) list"

fun tl_add :: "u64 \<times> u32 \<Rightarrow> timer_list \<Rightarrow> timer_list" where
  "tl_add x [] = [x]"
| "tl_add x (y # ys) = (if fst x < fst y then x # y # ys else y # tl_add x ys)"

definition tl_drop :: "u32 \<Rightarrow> timer_list \<Rightarrow> timer_list" where
  "tl_drop i h = filter (\<lambda>(_, j). j \<noteq> i) h"

definition list_heap :: "timer_list heap_ops" where
  "list_heap =
     \<lparr>h_new = [],
      h_insert = (\<lambda>p i h. if i \<in> snd ` set h then h else tl_add (p i, i) h),
      h_remove = (\<lambda>p i h. tl_drop i h),
      h_rebalance = (\<lambda>p i h. tl_add (p i, i) (tl_drop i h)),
      h_next = (\<lambda>h. case h of [] \<Rightarrow> None | x # _ \<Rightarrow> Some (snd x)),
      h_mem = (\<lambda>h i. i \<in> snd ` set h),
      h_clear = (\<lambda>h. [])\<rparr>"

definition list_heap_ok :: "pop_times \<Rightarrow> timer_list \<Rightarrow> bool" where
  "list_heap_ok p h \<longleftrightarrow>
     sorted_wrt (\<lambda>x y. fst x \<le> fst y) h \<and> (\<forall>(t, i) \<in> set h. t = p i) \<and> distinct (map snd h)"

section \<open>Contract\<close>

text \<open>
  \<open>valid p h\<close>: the heap \<open>h\<close> is in order for the pop times \<open>p\<close>.  Inserting a timer that
  is present and removing one that is absent are allowed; removing or rebalancing a timer is how the
  heap learns that its pop time has changed.
\<close>

locale timer_heap =
  fixes H :: "'h heap_ops"
    and valid :: "pop_times \<Rightarrow> 'h \<Rightarrow> bool"
  assumes valid_new: "valid p (h_new H)"
    and mem_new: "\<not> h_mem H (h_new H) i"
    and valid_insert: "valid p h \<Longrightarrow> valid p (h_insert H p i h)"
    and mem_insert: "valid p h \<Longrightarrow> h_mem H (h_insert H p i h) j \<longleftrightarrow> j = i \<or> h_mem H h j"
    and valid_remove: "valid p h \<Longrightarrow> valid (p(i := t)) (h_remove H (p(i := t)) i h)"
    and mem_remove: "valid p h \<Longrightarrow> h_mem H (h_remove H (p(i := t)) i h) j \<longleftrightarrow> j \<noteq> i \<and> h_mem H h j"
    and valid_rebalance: "valid p h \<Longrightarrow> h_mem H h i \<Longrightarrow> valid (p(i := t)) (h_rebalance H (p(i := t)) i h)"
    and mem_rebalance: "valid p h \<Longrightarrow> h_mem H h i \<Longrightarrow> h_mem H (h_rebalance H (p(i := t)) i h) j \<longleftrightarrow> h_mem H h j"
    and mem_clear: "valid p h \<Longrightarrow> \<not> h_mem H (h_clear H h) i"
    and next_None: "valid p h \<Longrightarrow> h_next H h = None \<longleftrightarrow> (\<forall>i. \<not> h_mem H h i)"
    and next_Some: "valid p h \<Longrightarrow> h_next H h = Some i \<Longrightarrow> h_mem H h i \<and> (\<forall>j. h_mem H h j \<longrightarrow> p i \<le> p j)"
begin

text \<open>Removal with the pop times unchanged.\<close>

lemma remove_same:
  assumes "valid p h"
  shows "valid p (h_remove H p i h)" and "h_mem H (h_remove H p i h) j \<longleftrightarrow> j \<noteq> i \<and> h_mem H h j"
  using valid_remove [OF assms, of i "p i"] mem_remove [OF assms, of i "p i" j] by simp_all

text \<open>When the earliest timer is not due, no timer is.\<close>

lemma none_due:
  assumes "valid p h" and "h_next H h = Some i" and "\<not> p i \<le> now"
  shows "\<forall>j. h_mem H h j \<longrightarrow> now < p j"
  using next_Some [OF assms(1,2)] assms(3) by force

end

section \<open>The sorted list is a timer heap\<close>

lemma set_tl_add [simp]: "set (tl_add x h) = insert x (set h)"
  by (induction h) auto

lemma snd_tl_add [simp]: "snd ` set (tl_add x h) = insert (snd x) (snd ` set h)"
  by simp

lemma distinct_tl_add: "distinct (map snd (tl_add x h)) \<longleftrightarrow> snd x \<notin> snd ` set h \<and> distinct (map snd h)"
  by (induction h) auto

lemma sorted_tl_add:
  "sorted_wrt (\<lambda>x y. fst x \<le> fst y) h \<Longrightarrow> sorted_wrt (\<lambda>x y. fst x \<le> fst y) (tl_add x h)"
proof (induction h)
  case Nil
  then show ?case by simp
next
  case (Cons y h)
  then show ?case by (auto intro: order_trans less_imp_le)
qed

lemma snd_tl_drop: "snd ` set (tl_drop i h) = snd ` set h - {i}"
  by (force simp: tl_drop_def)

lemma list_heap_ok_drop: "list_heap_ok p h \<Longrightarrow> list_heap_ok (p(i := t)) (tl_drop i h)"
  by (auto simp: list_heap_ok_def tl_drop_def sorted_wrt_filter distinct_map_filter)

lemma list_heap_ok_add:
  "list_heap_ok p h \<Longrightarrow> i \<notin> snd ` set h \<Longrightarrow> list_heap_ok p (tl_add (p i, i) h)"
  by (auto simp: list_heap_ok_def sorted_tl_add distinct_tl_add)

lemma list_heap_ok_Nil: "list_heap_ok p []"
  by (simp add: list_heap_ok_def)

interpretation list_heap: timer_heap list_heap list_heap_ok
proof unfold_locales
  fix p h and i :: u32
  assume ok: "list_heap_ok p h" and "h_next list_heap h = Some i"
  then obtain x xs where h: "h = x # xs" and i: "i = snd x"
    by (auto simp: list_heap_def split: list.splits)
  show "h_mem list_heap h i \<and> (\<forall>j. h_mem list_heap h j \<longrightarrow> p i \<le> p j)"
    using ok unfolding h i by (cases x) (force simp: list_heap_def list_heap_ok_def)
next
  fix p h t and i :: u32
  assume "list_heap_ok p h"
  then have "list_heap_ok (p(i := t)) (tl_drop i h)" by (rule list_heap_ok_drop)
  moreover have "i \<notin> snd ` set (tl_drop i h)" by (simp add: snd_tl_drop)
  ultimately have "list_heap_ok (p(i := t)) (tl_add ((p(i := t)) i, i) (tl_drop i h))"
    by (rule list_heap_ok_add)
  then show "list_heap_ok (p(i := t)) (h_rebalance list_heap (p(i := t)) i h)"
    by (simp add: list_heap_def)
qed (auto simp: list_heap_def snd_tl_drop list_heap_ok_drop list_heap_ok_add list_heap_ok_Nil
      split: list.splits)

end
