(* ===== verification/Scheduler.thy ===== *)
theory Scheduler
  imports C_Library Trap_Sender Timer_Heap
begin

text \<open>
  The alarm scheduler (\<open>include/alarm_scheduler.hpp\<close>, \<open>src/alarm_scheduler.cpp\<close>): the
  per-alarm managers, the heap of alarms waiting to be sent, the entry points of the request
  listener and of net-snmp, and the heap-sender thread.  Every entry point and every round of the
  thread runs under one lock and is one step.  Results are optional: \<^const>\<open>None\<close> is a null or
  dangling pointer being followed.  \<open>Utils::get_time\<close>, the comparison of severities
  (\<open>operator>\<close> on cpp-common's \<open>AlarmDef::Severity\<close>) and the heap are arguments.
\<close>

section \<open>State\<close>

record AlarmTimer =
  pop_time :: u64
  timer_severity :: Severity
  timer_index :: u32

record SingleAlarmManager =
  sam_timer :: AlarmTimer
  sam_severity :: Severity

record timespec =
  tv_sec :: u64
  tv_nsec :: u64

text \<open>What the heap-sender thread is doing between two critical sections.\<close>

datatype sender_state = Awake | TimedWait timespec | Waiting

record ('h, 'c) scheduler =
  all_alarms_state :: "(u32, SingleAlarmManager) std_map"
  alarm_heap :: 'h
  terminated :: bool
  heap_sender_state :: sender_state
  informs :: "inform list"
  active :: "'c active_table"

record ('h, 'c) sched_env =
  se_heap :: "'h heap_ops"
  se_severity_gt :: "Severity \<Rightarrow> Severity \<Rightarrow> bool"
  se_defs :: AlarmTableDefs
  se_sender :: AlarmTrapSender
  se_active :: "'c active_env"

definition ALARM_REDUCED_DELAY :: u64 where "ALARM_REDUCED_DELAY = 30000"
definition ALARM_RETRY_DELAY :: u64 where "ALARM_RETRY_DELAY = 30000"
definition ALARM_RESYNC_DELAY :: u64 where "ALARM_RESYNC_DELAY = 0"
definition ALARM_INCREASED_DELAY :: u64 where "ALARM_INCREASED_DELAY = 0"

definition UINT64_MAX :: u64 where
  "UINT64_MAX = 18446744073709551615"

definition find_alarm :: "('h, 'c) scheduler \<Rightarrow> u32 \<Rightarrow> SingleAlarmManager option" where
  "find_alarm s i = map_find uint_less i (all_alarms_state s)"

text \<open>Writing through the pointer to a manager that is in the map.\<close>

definition put_alarm :: "u32 \<Rightarrow> SingleAlarmManager \<Rightarrow> ('h, 'c) scheduler \<Rightarrow> ('h, 'c) scheduler" where
  "put_alarm i m s = s\<lparr>all_alarms_state := map_assign uint_less i m (all_alarms_state s)\<rparr>"

definition pop_times_of :: "('h, 'c) scheduler \<Rightarrow> pop_times" where
  "pop_times_of s i = (case find_alarm s i of None \<Rightarrow> UINT64_MAX | Some m \<Rightarrow> pop_time (sam_timer m))"

definition cond_signal :: "('h, 'c) scheduler \<Rightarrow> ('h, 'c) scheduler" where
  "cond_signal s = s\<lparr>heap_sender_state := Awake\<rparr>"

section \<open>Timers and managers\<close>

definition new_AlarmTimer :: "u32 \<Rightarrow> AlarmTimer" where
  "new_AlarmTimer i =
     \<lparr>pop_time = UINT64_MAX, timer_severity = UNDEFINED_SEVERITY, timer_index = i\<rparr>"

definition in_heap :: "('h, 'c) sched_env \<Rightarrow> u32 \<Rightarrow> ('h, 'c) scheduler \<Rightarrow> bool" where
  "in_heap E i s = h_mem (se_heap E) (alarm_heap s) i"

text \<open>\<open>_heap->rebalance(this)\<close> follows a null pointer when the timer is in no heap.\<close>

definition update_pop_time ::
  "('h, 'c) sched_env \<Rightarrow> u64 \<Rightarrow> u64 \<Rightarrow> u32 \<Rightarrow> ('h, 'c) scheduler \<Rightarrow> ('h, 'c) scheduler option" where
  "update_pop_time E now time_to_add i s =
     (case find_alarm s i of
        None \<Rightarrow> None
      | Some m \<Rightarrow>
          (let s1 = put_alarm i (m\<lparr>sam_timer := (sam_timer m)\<lparr>pop_time := now + time_to_add\<rparr>\<rparr>) s
           in if in_heap E i s1
              then Some (s1\<lparr>alarm_heap := h_rebalance (se_heap E) (pop_times_of s1) i (alarm_heap s1)\<rparr>)
              else None))"

definition remove_from_heap ::
  "('h, 'c) sched_env \<Rightarrow> u32 \<Rightarrow> ('h, 'c) scheduler \<Rightarrow> ('h, 'c) scheduler option" where
  "remove_from_heap E i s =
     (case find_alarm s i of
        None \<Rightarrow> None
      | Some m \<Rightarrow>
          (let s1 = put_alarm i (m\<lparr>sam_timer := (sam_timer m)
                       \<lparr>pop_time := UINT64_MAX, timer_severity := UNDEFINED_SEVERITY\<rparr>\<rparr>) s
           in if in_heap E i s1
              then Some (s1\<lparr>alarm_heap := h_remove (se_heap E) (pop_times_of s1) i (alarm_heap s1)\<rparr>)
              else None))"

definition set_timer_severity :: "Severity \<Rightarrow> u32 \<Rightarrow> ('h, 'c) scheduler \<Rightarrow> ('h, 'c) scheduler" where
  "set_timer_severity sev i s =
     (case find_alarm s i of
        None \<Rightarrow> s
      | Some m \<Rightarrow> put_alarm i (m\<lparr>sam_timer := (sam_timer m)\<lparr>timer_severity := sev\<rparr>\<rparr>) s)"

definition change_schedule ::
  "('h, 'c) sched_env \<Rightarrow> u64 \<Rightarrow> u32 \<Rightarrow> Severity \<Rightarrow> u64 \<Rightarrow> ('h, 'c) scheduler \<Rightarrow>
   ('h, 'c) scheduler option" where
  "change_schedule E now i new_severity delay s =
     (case find_alarm s i of
        None \<Rightarrow> None
      | Some m \<Rightarrow>
          if new_severity \<noteq> timer_severity (sam_timer m)
          then update_pop_time E now delay i (set_timer_severity new_severity i s)
          else Some s)"

definition should_resend_alarm ::
  "('h, 'c) sched_env \<Rightarrow> u32 \<Rightarrow> Severity \<Rightarrow> ('h, 'c) scheduler \<Rightarrow> bool" where
  "should_resend_alarm E i sev s =
     (case find_alarm s i of
        None \<Rightarrow> False
      | Some m \<Rightarrow> sam_severity m = sev \<and> \<not> in_heap E i s)"

definition update_alarm_state ::
  "('h, 'c) sched_env \<Rightarrow> local_time \<Rightarrow> u32 \<Rightarrow> AlarmTableDef \<Rightarrow> ('h, 'c) scheduler \<Rightarrow>
   ('h, 'c) scheduler option" where
  "update_alarm_state E lt i d s =
     (case find_alarm s i of
        None \<Rightarrow> None
      | Some m \<Rightarrow>
          (let s1 = put_alarm i (m\<lparr>sam_severity := severity d\<rparr>) s
           in map_option (\<lambda>t. s1\<lparr>active := t\<rparr>)
                (alarmActiveTable_trap_handler (se_active E) lt d (active s1))))"

section \<open>The scheduler's operations\<close>

definition change_schedule_for_alarm ::
  "('h, 'c) sched_env \<Rightarrow> u64 \<Rightarrow> u32 \<Rightarrow> Severity \<Rightarrow> u64 \<Rightarrow> ('h, 'c) scheduler \<Rightarrow>
   ('h, 'c) scheduler option" where
  "change_schedule_for_alarm E now i sev delay s =
     change_schedule E now i sev delay
       (s\<lparr>alarm_heap := h_insert (se_heap E) (pop_times_of s) i (alarm_heap s)\<rparr>)"

definition remove_outdated_alarm_from_heap ::
  "('h, 'c) sched_env \<Rightarrow> u32 \<Rightarrow> ('h, 'c) scheduler \<Rightarrow> ('h, 'c) scheduler option" where
  "remove_outdated_alarm_from_heap E i s =
     (case find_alarm s i of
        None \<Rightarrow> None
      | Some m \<Rightarrow>
          if sam_severity m \<noteq> timer_severity (sam_timer m)
          then Some (cond_signal
                 (s\<lparr>alarm_heap := h_remove (se_heap E) (pop_times_of s) i (alarm_heap s)\<rparr>))
          else Some s)"

text \<open>The index and severity of a valid trigger, \<^const>\<open>None\<close> for a malformed or unknown one.\<close>

definition validate_alarm_trigger :: "AlarmTableDefs \<Rightarrow> string \<Rightarrow> (u32 \<times> u32) option" where
  "validate_alarm_trigger T identifier =
     (case sscanf_u_dot_u identifier of
        None \<Rightarrow> None
      | Some (index, sev) \<Rightarrow> if is_valid (get_definition T index sev) then Some (index, sev) else None)"

definition issue_alarm ::
  "('h, 'c) sched_env \<Rightarrow> u64 \<Rightarrow> string \<Rightarrow> string \<Rightarrow> ('h, 'c) scheduler \<Rightarrow> ('h, 'c) scheduler option" where
  "issue_alarm E now issuer identifier s =
     (case validate_alarm_trigger (se_defs E) identifier of
        None \<Rightarrow> Some s
      | Some (index, sev) \<Rightarrow>
          (case find_alarm s index of
             None \<Rightarrow> Some s
           | Some m \<Rightarrow>
               (case severity_cast sev of
                  None \<Rightarrow> None
                | Some severity_as_enum \<Rightarrow>
                    if severity_as_enum = sam_severity m
                    then remove_outdated_alarm_from_heap E index s
                    else if se_severity_gt E severity_as_enum (sam_severity m)
                    then map_option cond_signal
                           (change_schedule_for_alarm E now index severity_as_enum ALARM_INCREASED_DELAY s)
                    else map_option cond_signal
                           (change_schedule_for_alarm E now index severity_as_enum ALARM_REDUCED_DELAY s))))"

text \<open>
  The loop of the synchronisation.  The lock is held from its beginning to its end, and one reading
  of the clock stands for the readings for the single alarms.
\<close>

fun sync_loop ::
  "('h, 'c) sched_env \<Rightarrow> u64 \<Rightarrow> u32 list \<Rightarrow> ('h, 'c) scheduler \<Rightarrow> ('h, 'c) scheduler option" where
  "sync_loop E now [] s = Some s"
| "sync_loop E now (i # is) s =
     (case find_alarm s i of
        None \<Rightarrow> None
      | Some m \<Rightarrow>
          if sam_severity m \<noteq> UNDEFINED_SEVERITY
          then (case change_schedule_for_alarm E now i (sam_severity m) ALARM_RESYNC_DELAY s of
                  None \<Rightarrow> None
                | Some s' \<Rightarrow> sync_loop E now is s')
          else sync_loop E now is s)"

definition sync_alarms ::
  "('h, 'c) sched_env \<Rightarrow> u64 \<Rightarrow> ('h, 'c) scheduler \<Rightarrow> ('h, 'c) scheduler option" where
  "sync_alarms E now s =
     map_option cond_signal (sync_loop E now (map fst (all_alarms_state s)) s)"

definition handle_failed_alarm ::
  "('h, 'c) sched_env \<Rightarrow> u64 \<Rightarrow> AlarmTableDef \<Rightarrow> ('h, 'c) scheduler \<Rightarrow> ('h, 'c) scheduler option" where
  "handle_failed_alarm E now d s =
     (case find_alarm s (alarm_index d) of
        None \<Rightarrow> Some s
      | Some m \<Rightarrow>
          if should_resend_alarm E (alarm_index d) (severity d) s
          then map_option cond_signal
                 (change_schedule_for_alarm E now (alarm_index d) (severity d) ALARM_RETRY_DELAY s)
          else Some s)"

text \<open>\<open>AlarmTrapSender::alarm_trap_send_callback\<close>.\<close>

definition alarm_trap_send_callback ::
  "('h, 'c) sched_env \<Rightarrow> u64 \<Rightarrow> callback_op \<Rightarrow> AlarmTableDef \<Rightarrow> ('h, 'c) scheduler \<Rightarrow>
   ('h, 'c) scheduler option" where
  "alarm_trap_send_callback E now op d s =
     (case op of
        NETSNMP_CALLBACK_OP_RECEIVED_MESSAGE \<Rightarrow> Some s
      | NETSNMP_CALLBACK_OP_SEND_FAILED \<Rightarrow> Some s
      | NETSNMP_CALLBACK_OP_TIMED_OUT \<Rightarrow> handle_failed_alarm E now d s
      | CALLBACK_OP_OTHER _ \<Rightarrow> Some s)"

section \<open>The heap-sender thread\<close>

text \<open>
  The body of the inner loop for one due timer.  \<open>clk i\<close> is the local time read when the row of
  alarm \<open>i\<close> is created.
\<close>

definition pop_alarm ::
  "('h, 'c) sched_env \<Rightarrow> (u32 \<Rightarrow> local_time) \<Rightarrow> u32 \<Rightarrow> ('h, 'c) scheduler \<Rightarrow> ('h, 'c) scheduler option" where
  "pop_alarm E clk i s =
     (case find_alarm s i of
        None \<Rightarrow> None
      | Some m \<Rightarrow>
          (let d = get_definition (se_defs E) (timer_index (sam_timer m))
                     (severity_value (timer_severity (sam_timer m)))
           in case (if is_valid d
                    then (case send_trap (se_sender E) d of
                            None \<Rightarrow> None
                          | Some infs \<Rightarrow>
                              (let s1 = s\<lparr>informs := informs s @ infs\<rparr>
                               in case find_alarm s1 (timer_index (sam_timer m)) of
                                    None \<Rightarrow> Some s1
                                  | Some _ \<Rightarrow>
                                      update_alarm_state E (clk i) (timer_index (sam_timer m)) d s1))
                    else Some s) of
                None \<Rightarrow> None
              | Some s2 \<Rightarrow> remove_from_heap E i s2))"

text \<open>The inner loop, with fuel; the time is read once before it.\<close>

fun heap_sender_due ::
  "nat \<Rightarrow> ('h, 'c) sched_env \<Rightarrow> (u32 \<Rightarrow> local_time) \<Rightarrow> u64 \<Rightarrow> ('h, 'c) scheduler \<Rightarrow>
   ('h, 'c) scheduler option" where
  "heap_sender_due 0 E clk now s = None"
| "heap_sender_due (Suc fuel) E clk now s =
     (case h_next (se_heap E) (alarm_heap s) of
        None \<Rightarrow> Some s
      | Some i \<Rightarrow>
          if pop_times_of s i \<le> now
          then (case pop_alarm E clk i s of
                  None \<Rightarrow> None
                | Some s' \<Rightarrow> heap_sender_due fuel E clk now s')
          else Some s)"

definition timespec_of :: "u64 \<Rightarrow> timespec" where
  "timespec_of t = \<lparr>tv_sec = t div 1000, tv_nsec = (t mod 1000) * 1000000\<rparr>"

definition heap_sender_wait :: "('h, 'c) sched_env \<Rightarrow> ('h, 'c) scheduler \<Rightarrow> ('h, 'c) scheduler" where
  "heap_sender_wait E s =
     s\<lparr>heap_sender_state :=
         (case h_next (se_heap E) (alarm_heap s) of
            Some i \<Rightarrow> TimedWait (timespec_of (pop_times_of s i))
          | None \<Rightarrow> Waiting)\<rparr>"

text \<open>One round of the outer loop, up to and including the wait.\<close>

definition heap_sender_round ::
  "nat \<Rightarrow> ('h, 'c) sched_env \<Rightarrow> (u32 \<Rightarrow> local_time) \<Rightarrow> u64 \<Rightarrow> ('h, 'c) scheduler \<Rightarrow>
   ('h, 'c) scheduler option" where
  "heap_sender_round fuel E clk now s =
     (if terminated s then Some s
      else map_option (heap_sender_wait E) (heap_sender_due fuel E clk now s))"

section \<open>Construction and destruction\<close>

fun populate_states ::
  "AlarmTableDef list \<Rightarrow> (u32, SingleAlarmManager) std_map \<Rightarrow> (u32, SingleAlarmManager) std_map" where
  "populate_states [] m = m"
| "populate_states (d # ds) m =
     populate_states ds
       (case map_find uint_less (alarm_index d) m of
          None \<Rightarrow> map_emplace uint_less (alarm_index d)
                   \<lparr>sam_timer = new_AlarmTimer (alarm_index d), sam_severity = UNDEFINED_SEVERITY\<rparr> m
        | Some _ \<Rightarrow> m)"

definition new_AlarmScheduler ::
  "('h, 'c) sched_env \<Rightarrow> 'c active_table \<Rightarrow> ('h, 'c) scheduler" where
  "new_AlarmScheduler E t =
     \<lparr>all_alarms_state = populate_states (all_definitions (se_defs E)) [],
      alarm_heap = h_new (se_heap E), terminated = False, heap_sender_state = Awake,
      informs = [], active = t\<rparr>"

text \<open>The first part of the destructor, before the thread is joined.\<close>

definition terminate_scheduler :: "('h, 'c) scheduler \<Rightarrow> ('h, 'c) scheduler" where
  "terminate_scheduler s = cond_signal (s\<lparr>terminated := True\<rparr>)"

text \<open>The last part: the heap is emptied, and the managers are freed with their timers.\<close>

definition free_scheduler :: "('h, 'c) sched_env \<Rightarrow> ('h, 'c) scheduler \<Rightarrow> ('h, 'c) scheduler" where
  "free_scheduler E s = s\<lparr>alarm_heap := h_clear (se_heap E) (alarm_heap s), all_alarms_state := []\<rparr>"

text \<open>In between, joining the heap-sender thread lets it wake up once more.\<close>

definition delete_AlarmScheduler ::
  "nat \<Rightarrow> ('h, 'c) sched_env \<Rightarrow> (u32 \<Rightarrow> local_time) \<Rightarrow> u64 \<Rightarrow> ('h, 'c) scheduler \<Rightarrow>
   ('h, 'c) scheduler option" where
  "delete_AlarmScheduler fuel E clk now s =
     map_option (free_scheduler E) (heap_sender_round fuel E clk now (terminate_scheduler s))"

section \<open>Steps and reachable states\<close>

text \<open>
  The interleavings of the threads: the request listener issues and synchronises alarms, net-snmp
  reports deliveries, and the heap-sender thread runs a round (whenever it wakes, spuriously too).
\<close>

inductive sched_step ::
  "('h, 'c) sched_env \<Rightarrow> u64 \<Rightarrow> ('h, 'c) scheduler \<Rightarrow> ('h, 'c) scheduler \<Rightarrow> bool"
  for E now where
  issue: "issue_alarm E now issuer ident s = Some s' \<Longrightarrow> sched_step E now s s'"
| sync: "sync_alarms E now s = Some s' \<Longrightarrow> sched_step E now s s'"
| report: "d \<in> set (all_definitions (se_defs E)) \<Longrightarrow>
    alarm_trap_send_callback E now oper d s = Some s' \<Longrightarrow> sched_step E now s s'"
| round: "heap_sender_round fuel E clk now s = Some s' \<Longrightarrow> sched_step E now s s'"
| stop: "sched_step E now s (terminate_scheduler s)"

inductive sched_reachable :: "('h, 'c) sched_env \<Rightarrow> 'c active_table \<Rightarrow> ('h, 'c) scheduler \<Rightarrow> bool"
  for E t where
  start: "sched_reachable E t (new_AlarmScheduler E t)"
| step: "sched_reachable E t s \<Longrightarrow> sched_step E now s s' \<Longrightarrow> sched_reachable E t s'"

text \<open>The same with the clock: the states reached by time \<open>now\<close> when it never goes backwards.\<close>

inductive timed_reachable ::
  "('h, 'c) sched_env \<Rightarrow> 'c active_table \<Rightarrow> u64 \<Rightarrow> ('h, 'c) scheduler \<Rightarrow> bool"
  for E t where
  start: "timed_reachable E t now (new_AlarmScheduler E t)"
| step: "timed_reachable E t now s \<Longrightarrow> now \<le> now' \<Longrightarrow> sched_step E now' s s' \<Longrightarrow> timed_reachable E t now' s'"

lemma timed_reachable_reachable: "timed_reachable E t now s \<Longrightarrow> sched_reachable E t s"
  by (induction rule: timed_reachable.induct) (auto intro: sched_reachable.intros)

end
