(* ===== verification/Scheduler_Inv.thy ===== *)
theory Scheduler_Inv
  imports Scheduler
begin

text \<open>
  The invariant of the alarm scheduler and its preservation by every step: the managers and the heap
  agree, whatever waits in the heap is a defined alarm, the row pointers are sound, and the
  heap-sender thread never sleeps past an alarm that is waiting.  The locale \<open>sched_context\<close>
  names what the scheduler relies on: the timer heap's contract, a well-formed definition table and an
  allocator that hands out fresh addresses.
\<close>

section \<open>Invariant\<close>

definition alarm_defined :: "('h, 'c) sched_env \<Rightarrow> u32 \<Rightarrow> Severity \<Rightarrow> bool" where
  "alarm_defined E i sev \<longleftrightarrow> is_valid (get_definition (se_defs E) i (severity_value sev))"

definition alarm_known :: "('h, 'c) sched_env \<Rightarrow> u32 \<Rightarrow> bool" where
  "alarm_known E i \<longleftrightarrow> i \<in> alarm_index ` set (all_definitions (se_defs E))"

definition managers_ok :: "('h, 'c) sched_env \<Rightarrow> ('h, 'c) scheduler \<Rightarrow> bool" where
  "managers_ok E s \<longleftrightarrow>
     map_ok uint_less (all_alarms_state s) \<and>
     (\<forall>i. find_alarm s i \<noteq> None \<longleftrightarrow> alarm_known E i) \<and>
     (\<forall>i m. find_alarm s i = Some m \<longrightarrow>
        timer_index (sam_timer m) = i \<and>
        (sam_severity m = UNDEFINED_SEVERITY \<or> alarm_defined E i (sam_severity m)))"

definition heap_ok ::
  "('h, 'c) sched_env \<Rightarrow> (pop_times \<Rightarrow> 'h \<Rightarrow> bool) \<Rightarrow> ('h, 'c) scheduler \<Rightarrow> bool" where
  "heap_ok E valid s \<longleftrightarrow>
     valid (pop_times_of s) (alarm_heap s) \<and>
     (\<forall>i. in_heap E i s \<longrightarrow>
        (\<exists>m. find_alarm s i = Some m \<and> alarm_defined E i (timer_severity (sam_timer m))))"

definition sched_ok ::
  "('h, 'c) sched_env \<Rightarrow> (pop_times \<Rightarrow> 'h \<Rightarrow> bool) \<Rightarrow> ('h, 'c) scheduler \<Rightarrow> bool" where
  "sched_ok E valid s \<longleftrightarrow> managers_ok E s \<and> heap_ok E valid s \<and> rows_ok (active s)"

text \<open>The instant a \<open>timespec\<close> stands for, in milliseconds.\<close>

definition millis :: "timespec \<Rightarrow> u64" where
  "millis ts = tv_sec ts * 1000 + tv_nsec ts div 1000000"

definition sender_ok :: "('h, 'c) sched_env \<Rightarrow> ('h, 'c) scheduler \<Rightarrow> bool" where
  "sender_ok E s \<longleftrightarrow>
     (case heap_sender_state s of
        Awake \<Rightarrow> True
      | Waiting \<Rightarrow> \<forall>i. \<not> in_heap E i s
      | TimedWait ts \<Rightarrow> \<forall>i. in_heap E i s \<longrightarrow> millis ts \<le> pop_times_of s i)"

text \<open>What an operation that sends nothing leaves alone: the informs, the active alarms, and the
  severity each manager last sent.\<close>

definition unsent :: "('h, 'c) scheduler \<Rightarrow> ('h, 'c) scheduler \<Rightarrow> bool" where
  "unsent s s' \<longleftrightarrow> informs s' = informs s \<and> active s' = active s \<and> terminated s' = terminated s \<and>
     (\<forall>j. map_option sam_severity (find_alarm s' j) = map_option sam_severity (find_alarm s j))"

section \<open>Reading and writing managers\<close>

lemma find_put_alarm [simp]:
  "map_ok uint_less (all_alarms_state s) \<Longrightarrow>
    find_alarm (put_alarm i m s) j = (if j = i then Some m else find_alarm s j)"
  by (simp add: find_alarm_def put_alarm_def uint_map.find_assign)

lemma put_alarm_fields [simp]:
  "alarm_heap (put_alarm i m s) = alarm_heap s" "terminated (put_alarm i m s) = terminated s"
  "heap_sender_state (put_alarm i m s) = heap_sender_state s" "informs (put_alarm i m s) = informs s"
  "active (put_alarm i m s) = active s"
  by (simp_all add: put_alarm_def)

lemma put_alarm_map_ok [simp]:
  "map_ok uint_less (all_alarms_state s) \<Longrightarrow> map_ok uint_less (all_alarms_state (put_alarm i m s))"
  by (simp add: put_alarm_def uint_map.ok_assign)

lemma find_alarm_fields [simp]:
  "find_alarm (s\<lparr>alarm_heap := h\<rparr>) = find_alarm s" "find_alarm (s\<lparr>terminated := b\<rparr>) = find_alarm s"
  "find_alarm (s\<lparr>heap_sender_state := w\<rparr>) = find_alarm s" "find_alarm (s\<lparr>informs := l\<rparr>) = find_alarm s"
  "find_alarm (s\<lparr>active := t\<rparr>) = find_alarm s"
  by (simp_all add: find_alarm_def fun_eq_iff)

lemma pop_times_fields [simp]:
  "pop_times_of (s\<lparr>alarm_heap := h\<rparr>) = pop_times_of s" "pop_times_of (s\<lparr>terminated := b\<rparr>) = pop_times_of s"
  "pop_times_of (s\<lparr>heap_sender_state := w\<rparr>) = pop_times_of s" "pop_times_of (s\<lparr>informs := l\<rparr>) = pop_times_of s"
  "pop_times_of (s\<lparr>active := t\<rparr>) = pop_times_of s"
  by (simp_all add: pop_times_of_def fun_eq_iff)

lemma pop_times_put_alarm [simp]:
  "map_ok uint_less (all_alarms_state s) \<Longrightarrow>
    pop_times_of (put_alarm i m s) = (pop_times_of s)(i := pop_time (sam_timer m))"
  by (simp add: pop_times_of_def fun_eq_iff)

lemma find_alarm_signal [simp]: "find_alarm (cond_signal s) = find_alarm s"
  by (simp add: cond_signal_def)

lemma pop_times_signal [simp]: "pop_times_of (cond_signal s) = pop_times_of s"
  by (simp add: cond_signal_def)

lemma signal_fields [simp]:
  "alarm_heap (cond_signal s) = alarm_heap s" "active (cond_signal s) = active s"
  "informs (cond_signal s) = informs s" "all_alarms_state (cond_signal s) = all_alarms_state s"
  "heap_sender_state (cond_signal s) = Awake" "terminated (cond_signal s) = terminated s"
  by (simp_all add: cond_signal_def)

lemma in_heap_cong: "alarm_heap s = alarm_heap s' \<Longrightarrow> in_heap E i s = in_heap E i s'"
  by (simp add: in_heap_def)

lemma managers_ok_cong:
  "all_alarms_state s = all_alarms_state s' \<Longrightarrow> managers_ok E s = managers_ok E s'"
  by (simp add: managers_ok_def find_alarm_def)

lemma heap_ok_cong:
  "all_alarms_state s = all_alarms_state s' \<Longrightarrow> alarm_heap s = alarm_heap s' \<Longrightarrow>
    heap_ok E valid s = heap_ok E valid s'"
proof -
  assume eq: "all_alarms_state s = all_alarms_state s'" "alarm_heap s = alarm_heap s'"
  then have "find_alarm s = find_alarm s'" by (simp add: find_alarm_def fun_eq_iff)
  moreover from this have "pop_times_of s = pop_times_of s'" by (simp add: pop_times_of_def fun_eq_iff)
  ultimately show ?thesis using eq by (simp add: heap_ok_def in_heap_def)
qed

lemma sched_ok_cong:
  "all_alarms_state s = all_alarms_state s' \<Longrightarrow> alarm_heap s = alarm_heap s' \<Longrightarrow> active s = active s' \<Longrightarrow>
    sched_ok E valid s = sched_ok E valid s'"
  using managers_ok_cong [of s s' E] heap_ok_cong [of s s' E valid] by (simp add: sched_ok_def)

lemma sched_ok_signal [simp]: "sched_ok E valid (cond_signal s) = sched_ok E valid s"
  by (rule sched_ok_cong) simp_all

lemma sched_ok_informs [simp]: "sched_ok E valid (s\<lparr>informs := l\<rparr>) = sched_ok E valid s"
  by (rule sched_ok_cong) simp_all

lemma sched_ok_sender [simp]: "sched_ok E valid (s\<lparr>heap_sender_state := w\<rparr>) = sched_ok E valid s"
  by (rule sched_ok_cong) simp_all

lemma sender_ok_signal [simp]: "sender_ok E (cond_signal s)"
  by (simp add: sender_ok_def)

lemma managers_ok_put:
  assumes "managers_ok E s" and "find_alarm s i = Some m" and "timer_index (sam_timer m') = i"
    and "sam_severity m' = UNDEFINED_SEVERITY \<or> alarm_defined E i (sam_severity m')"
  shows "managers_ok E (put_alarm i m' s)"
proof -
  have map: "map_ok uint_less (all_alarms_state s)" using assms(1) by (simp add: managers_ok_def)
  have "alarm_known E i" using assms(1,2) by (auto simp: managers_ok_def)
  with assms map show ?thesis by (auto simp: managers_ok_def)
qed

lemma managers_okD:
  assumes "managers_ok E s"
  shows "map_ok uint_less (all_alarms_state s)"
    and "find_alarm s i = Some m \<Longrightarrow> timer_index (sam_timer m) = i"
    and "find_alarm s i = Some m \<Longrightarrow> sam_severity m = UNDEFINED_SEVERITY \<or> alarm_defined E i (sam_severity m)"
    and "find_alarm s i \<noteq> None \<longleftrightarrow> alarm_known E i"
  using assms by (auto simp: managers_ok_def)

lemma known_alarm:
  assumes "managers_ok E s" and "alarm_known E i"
  obtains m where "find_alarm s i = Some m"
  using managers_okD(4) [OF assms(1), of i] assms(2) by auto

lemma sched_ok_known_alarm:
  assumes "sched_ok E valid s" and "alarm_known E i"
  obtains m where "find_alarm s i = Some m"
  using assms known_alarm unfolding sched_ok_def by metis

section \<open>What the scheduler relies on\<close>

locale sched_context = timer_heap "se_heap E" valid
  for E :: "('h, 'c) sched_env" and valid :: "pop_times \<Rightarrow> 'h \<Rightarrow> bool" +
  assumes table: "defs_ok (se_defs E)"
    and allocator: "malloc_fresh (ae_malloc (se_active E))"
begin

lemma in_heap_insert:
  "heap_ok E valid s \<Longrightarrow>
    in_heap E j (s\<lparr>alarm_heap := h_insert (se_heap E) (pop_times_of s) i (alarm_heap s)\<rparr>) \<longleftrightarrow>
      j = i \<or> in_heap E j s"
  by (simp add: heap_ok_def in_heap_def mem_insert)

text \<open>
  Giving a timer that is in the heap a new severity and pop time; \<open>s\<close> is the state with the timer
  inserted.
\<close>

lemma reschedule_ok:
  assumes ok: "managers_ok E s" and m: "find_alarm s i = Some m" and sev: "alarm_defined E i sev"
    and valid1: "valid (pop_times_of s) (alarm_heap s)" and mem_i: "in_heap E i s"
    and others: "\<And>j. in_heap E j s \<Longrightarrow> j \<noteq> i \<Longrightarrow>
      \<exists>m. find_alarm s j = Some m \<and> alarm_defined E j (timer_severity (sam_timer m))"
  obtains s' where "update_pop_time E now delay i (set_timer_severity sev i s) = Some s'"
    and "find_alarm s' = (find_alarm s)(i \<mapsto> m\<lparr>sam_timer :=
          (sam_timer m)\<lparr>timer_severity := sev, pop_time := now + delay\<rparr>\<rparr>)"
    and "\<And>j. in_heap E j s' \<longleftrightarrow> in_heap E j s"
    and "managers_ok E s'" and "heap_ok E valid s'"
    and "active s' = active s" and "informs s' = informs s" and "terminated s' = terminated s"
    and "heap_sender_state s' = heap_sender_state s"
proof -
  let ?m2 = "m\<lparr>sam_timer := (sam_timer m)\<lparr>timer_severity := sev\<rparr>\<rparr>"
  let ?m3 = "m\<lparr>sam_timer := (sam_timer m)\<lparr>timer_severity := sev, pop_time := now + delay\<rparr>\<rparr>"
  let ?s2 = "put_alarm i ?m2 s"
  let ?s3 = "put_alarm i ?m3 ?s2"
  let ?s4 = "?s3\<lparr>alarm_heap := h_rebalance (se_heap E) ((pop_times_of s)(i := now + delay)) i (alarm_heap s)\<rparr>"
  have timer: "timer_index (sam_timer m) = i" and cur: "sam_severity m = UNDEFINED_SEVERITY \<or>
      alarm_defined E i (sam_severity m)"
    using managers_okD(2,3) [OF ok m] by simp_all
  have man2: "managers_ok E ?s2" using managers_ok_put [OF ok, of i m ?m2] m timer cur by simp
  note map1 = managers_okD(1) [OF ok]
  have man3: "managers_ok E ?s3" using managers_ok_put [OF man2, of i ?m2 ?m3] map1 timer cur by simp
  note maps = map1 managers_okD(1) [OF man2] managers_okD(1) [OF man3]
  have mem: "h_mem (se_heap E) (alarm_heap s) i" using mem_i by (simp add: in_heap_def)
  have res: "update_pop_time E now delay i (set_timer_severity sev i s) = Some ?s4"
    using m mem maps by (simp add: set_timer_severity_def update_pop_time_def in_heap_def)
  have find4: "find_alarm ?s4 = (find_alarm s)(i \<mapsto> ?m3)" using maps by (simp add: fun_eq_iff)
  have pop4: "pop_times_of ?s4 = (pop_times_of s)(i := now + delay)" using maps by simp
  have mem4: "in_heap E j ?s4 \<longleftrightarrow> in_heap E j s" for j
    using mem_rebalance [OF valid1 mem] by (simp add: in_heap_def)
  have "managers_ok E ?s4" using man3 managers_ok_cong [of ?s4 ?s3 E] by simp
  moreover have "heap_ok E valid ?s4"
    unfolding heap_ok_def pop4 mem4 find4 using valid_rebalance [OF valid1 mem] others sev by auto
  ultimately show thesis using that [OF res] find4 mem4 by simp
qed

text \<open>
  Scheduling an alarm: the timer is in the heap afterwards, with the new severity; its pop time is
  renewed only if the severity it was last given is another one.
\<close>

lemma change_schedule_for_alarm_effect:
  assumes ok: "managers_ok E s" "heap_ok E valid s" and m: "find_alarm s i = Some m"
    and sev: "alarm_defined E i sev"
  obtains s' where "change_schedule_for_alarm E now i sev delay s = Some s'"
    and "find_alarm s' = (find_alarm s)(i \<mapsto> m\<lparr>sam_timer :=
          (if sev = timer_severity (sam_timer m) then sam_timer m
           else (sam_timer m)\<lparr>timer_severity := sev, pop_time := now + delay\<rparr>)\<rparr>)"
    and "\<And>j. in_heap E j s' \<longleftrightarrow> j = i \<or> in_heap E j s"
    and "managers_ok E s'" and "heap_ok E valid s'"
    and "active s' = active s" and "informs s' = informs s" and "terminated s' = terminated s"
    and "heap_sender_state s' = heap_sender_state s"
proof -
  let ?s1 = "s\<lparr>alarm_heap := h_insert (se_heap E) (pop_times_of s) i (alarm_heap s)\<rparr>"
  have valid1: "valid (pop_times_of ?s1) (alarm_heap ?s1)" using ok(2) by (simp add: heap_ok_def valid_insert)
  have mem1: "in_heap E j ?s1 \<longleftrightarrow> j = i \<or> in_heap E j s" for j using in_heap_insert [OF ok(2)] .
  have man1: "managers_ok E ?s1" using ok(1) managers_ok_cong [of ?s1 s E] by simp
  have m1: "find_alarm ?s1 i = Some m" using m by simp
  have others: "\<exists>m. find_alarm ?s1 j = Some m \<and> alarm_defined E j (timer_severity (sam_timer m))"
    if "in_heap E j ?s1" "j \<noteq> i" for j
    using that ok(2) mem1 by (simp add: heap_ok_def)
  show thesis
  proof (cases "sev = timer_severity (sam_timer m)")
    case True
    have "heap_ok E valid ?s1"
      using valid1 others m sev True unfolding heap_ok_def by (metis m1)
    moreover have "change_schedule_for_alarm E now i sev delay s = Some ?s1"
      using m True by (simp add: change_schedule_for_alarm_def change_schedule_def)
    ultimately show thesis
      using that [of ?s1] man1 mem1 m True by (simp add: fun_upd_idem)
  next
    case False
    obtain s' where s': "update_pop_time E now delay i (set_timer_severity sev i ?s1) = Some s'"
      "find_alarm s' = (find_alarm ?s1)(i \<mapsto> m\<lparr>sam_timer :=
          (sam_timer m)\<lparr>timer_severity := sev, pop_time := now + delay\<rparr>\<rparr>)"
      "\<And>j. in_heap E j s' \<longleftrightarrow> in_heap E j ?s1" "managers_ok E s'" "heap_ok E valid s'"
      "active s' = active ?s1" "informs s' = informs ?s1" "terminated s' = terminated ?s1"
      "heap_sender_state s' = heap_sender_state ?s1"
      using reschedule_ok [OF man1 m1 sev valid1 _ others, of now delay] mem1 by auto
    have "change_schedule_for_alarm E now i sev delay s = Some s'"
      using m1 False s'(1) by (simp add: change_schedule_for_alarm_def change_schedule_def)
    then show thesis using that [of s'] s' mem1 False by simp
  qed
qed

text \<open>The definition that a scheduled severity stands for.\<close>

lemma alarm_defined_def_of:
  assumes "alarm_defined E i sev"
  shows "alarm_index (get_definition (se_defs E) i (severity_value sev)) = i"
    and "severity (get_definition (se_defs E) i (severity_value sev)) = sev"
    and "get_definition (se_defs E) i (severity_value sev) \<in> set (all_definitions (se_defs E))"
proof -
  let ?d = "get_definition (se_defs E) i (severity_value sev)"
  have "lookup_def (se_defs E) i (severity_value sev) = Some ?d"
    using assms get_definition_valid_iff [OF table] by (simp add: alarm_defined_def)
  then show "alarm_index ?d = i" "severity ?d = sev" "?d \<in> set (all_definitions (se_defs E))"
    using lookup_def_Some [OF table] lookup_all_definitions [OF table] by fastforce+
qed

lemma definition_alarm_defined:
  assumes "d \<in> set (all_definitions (se_defs E))"
  shows "alarm_defined E (alarm_index d) (severity d)" and "alarm_known E (alarm_index d)"
proof -
  have look: "lookup_def (se_defs E) (alarm_index d) (severity_value (severity d)) = Some d"
    by (rule all_definitions_key [OF table assms])
  then have "is_valid d" using lookup_def_Some [OF table] by blast
  with look show "alarm_defined E (alarm_index d) (severity d)"
    by (simp add: alarm_defined_def get_definition_def)
  show "alarm_known E (alarm_index d)" using assms by (simp add: alarm_known_def)
qed

lemma alarm_defined_known: "alarm_defined E i sev \<Longrightarrow> alarm_known E i"
  using alarm_defined_def_of [of i sev] by (force simp: alarm_known_def)

text \<open>A valid trigger names a defined alarm and a severity that has an enumerator.\<close>

lemma validate_trigger_Some:
  assumes "validate_alarm_trigger (se_defs E) identifier = Some (index, n)"
  obtains sev where "severity_cast n = Some sev" and "alarm_defined E index sev"
proof -
  have valid: "is_valid (get_definition (se_defs E) index n)"
    using assms by (auto simp: validate_alarm_trigger_def split: option.splits if_splits)
  let ?d = "get_definition (se_defs E) index n"
  have "lookup_def (se_defs E) index n = Some ?d"
    using valid get_definition_valid_iff [OF table] by simp
  then have n: "n = severity_value (severity ?d)" using lookup_def_Some [OF table] by fastforce
  show thesis
  proof (rule that)
    show "severity_cast n = Some (severity ?d)" by (subst n) simp
    show "alarm_defined E index (severity ?d)"
      using valid n unfolding alarm_defined_def by simp
  qed
qed

section \<open>Every step keeps the invariant\<close>

lemma remove_outdated_effect:
  assumes ok: "sched_ok E valid s" and m: "find_alarm s i = Some m"
    and differs: "sam_severity m \<noteq> timer_severity (sam_timer m)"
  obtains s' where "remove_outdated_alarm_from_heap E i s = Some s'" and "sched_ok E valid s'"
    and "sender_ok E s'" and "find_alarm s' = find_alarm s" and "unsent s s'"
    and "\<And>j. in_heap E j s' \<longleftrightarrow> j \<noteq> i \<and> in_heap E j s"
proof -
  let ?s' = "cond_signal (s\<lparr>alarm_heap := h_remove (se_heap E) (pop_times_of s) i (alarm_heap s)\<rparr>)"
  have valid: "valid (pop_times_of s) (alarm_heap s)" using ok by (simp add: sched_ok_def heap_ok_def)
  have mem: "in_heap E j ?s' \<longleftrightarrow> j \<noteq> i \<and> in_heap E j s" for j
    using remove_same(2) [OF valid] by (simp add: in_heap_def)
  have "heap_ok E valid ?s'"
    unfolding heap_ok_def mem using ok remove_same(1) [OF valid] by (auto simp: sched_ok_def heap_ok_def)
  moreover have "managers_ok E ?s'"
    using ok managers_ok_cong [of ?s' s E] by (simp add: sched_ok_def)
  ultimately have ok': "sched_ok E valid ?s'" using ok by (simp add: sched_ok_def)
  show thesis
  proof (rule that [of ?s'])
    show "remove_outdated_alarm_from_heap E i s = Some ?s'"
      using m differs by (simp add: remove_outdated_alarm_from_heap_def)
    show "unsent s ?s'" by (simp add: unsent_def)
  qed (use ok' mem in simp_all)
qed

lemma remove_outdated_ok:
  assumes ok: "sched_ok E valid s" and known: "alarm_known E i"
  shows "\<exists>s'. remove_outdated_alarm_from_heap E i s = Some s' \<and> sched_ok E valid s' \<and>
      (sender_ok E s \<longrightarrow> sender_ok E s') \<and> unsent s s'"
proof -
  obtain m where m: "find_alarm s i = Some m" using sched_ok_known_alarm [OF ok known] .
  show ?thesis
  proof (cases "sam_severity m = timer_severity (sam_timer m)")
    case True
    with ok m show ?thesis by (simp add: remove_outdated_alarm_from_heap_def unsent_def)
  next
    case False
    with remove_outdated_effect [OF ok m] show ?thesis by metis
  qed
qed

lemma schedule_ok:
  assumes ok: "sched_ok E valid s" and sev: "alarm_defined E i sev"
  shows "\<exists>s'. change_schedule_for_alarm E now i sev delay s = Some s' \<and> sched_ok E valid s' \<and> unsent s s'"
proof -
  obtain m where m: "find_alarm s i = Some m"
    using sched_ok_known_alarm [OF ok alarm_defined_known [OF sev]] .
  have "managers_ok E s" "heap_ok E valid s" using ok by (simp_all add: sched_ok_def)
  from change_schedule_for_alarm_effect [OF this m sev, of now delay]
  obtain s' where s': "change_schedule_for_alarm E now i sev delay s = Some s'"
    and find: "find_alarm s' = (find_alarm s)(i \<mapsto> m\<lparr>sam_timer :=
          (if sev = timer_severity (sam_timer m) then sam_timer m
           else (sam_timer m)\<lparr>timer_severity := sev, pop_time := now + delay\<rparr>)\<rparr>)"
    and inv: "managers_ok E s'" "heap_ok E valid s'"
    and same: "active s' = active s" "informs s' = informs s" "terminated s' = terminated s" .
  have "unsent s s'" using same m by (simp add: unsent_def find)
  moreover have "sched_ok E valid s'" using inv same ok by (simp add: sched_ok_def)
  ultimately show ?thesis using s' by blast
qed

lemma unsent_signal: "unsent s s' \<Longrightarrow> unsent s (cond_signal s')"
  by (simp add: unsent_def)

lemma schedule_signal_ok:
  assumes "sched_ok E valid s" and "alarm_defined E i sev"
  shows "\<exists>s'. map_option cond_signal (change_schedule_for_alarm E now i sev delay s) = Some s' \<and>
    sched_ok E valid s' \<and> sender_ok E s' \<and> unsent s s'"
  using schedule_ok [OF assms, of now delay] unsent_signal by auto

lemma issue_alarm_ok:
  assumes ok: "sched_ok E valid s"
  shows "\<exists>s'. issue_alarm E now issuer identifier s = Some s' \<and> sched_ok E valid s' \<and>
      (sender_ok E s \<longrightarrow> sender_ok E s') \<and> unsent s s'"
proof (cases "validate_alarm_trigger (se_defs E) identifier")
  case None
  with ok show ?thesis by (simp add: issue_alarm_def unsent_def)
next
  case (Some p)
  obtain index n where p: "p = (index, n)" by (cases p)
  with Some obtain sev where cast: "severity_cast n = Some sev" and sev: "alarm_defined E index sev"
    using validate_trigger_Some by metis
  obtain m where m: "find_alarm s index = Some m"
    using sched_ok_known_alarm [OF ok alarm_defined_known [OF sev]] .
  let ?delay = "if se_severity_gt E sev (sam_severity m) then ALARM_INCREASED_DELAY else ALARM_REDUCED_DELAY"
  have "issue_alarm E now issuer identifier s =
      (if sev = sam_severity m then remove_outdated_alarm_from_heap E index s
       else map_option cond_signal (change_schedule_for_alarm E now index sev ?delay s))"
    using Some p cast m by (simp add: issue_alarm_def)
  then show ?thesis
    using remove_outdated_ok [OF ok alarm_defined_known [OF sev]] schedule_signal_ok [OF ok sev, of now ?delay]
    by auto
qed

lemma handle_failed_alarm_ok:
  assumes ok: "sched_ok E valid s" and d: "d \<in> set (all_definitions (se_defs E))"
  shows "\<exists>s'. handle_failed_alarm E now d s = Some s' \<and> sched_ok E valid s' \<and>
      (sender_ok E s \<longrightarrow> sender_ok E s') \<and> unsent s s'"
proof -
  obtain m where m: "find_alarm s (alarm_index d) = Some m"
    using sched_ok_known_alarm [OF ok definition_alarm_defined(2) [OF d]] .
  show ?thesis
  proof (cases "should_resend_alarm E (alarm_index d) (severity d) s")
    case True
    with m schedule_signal_ok [OF ok definition_alarm_defined(1) [OF d], of now ALARM_RETRY_DELAY]
    show ?thesis by (auto simp: handle_failed_alarm_def)
  next
    case False
    with ok m show ?thesis by (simp add: handle_failed_alarm_def unsent_def)
  qed
qed

lemma callback_ok:
  assumes ok: "sched_ok E valid s" and d: "d \<in> set (all_definitions (se_defs E))"
  shows "\<exists>s'. alarm_trap_send_callback E now op d s = Some s' \<and> sched_ok E valid s' \<and>
      (sender_ok E s \<longrightarrow> sender_ok E s') \<and> unsent s s'"
  using handle_failed_alarm_ok [OF assms, of now] ok
  by (cases op) (simp_all add: alarm_trap_send_callback_def unsent_def)

lemma unsent_trans: "unsent s s1 \<Longrightarrow> unsent s1 s2 \<Longrightarrow> unsent s s2"
  by (simp add: unsent_def)

lemma sync_loop_ok:
  "sched_ok E valid s \<Longrightarrow> (\<forall>i \<in> set is. alarm_known E i) \<Longrightarrow>
    \<exists>s'. sync_loop E now is s = Some s' \<and> sched_ok E valid s' \<and> unsent s s'"
proof (induction "is" arbitrary: s)
  case Nil
  then show ?case by (simp add: unsent_def)
next
  case (Cons i "is")
  obtain m where m: "find_alarm s i = Some m"
    using Cons.prems sched_ok_known_alarm [OF Cons.prems(1), of i] by auto
  show ?case
  proof (cases "sam_severity m = UNDEFINED_SEVERITY")
    case True
    with Cons m show ?thesis by simp
  next
    case False
    then have "alarm_defined E i (sam_severity m)"
      using Cons.prems(1) m managers_okD(3) by (fastforce simp: sched_ok_def)
    from schedule_ok [OF Cons.prems(1) this, of now ALARM_RESYNC_DELAY]
    obtain s1 where s1: "change_schedule_for_alarm E now i (sam_severity m) ALARM_RESYNC_DELAY s = Some s1"
      "sched_ok E valid s1" "unsent s s1" by blast
    from Cons.IH [OF s1(2)] Cons.prems(2) obtain s2 where
      "sync_loop E now is s1 = Some s2" "sched_ok E valid s2" "unsent s1 s2" by auto
    with s1 m False unsent_trans [of s s1 s2] show ?thesis by simp
  qed
qed

lemma keys_known: "managers_ok E s \<Longrightarrow> i \<in> fst ` set (all_alarms_state s) \<longleftrightarrow> alarm_known E i"
  using uint_map.find_None_iff [of "all_alarms_state s" i] managers_okD(1) [of E s] managers_okD(4) [of E s i]
  unfolding find_alarm_def by blast

lemma sync_alarms_ok:
  assumes "sched_ok E valid s"
  shows "\<exists>s'. sync_alarms E now s = Some s' \<and> sched_ok E valid s' \<and> sender_ok E s' \<and> unsent s s'"
proof -
  have "\<forall>i \<in> set (map fst (all_alarms_state s)). alarm_known E i"
    using assms keys_known by (auto simp: sched_ok_def)
  from sync_loop_ok [OF assms this, of now] show ?thesis
    using unsent_signal by (auto simp: sync_alarms_def)
qed

text \<open>The destructor ends the thread, which sends nothing more, and frees everything.\<close>

lemma delete_scheduler:
  assumes "sched_ok E valid s"
  shows "\<exists>s'. delete_AlarmScheduler fuel E clk now s = Some s' \<and> informs s' = informs s \<and>
    all_alarms_state s' = [] \<and> (\<forall>i. \<not> in_heap E i s')"
  using assms mem_clear [of "pop_times_of s" "alarm_heap s"]
  by (simp add: delete_AlarmScheduler_def heap_sender_round_def terminate_scheduler_def cond_signal_def
      free_scheduler_def in_heap_def sched_ok_def heap_ok_def)

end

end
