(* ===== verification/Scheduler_Sender.thy ===== *)
theory Scheduler_Sender
  imports Scheduler_Inv
begin

text \<open>
  The heap-sender thread of the alarm scheduler: what one round sends, that the round ends, and that
  the state it leaves and the instant it sleeps until are right.  The results about single steps are
  then put together for every reachable state.
\<close>

section \<open>What a round is to send\<close>

text \<open>The alarms that are due, and the definition that each of them is waiting to send.\<close>

definition due_alarms :: "('h, 'c) sched_env \<Rightarrow> u64 \<Rightarrow> ('h, 'c) scheduler \<Rightarrow> u32 set" where
  "due_alarms E now s = {i. in_heap E i s \<and> pop_times_of s i \<le> now}"

definition waiting_def :: "('h, 'c) sched_env \<Rightarrow> ('h, 'c) scheduler \<Rightarrow> u32 \<Rightarrow> AlarmTableDef" where
  "waiting_def E s i =
     (case find_alarm s i of
        None \<Rightarrow> invalid_def (se_defs E)
      | Some m \<Rightarrow> get_definition (se_defs E) i (severity_value (timer_severity (sam_timer m))))"

definition sent_informs :: "('h, 'c) sched_env \<Rightarrow> AlarmTableDef list \<Rightarrow> inform list" where
  "sent_informs E ds = concat (map (\<lambda>d. case send_trap (se_sender E) d of None \<Rightarrow> [] | Some infs \<Rightarrow> infs) ds)"

text \<open>The manager of alarm \<open>i\<close> once its waiting severity has been sent.\<close>

definition sent_manager :: "u32 \<Rightarrow> SingleAlarmManager \<Rightarrow> SingleAlarmManager" where
  "sent_manager i m =
     \<lparr>sam_timer = new_AlarmTimer i, sam_severity = timer_severity (sam_timer m)\<rparr>"

text \<open>The state after the alarms \<open>is\<close> of \<open>s\<close> have been sent, in that order.\<close>

definition alarms_sent ::
  "('h, 'c) sched_env \<Rightarrow> (u32 \<Rightarrow> local_time) \<Rightarrow> u32 list \<Rightarrow> ('h, 'c) scheduler \<Rightarrow> ('h, 'c) scheduler \<Rightarrow> bool" where
  "alarms_sent E clk is s s' \<longleftrightarrow>
     informs s' = informs s @ sent_informs E (map (waiting_def E s) is) \<and>
     run_traps (se_active E) (map (\<lambda>i. (clk i, waiting_def E s i)) is) (active s) = Some (active s') \<and>
     (\<forall>j. find_alarm s' j = (if j \<in> set is then map_option (sent_manager j) (find_alarm s j) else find_alarm s j)) \<and>
     (\<forall>j. in_heap E j s' \<longleftrightarrow> in_heap E j s \<and> j \<notin> set is) \<and>
     terminated s' = terminated s"

definition earlier :: "('h, 'c) scheduler \<Rightarrow> u32 \<Rightarrow> u32 \<Rightarrow> bool" where
  "earlier s i j \<longleftrightarrow> pop_times_of s i \<le> pop_times_of s j"

section \<open>Time and construction\<close>

lemma millis_timespec: "millis (timespec_of t) = t"
proof -
  have small: "unat (t mod 1000) < 1000"
    using word_mod_less_divisor [of 1000 t] by (simp add: word_less_nat_alt)
  have "unat ((t mod 1000) * 1000000) = unat (t mod 1000) * 1000000"
    using small by (subst unat_mult_lem [THEN iffD1]) (simp_all)
  then have "(t mod 1000) * 1000000 div 1000000 = t mod 1000"
    by (simp add: word_unat_eq_iff unat_div)
  then show ?thesis by (simp add: millis_def timespec_of_def word_mod_div_equality)
qed

text \<open>The constructor makes one manager for every alarm index of the definition table.\<close>

lemma find_populate:
  "map_ok uint_less m \<Longrightarrow> map_ok uint_less (populate_states ds m)"
  "map_ok uint_less m \<Longrightarrow> map_find uint_less i (populate_states ds m) =
     (case map_find uint_less i m of
        Some x \<Rightarrow> Some x
      | None \<Rightarrow> if i \<in> alarm_index ` set ds
                then Some \<lparr>sam_timer = new_AlarmTimer i, sam_severity = UNDEFINED_SEVERITY\<rparr> else None)"
proof (induction ds arbitrary: m)
  case Nil
  { case 1 then show ?case by simp }
  { case 2 then show ?case by (simp split: option.split) }
next
  case (Cons d ds)
  { case 1 then show ?case using Cons.IH(1) by (simp add: uint_map.ok_emplace split: option.split) }
  { case 2 then show ?case
      by (cases "map_find uint_less (alarm_index d) m")
        (auto simp: Cons.IH(2) uint_map.ok_emplace uint_map.find_emplace split: option.splits) }
qed

section \<open>One alarm\<close>

context sched_context
begin

lemma in_heap_manager:
  assumes "sched_ok E valid s" and "in_heap E i s"
  obtains m where "find_alarm s i = Some m" and "alarm_defined E i (timer_severity (sam_timer m))"
    and "timer_index (sam_timer m) = i"
  using assms managers_okD(2) [of E s i] by (force simp: sched_ok_def heap_ok_def)

lemma update_alarm_state_effect:
  assumes ok: "sched_ok E valid s" and m: "find_alarm s i = Some m"
    and sev: "alarm_defined E i (severity d)"
  obtains s' where "update_alarm_state E lt i d s = Some s'"
    and "find_alarm s' = (find_alarm s)(i \<mapsto> m\<lparr>sam_severity := severity d\<rparr>)"
    and "alarmActiveTable_trap_handler (se_active E) lt d (active s) = Some (active s')"
    and "alarm_heap s' = alarm_heap s" and "informs s' = informs s" and "terminated s' = terminated s"
    and "sched_ok E valid s'"
proof -
  have man: "managers_ok E s" and heap: "heap_ok E valid s" and rows: "rows_ok (active s)"
    using ok by (simp_all add: sched_ok_def)
  let ?s1 = "put_alarm i (m\<lparr>sam_severity := severity d\<rparr>) s"
  from trap_handler_rows_ok [OF rows allocator, of lt d] obtain t where
    t: "alarmActiveTable_trap_handler (se_active E) lt d (active s) = Some t" "rows_ok t" by blast
  let ?s2 = "?s1\<lparr>active := t\<rparr>"
  have find1: "find_alarm ?s2 = (find_alarm s)(i \<mapsto> m\<lparr>sam_severity := severity d\<rparr>)"
    using managers_okD(1) [OF man] by (simp add: fun_eq_iff)
  have pop1: "pop_times_of ?s2 = pop_times_of s"
    using managers_okD(1) [OF man] m by (simp add: fun_eq_iff pop_times_of_def)
  have "managers_ok E ?s1"
    using managers_ok_put [OF man m] managers_okD(2) [OF man m] sev by simp
  then have "managers_ok E ?s2" using managers_ok_cong [of ?s2 ?s1 E] by simp
  moreover have "heap_ok E valid ?s2"
    using heap m unfolding heap_ok_def find1 pop1 by (auto simp: in_heap_def)
  ultimately have "sched_ok E valid ?s2" using t by (simp add: sched_ok_def)
  then show thesis
    using that [of ?s2] t m find1 by (simp add: update_alarm_state_def Let_def)
qed

lemma remove_from_heap_effect:
  assumes ok: "sched_ok E valid s" and m: "find_alarm s i = Some m" and mem: "in_heap E i s"
  obtains s' where "remove_from_heap E i s = Some s'"
    and "find_alarm s' = (find_alarm s)(i \<mapsto> m\<lparr>sam_timer := new_AlarmTimer i\<rparr>)"
    and "\<And>j. in_heap E j s' \<longleftrightarrow> j \<noteq> i \<and> in_heap E j s"
    and "active s' = active s" and "informs s' = informs s" and "terminated s' = terminated s"
    and "sched_ok E valid s'"
proof -
  have man: "managers_ok E s" and heap: "heap_ok E valid s"
    using ok by (simp_all add: sched_ok_def)
  have timer: "timer_index (sam_timer m) = i" using managers_okD(2) [OF man m] .
  have timer_eq: "(sam_timer m)\<lparr>pop_time := UINT64_MAX, timer_severity := UNDEFINED_SEVERITY\<rparr> = new_AlarmTimer i"
    using timer by (simp add: new_AlarmTimer_def)
  let ?m = "m\<lparr>sam_timer := new_AlarmTimer i\<rparr>"
  let ?s1 = "put_alarm i ?m s"
  let ?s2 = "?s1\<lparr>alarm_heap := h_remove (se_heap E) (pop_times_of ?s1) i (alarm_heap s)\<rparr>"
  have valid0: "valid (pop_times_of s) (alarm_heap s)" using heap by (simp add: heap_ok_def)
  have pop1: "pop_times_of ?s1 = (pop_times_of s)(i := UINT64_MAX)"
    using managers_okD(1) [OF man] by (simp add: new_AlarmTimer_def)
  have find2: "find_alarm ?s2 = (find_alarm s)(i \<mapsto> ?m)"
    using managers_okD(1) [OF man] by (simp add: fun_eq_iff)
  have mem2: "in_heap E j ?s2 \<longleftrightarrow> j \<noteq> i \<and> in_heap E j s" for j
    using mem_remove [OF valid0] by (simp add: in_heap_def pop1)
  have res: "remove_from_heap E i s = Some ?s2"
    using m mem timer_eq by (simp add: remove_from_heap_def Let_def in_heap_def)
  have "managers_ok E ?s1"
    using managers_ok_put [OF man m] managers_okD(3) [OF man m] by (simp add: new_AlarmTimer_def)
  then have "managers_ok E ?s2" using managers_ok_cong [of ?s2 ?s1 E] by simp
  moreover have "valid (pop_times_of ?s2) (alarm_heap ?s2)"
    using valid_remove [OF valid0] by (simp add: pop1)
  then have "heap_ok E valid ?s2"
    using heap unfolding heap_ok_def find2 mem2 by auto
  ultimately have "sched_ok E valid ?s2" using ok by (simp add: sched_ok_def)
  then show thesis using that [OF res find2] mem2 by simp
qed

lemma pop_alarm_effect:
  assumes ok: "sched_ok E valid s" and mem: "in_heap E i s"
  obtains s' where "pop_alarm E clk i s = Some s'" and "sched_ok E valid s'"
    and "alarms_sent E clk [i] s s'"
proof -
  obtain m where m: "find_alarm s i = Some m" and sev: "alarm_defined E i (timer_severity (sam_timer m))"
    and idx: "timer_index (sam_timer m) = i"
    using in_heap_manager [OF ok mem] .
  let ?d = "get_definition (se_defs E) i (severity_value (timer_severity (sam_timer m)))"
  have d: "waiting_def E s i = ?d" by (simp add: waiting_def_def m)
  have dsev: "severity ?d = timer_severity (sam_timer m)" and dvalid: "is_valid ?d"
    using alarm_defined_def_of(2) [OF sev] sev by (simp_all add: alarm_defined_def)
  obtain infs where infs: "send_trap (se_sender E) ?d = Some infs" by (rule send_trap_total)
  let ?s1 = "s\<lparr>informs := informs s @ infs\<rparr>"
  have "sched_ok E valid ?s1" "find_alarm ?s1 i = Some m" "alarm_defined E i (severity ?d)"
    using ok m sev dsev by simp_all
  from update_alarm_state_effect [OF this, of "clk i"] obtain s2 where
    s2: "update_alarm_state E (clk i) i ?d ?s1 = Some s2"
      "find_alarm s2 = (find_alarm ?s1)(i \<mapsto> m\<lparr>sam_severity := severity ?d\<rparr>)"
      "alarmActiveTable_trap_handler (se_active E) (clk i) ?d (active ?s1) = Some (active s2)"
      "alarm_heap s2 = alarm_heap ?s1" "informs s2 = informs ?s1" "terminated s2 = terminated ?s1"
      "sched_ok E valid s2" .
  have mem2: "in_heap E j s2 \<longleftrightarrow> in_heap E j s" for j using s2(4) by (simp add: in_heap_def)
  have find2: "find_alarm s2 i = Some (m\<lparr>sam_severity := severity ?d\<rparr>)" using s2(2) by simp
  have in2: "in_heap E i s2" using mem mem2 by simp
  from remove_from_heap_effect [OF s2(7) find2 in2] obtain s3 where
    s3: "remove_from_heap E i s2 = Some s3"
      "find_alarm s3 = (find_alarm s2)(i \<mapsto> (m\<lparr>sam_severity := severity ?d\<rparr>)\<lparr>sam_timer := new_AlarmTimer i\<rparr>)"
      "\<And>j. in_heap E j s3 \<longleftrightarrow> j \<noteq> i \<and> in_heap E j s2"
      "active s3 = active s2" "informs s3 = informs s2" "terminated s3 = terminated s2"
      "sched_ok E valid s3" by blast
  show thesis
  proof (rule that [OF _ s3(7)])
    show "pop_alarm E clk i s = Some s3"
      using m idx dvalid infs s2(1) s3(1) by (simp add: pop_alarm_def Let_def)
    show "alarms_sent E clk [i] s s3"
      using s2 s3 m mem2 infs dsev
      by (auto simp: alarms_sent_def d sent_informs_def sent_manager_def)
  qed
qed

section \<open>One round\<close>

lemma alarms_sent_Nil: "alarms_sent E clk [] s s"
  by (simp add: alarms_sent_def sent_informs_def)

lemma alarms_sent_Cons:
  assumes one: "alarms_sent E clk [i] s s1" and rest: "alarms_sent E clk is s1 s2" and new: "i \<notin> set is"
  shows "alarms_sent E clk (i # is) s s2"
proof -
  have find1: "find_alarm s1 j = (if j = i then map_option (sent_manager j) (find_alarm s j) else find_alarm s j)" for j
    using one by (simp add: alarms_sent_def)
  then have same: "waiting_def E s1 j = waiting_def E s j" if "j \<in> set is" for j
    using that new by (auto simp: waiting_def_def)
  have maps: "map (waiting_def E s1) is = map (waiting_def E s) is"
    "map (\<lambda>j. (clk j, waiting_def E s1 j)) is = map (\<lambda>j. (clk j, waiting_def E s j)) is"
    using same by simp_all
  have "run_traps (se_active E) (map (\<lambda>i. (clk i, waiting_def E s i)) (i # is)) (active s) = Some (active s2)"
    using one rest maps by (auto simp: alarms_sent_def split: option.splits)
  moreover have "informs s2 = informs s @ sent_informs E (map (waiting_def E s) (i # is))"
    using one rest maps by (simp add: alarms_sent_def sent_informs_def)
  moreover have "find_alarm s2 j =
      (if j \<in> set (i # is) then map_option (sent_manager j) (find_alarm s j) else find_alarm s j)" for j
    using rest find1 new by (simp add: alarms_sent_def)
  ultimately show ?thesis using one rest by (auto simp: alarms_sent_def)
qed

lemma pop_times_sent:
  "alarms_sent E clk is s s' \<Longrightarrow> j \<notin> set is \<Longrightarrow> pop_times_of s' j = pop_times_of s j"
  by (simp add: alarms_sent_def pop_times_of_def)

lemma due_after_sent:
  assumes "alarms_sent E clk is s s'"
  shows "due_alarms E now s' = due_alarms E now s - set is"
  using assms pop_times_sent [OF assms] by (auto simp: due_alarms_def alarms_sent_def)

lemma due_managed:
  assumes ok: "sched_ok E valid s"
  shows "due_alarms E now s \<subseteq> fst ` set (all_alarms_state s)"
proof
  fix i assume "i \<in> due_alarms E now s"
  then obtain m where "find_alarm s i = Some m"
    using in_heap_manager [OF ok, of i] by (auto simp: due_alarms_def)
  then have "alarm_known E i" using ok managers_okD(4) [of E s i] by (simp add: sched_ok_def)
  then show "i \<in> fst ` set (all_alarms_state s)" using ok keys_known [of s i] by (simp add: sched_ok_def)
qed

lemma finite_due: "sched_ok E valid s \<Longrightarrow> finite (due_alarms E now s)"
  by (rule finite_subset [OF due_managed]) simp_all

lemma card_due:
  assumes ok: "sched_ok E valid s"
  shows "card (due_alarms E now s) \<le> length (all_alarms_state s)"
proof -
  have "card (due_alarms E now s) \<le> card (set (map fst (all_alarms_state s)))"
    using due_managed [OF ok, of now] by (intro card_mono) simp_all
  also have "\<dots> \<le> length (map fst (all_alarms_state s))" by (rule card_length)
  finally show ?thesis by simp
qed

text \<open>The first timer of the heap is the earliest, so that a timer that is not due ends the round.\<close>

lemma next_due:
  assumes ok: "sched_ok E valid s" and "h_next (se_heap E) (alarm_heap s) = Some i"
  shows "in_heap E i s" and "\<And>j. in_heap E j s \<Longrightarrow> pop_times_of s i \<le> pop_times_of s j"
  using ok next_Some [OF _ assms(2)] by (auto simp: sched_ok_def heap_ok_def in_heap_def)

lemma no_next:
  assumes "sched_ok E valid s" and "h_next (se_heap E) (alarm_heap s) = None"
  shows "\<not> in_heap E i s"
  using assms next_None by (auto simp: sched_ok_def heap_ok_def in_heap_def)

lemma heap_sender_due_sends:
  "sched_ok E valid s \<Longrightarrow> heap_sender_due fuel E clk now s = Some s' \<Longrightarrow>
    sched_ok E valid s' \<and>
    (\<exists>is. distinct is \<and> set is = due_alarms E now s \<and> sorted_wrt (earlier s) is \<and> alarms_sent E clk is s s')"
proof (induction fuel arbitrary: s)
  case 0
  then show ?case by simp
next
  case (Suc fuel)
  note ok = Suc.prems(1)
  show ?case
  proof (cases "\<exists>i. h_next (se_heap E) (alarm_heap s) = Some i \<and> pop_times_of s i \<le> now")
    case False
    then have "s' = s" using Suc.prems(2) by (auto split: option.splits)
    moreover have "due_alarms E now s = {}"
      using False next_due(2) [OF ok] no_next [OF ok]
      by (cases "h_next (se_heap E) (alarm_heap s)") (auto simp: due_alarms_def intro: order_trans)
    ultimately show ?thesis using ok alarms_sent_Nil by (auto intro!: exI [of _ "[]"])
  next
    case True
    then obtain i where i: "h_next (se_heap E) (alarm_heap s) = Some i" "pop_times_of s i \<le> now" by blast
    note first = next_due [OF ok i(1)]
    obtain s1 where s1: "pop_alarm E clk i s = Some s1" "sched_ok E valid s1" "alarms_sent E clk [i] s s1"
      using pop_alarm_effect [OF ok first(1)] .
    have "heap_sender_due fuel E clk now s1 = Some s'" using Suc.prems(2) i s1(1) by simp
    from Suc.IH [OF s1(2) this] obtain "is" where
      "is": "distinct is" "set is = due_alarms E now s1" "sorted_wrt (earlier s1) is" "alarms_sent E clk is s1 s'"
      and ok': "sched_ok E valid s'" by blast
    have set: "set is = due_alarms E now s - {i}" using "is"(2) due_after_sent [OF s1(3), of now] by simp
    have "i \<in> due_alarms E now s" using first(1) i(2) by (simp add: due_alarms_def)
    moreover have "sorted_wrt (earlier s) is"
      by (rule sorted_wrt_mono_rel [OF _ "is"(3)]) (use set pop_times_sent [OF s1(3)] in \<open>auto simp: earlier_def\<close>)
    moreover have "earlier s i j" if "j \<in> set is" for j
      using that set first(2) by (simp add: earlier_def due_alarms_def)
    ultimately show ?thesis
      using ok' "is"(1) set alarms_sent_Cons [OF s1(3) "is"(4)]
      by (intro conjI exI [of _ "i # is"]) auto
  qed
qed

lemma heap_sender_due_ends:
  "sched_ok E valid s \<Longrightarrow> card (due_alarms E now s) < fuel \<Longrightarrow>
    \<exists>s'. heap_sender_due fuel E clk now s = Some s'"
proof (induction fuel arbitrary: s)
  case 0
  then show ?case by simp
next
  case (Suc fuel)
  note ok = Suc.prems(1)
  show ?case
  proof (cases "\<exists>i. h_next (se_heap E) (alarm_heap s) = Some i \<and> pop_times_of s i \<le> now")
    case False
    then show ?thesis by (auto split: option.splits)
  next
    case True
    then obtain i where i: "h_next (se_heap E) (alarm_heap s) = Some i" "pop_times_of s i \<le> now" by blast
    have mem: "in_heap E i s" by (rule next_due(1) [OF ok i(1)])
    obtain s1 where s1: "pop_alarm E clk i s = Some s1" "sched_ok E valid s1" "alarms_sent E clk [i] s s1"
      using pop_alarm_effect [OF ok mem] .
    have "i \<in> due_alarms E now s" using mem i(2) by (simp add: due_alarms_def)
    then have "card (due_alarms E now s1) < card (due_alarms E now s)"
      using due_after_sent [OF s1(3), of now] card_Diff1_less [OF finite_due [OF ok]] by simp
    then have "\<exists>s'. heap_sender_due fuel E clk now s1 = Some s'"
      using Suc.IH [OF s1(2)] Suc.prems(2) by simp
    then show ?thesis using i s1(1) by simp
  qed
qed

lemma wait_sender_ok:
  assumes "sched_ok E valid s"
  shows "sched_ok E valid (heap_sender_wait E s)" and "sender_ok E (heap_sender_wait E s)"
proof -
  show "sched_ok E valid (heap_sender_wait E s)" using assms by (simp add: heap_sender_wait_def)
  show "sender_ok E (heap_sender_wait E s)"
    using no_next [OF assms] next_due(2) [OF assms]
    by (auto simp: sender_ok_def heap_sender_wait_def in_heap_def millis_timespec split: option.split)
qed

lemma round_ok:
  assumes "sched_ok E valid s" and "sender_ok E s" and "heap_sender_round fuel E clk now s = Some s'"
  shows "sched_ok E valid s' \<and> sender_ok E s'"
  using assms wait_sender_ok heap_sender_due_sends [OF assms(1), of fuel clk now]
  by (auto simp: heap_sender_round_def split: if_splits)

section \<open>Reachable states\<close>

lemma initial_find:
  "find_alarm (new_AlarmScheduler E t) i =
     (if alarm_known E i
      then Some \<lparr>sam_timer = new_AlarmTimer i, sam_severity = UNDEFINED_SEVERITY\<rparr> else None)"
  using find_populate(2) [of "[]" i "all_definitions (se_defs E)"]
  by (simp add: new_AlarmScheduler_def find_alarm_def alarm_known_def)

lemma initial_ok:
  assumes "rows_ok t"
  shows "sched_ok E valid (new_AlarmScheduler E t)" and "sender_ok E (new_AlarmScheduler E t)"
proof -
  have "map_ok uint_less (all_alarms_state (new_AlarmScheduler E t))"
    using find_populate(1) [of "[]"] by (simp add: new_AlarmScheduler_def)
  then have "managers_ok E (new_AlarmScheduler E t)"
    by (auto simp: managers_ok_def initial_find new_AlarmTimer_def)
  moreover have "heap_ok E valid (new_AlarmScheduler E t)"
    by (simp add: heap_ok_def in_heap_def new_AlarmScheduler_def mem_new valid_new)
  ultimately show "sched_ok E valid (new_AlarmScheduler E t)"
    using assms by (simp add: sched_ok_def new_AlarmScheduler_def)
  show "sender_ok E (new_AlarmScheduler E t)"
    by (simp add: sender_ok_def new_AlarmScheduler_def)
qed

lemma terminate_ok: "sched_ok E valid s \<Longrightarrow> sched_ok E valid (terminate_scheduler s) \<and> sender_ok E (terminate_scheduler s)"
  using sched_ok_cong [of "s\<lparr>terminated := True\<rparr>" s E valid] by (simp add: terminate_scheduler_def)

lemma sched_step_ok:
  assumes "sched_step E now s s'" and ok: "sched_ok E valid s" "sender_ok E s"
  shows "sched_ok E valid s' \<and> sender_ok E s'"
  using assms(1)
proof cases
  case (issue issuer ident)
  with issue_alarm_ok [OF ok(1), of now issuer ident] ok(2) show ?thesis by auto
next
  case sync
  with sync_alarms_ok [OF ok(1), of now] show ?thesis by auto
next
  case (report d oper)
  with callback_ok [OF ok(1), of d now oper] ok(2) show ?thesis by auto
next
  case (round fuel clk)
  with round_ok [OF ok] show ?thesis by auto
next
  case stop
  with terminate_ok [OF ok(1)] show ?thesis by simp
qed

lemma sched_reachable_ok:
  assumes "sched_reachable E t s" and "rows_ok t"
  shows "sched_ok E valid s \<and> sender_ok E s"
  using assms(1)
proof induction
  case start
  with initial_ok [OF assms(2)] show ?case by simp
next
  case (step s now s')
  with sched_step_ok show ?case by blast
qed

end

end
