(* ===== verification/Scheduler_Timing.thy ===== *)
theory Scheduler_Timing
  imports Scheduler_Sender
begin

text \<open>
  When alarms are sent: an invariant on the pop times of the timers under a clock that does not go
  backwards, and the effect of the scheduler's entry points on the schedule of one alarm.
\<close>

section \<open>Pop times\<close>

text \<open>
  A timer that has been given a severity pops within the longest delay, and at once when that
  severity is an increase.
\<close>

definition timer_ok :: "('h, 'c) sched_env \<Rightarrow> u64 \<Rightarrow> SingleAlarmManager \<Rightarrow> bool" where
  "timer_ok E now m \<longleftrightarrow>
     timer_severity (sam_timer m) \<noteq> UNDEFINED_SEVERITY \<longrightarrow>
       pop_time (sam_timer m) \<le> now + ALARM_REDUCED_DELAY \<and>
       (se_severity_gt E (timer_severity (sam_timer m)) (sam_severity m) \<and>
        timer_severity (sam_timer m) \<noteq> sam_severity m \<longrightarrow> pop_time (sam_timer m) \<le> now)"

definition timers_ok :: "('h, 'c) sched_env \<Rightarrow> u64 \<Rightarrow> ('h, 'c) scheduler \<Rightarrow> bool" where
  "timers_ok E now s \<longleftrightarrow> (\<forall>i m. find_alarm s i = Some m \<longrightarrow> timer_ok E now m)"

text \<open>The clock is far enough from the end of its range for the delays not to wrap around.\<close>

definition clock_ok :: "u64 \<Rightarrow> bool" where
  "clock_ok now \<longleftrightarrow> now \<le> UINT64_MAX - ALARM_REDUCED_DELAY"

lemma clock_ok_add:
  assumes "clock_ok now" and "delay \<le> ALARM_REDUCED_DELAY"
  shows "unat (now + delay) = unat now + unat delay"
proof -
  have "unat now \<le> 18446744073709551615 - 30000" and "unat delay \<le> 30000"
    using assms by (simp_all add: clock_ok_def UINT64_MAX_def ALARM_REDUCED_DELAY_def word_le_nat_alt)
  then show ?thesis by (intro unat_add_lem [THEN iffD1]) simp
qed

lemma clock_ok_mono: "clock_ok now' \<Longrightarrow> now \<le> now' \<Longrightarrow> clock_ok now"
  by (auto simp: clock_ok_def)

lemma clock_le_add: "clock_ok now \<Longrightarrow> delay \<le> ALARM_REDUCED_DELAY \<Longrightarrow> now \<le> now + delay"
  using clock_ok_add [of now delay] by (simp add: word_le_nat_alt)

lemma clock_add_mono:
  assumes "clock_ok now'" and "now \<le> now'" and "delay \<le> delay'" and "delay' \<le> ALARM_REDUCED_DELAY"
  shows "now + delay \<le> now' + delay'"
  using assms clock_ok_add [of now delay] clock_ok_add [of now' delay'] clock_ok_mono [of now' now]
  by (auto simp: word_le_nat_alt)

lemma timer_ok_mono: "timer_ok E now m \<Longrightarrow> now \<le> now' \<Longrightarrow> clock_ok now' \<Longrightarrow> timer_ok E now' m"
  using clock_add_mono [of now' now ALARM_REDUCED_DELAY ALARM_REDUCED_DELAY]
  by (auto simp: timer_ok_def)

lemma timers_ok_mono: "timers_ok E now s \<Longrightarrow> now \<le> now' \<Longrightarrow> clock_ok now' \<Longrightarrow> timers_ok E now' s"
  by (auto simp: timers_ok_def intro: timer_ok_mono)

lemma timer_ok_reset: "timer_severity (sam_timer m) = UNDEFINED_SEVERITY \<Longrightarrow> timer_ok E now m"
  by (simp add: timer_ok_def)

text \<open>Giving a timer a severity with the delay that goes with it.\<close>

lemma timer_ok_schedule:
  assumes "clock_ok now" and "timer_ok E now m" and "delay \<le> ALARM_REDUCED_DELAY"
    and "se_severity_gt E sev (sam_severity m) \<Longrightarrow> sev \<noteq> sam_severity m \<Longrightarrow> delay = 0"
  shows "timer_ok E now (m\<lparr>sam_timer :=
    (if sev = timer_severity (sam_timer m) then sam_timer m
     else (sam_timer m)\<lparr>timer_severity := sev, pop_time := now + delay\<rparr>)\<rparr>)"
  using assms clock_add_mono [OF assms(1) order_refl assms(3) order_refl]
  by (auto simp: timer_ok_def)

lemma timers_ok_signal [simp]: "timers_ok E now (cond_signal s) = timers_ok E now s"
  by (simp add: timers_ok_def)

text \<open>The manager that synchronisation at time \<open>now\<close> leaves.\<close>

definition synced_manager :: "u64 \<Rightarrow> SingleAlarmManager \<Rightarrow> SingleAlarmManager" where
  "synced_manager now m =
     (if sam_severity m = UNDEFINED_SEVERITY \<or> sam_severity m = timer_severity (sam_timer m) then m
      else m\<lparr>sam_timer := (sam_timer m)\<lparr>timer_severity := sam_severity m, pop_time := now\<rparr>\<rparr>)"

text \<open>The manager that a lowering request at time \<open>now\<close> leaves: its timer keeps its time if it has the severity already.\<close>

definition lowered_manager :: "u64 \<Rightarrow> Severity \<Rightarrow> SingleAlarmManager \<Rightarrow> SingleAlarmManager" where
  "lowered_manager now sev m =
     (if timer_severity (sam_timer m) = sev then m
      else m\<lparr>sam_timer := (sam_timer m)\<lparr>timer_severity := sev, pop_time := now + 30000\<rparr>\<rparr>)"

text \<open>Any number of rounds of the heap-sender thread, at any times.\<close>

definition sender_rounds :: "('h, 'c) sched_env \<Rightarrow> ('h, 'c) scheduler \<Rightarrow> ('h, 'c) scheduler \<Rightarrow> bool" where
  "sender_rounds E = (\<lambda>s s'. \<exists>fuel clk now. heap_sender_round fuel E clk now s = Some s')\<^sup>*\<^sup>*"

context sched_context
begin

lemma schedule_timers_ok:
  assumes ok: "sched_ok E valid s" "timers_ok E now s" and sev: "alarm_defined E i sev"
    and m: "find_alarm s i = Some m" and delay: "clock_ok now" "delay \<le> ALARM_REDUCED_DELAY"
    and at_once: "se_severity_gt E sev (sam_severity m) \<Longrightarrow> sev \<noteq> sam_severity m \<Longrightarrow> delay = 0"
    and s': "change_schedule_for_alarm E now i sev delay s = Some s'"
  shows "timers_ok E now s'"
proof -
  have "managers_ok E s" "heap_ok E valid s" using ok(1) by (simp_all add: sched_ok_def)
  from change_schedule_for_alarm_effect [OF this m sev, of now delay] s'
  have find: "find_alarm s' = (find_alarm s)(i \<mapsto> m\<lparr>sam_timer :=
        (if sev = timer_severity (sam_timer m) then sam_timer m
         else (sam_timer m)\<lparr>timer_severity := sev, pop_time := now + delay\<rparr>)\<rparr>)"
    by (metis option.inject)
  have "timer_ok E now m" using ok(2) m by (simp add: timers_ok_def)
  then have "timer_ok E now (m\<lparr>sam_timer :=
      (if sev = timer_severity (sam_timer m) then sam_timer m
       else (sam_timer m)\<lparr>timer_severity := sev, pop_time := now + delay\<rparr>)\<rparr>)"
    by (intro timer_ok_schedule delay at_once)
  with ok(2) show ?thesis unfolding timers_ok_def find by auto
qed

lemma delays_small:
  "ALARM_INCREASED_DELAY \<le> ALARM_REDUCED_DELAY" "ALARM_RETRY_DELAY \<le> ALARM_REDUCED_DELAY"
  "ALARM_RESYNC_DELAY \<le> ALARM_REDUCED_DELAY"
  by (simp_all add: ALARM_INCREASED_DELAY_def ALARM_REDUCED_DELAY_def ALARM_RETRY_DELAY_def
      ALARM_RESYNC_DELAY_def)

lemma issue_timers_ok:
  assumes ok: "sched_ok E valid s" "timers_ok E now s" and clock: "clock_ok now"
    and s': "issue_alarm E now issuer ident s = Some s'"
  shows "timers_ok E now s'"
proof (cases "validate_alarm_trigger (se_defs E) ident")
  case None
  with ok s' show ?thesis by (simp add: issue_alarm_def)
next
  case (Some p)
  obtain index n where p: "p = (index, n)" by (cases p)
  with Some obtain sev where cast: "severity_cast n = Some sev" and sev: "alarm_defined E index sev"
    using validate_trigger_Some by metis
  obtain m where m: "find_alarm s index = Some m"
    using sched_ok_known_alarm [OF ok(1) alarm_defined_known [OF sev]] .
  note sched = schedule_timers_ok [OF ok sev m clock]
  consider (same) "sev = sam_severity m" "remove_outdated_alarm_from_heap E index s = Some s'"
    | (increase) s1 where "se_severity_gt E sev (sam_severity m)" "s' = cond_signal s1"
        "change_schedule_for_alarm E now index sev ALARM_INCREASED_DELAY s = Some s1"
    | (reduce) s1 where "\<not> se_severity_gt E sev (sam_severity m)" "s' = cond_signal s1"
        "change_schedule_for_alarm E now index sev ALARM_REDUCED_DELAY s = Some s1"
    using s' Some p cast m by (auto simp: issue_alarm_def split: if_splits)
  then show ?thesis
  proof cases
    case same
    then show ?thesis
      using ok m by (auto simp: remove_outdated_alarm_from_heap_def timers_ok_def split: if_splits)
  next
    case increase
    then show ?thesis
      using sched [OF delays_small(1) _ increase(3)] by (simp add: ALARM_INCREASED_DELAY_def)
  next
    case reduce
    then show ?thesis using sched [OF order_refl _ reduce(3)] by simp
  qed
qed

lemma sync_loop_timers_ok:
  "sched_ok E valid s \<Longrightarrow> timers_ok E now s \<Longrightarrow> clock_ok now \<Longrightarrow>
    sync_loop E now is s = Some s' \<Longrightarrow> timers_ok E now s'"
proof (induction "is" arbitrary: s)
  case Nil
  then show ?case by simp
next
  case (Cons i "is")
  note ok = Cons.prems(1,2)
  obtain m where m: "find_alarm s i = Some m" using Cons.prems(4) by (auto split: option.splits)
  show ?case
  proof (cases "sam_severity m = UNDEFINED_SEVERITY")
    case True
    with Cons m show ?thesis by simp
  next
    case False
    then have def: "alarm_defined E i (sam_severity m)"
      using ok(1) m managers_okD(3) by (fastforce simp: sched_ok_def)
    obtain s1 where s1: "change_schedule_for_alarm E now i (sam_severity m) ALARM_RESYNC_DELAY s = Some s1"
      and rest: "sync_loop E now is s1 = Some s'"
      using Cons.prems(4) m False by (auto split: option.splits)
    have "sched_ok E valid s1" using schedule_ok [OF ok(1) def, of now ALARM_RESYNC_DELAY] s1 by auto
    moreover have "timers_ok E now s1"
      by (rule schedule_timers_ok [OF ok def m Cons.prems(3) delays_small(3) _ s1]) simp
    ultimately show ?thesis using Cons.IH Cons.prems(3) rest by blast
  qed
qed

lemma callback_timers_ok:
  assumes ok: "sched_ok E valid s" "timers_ok E now s" and clock: "clock_ok now"
    and d: "d \<in> set (all_definitions (se_defs E))"
    and s': "alarm_trap_send_callback E now oper d s = Some s'"
  shows "timers_ok E now s'"
proof -
  obtain m where m: "find_alarm s (alarm_index d) = Some m"
    using sched_ok_known_alarm [OF ok(1) definition_alarm_defined(2) [OF d]] .
  consider "s' = s" | s1 where "sam_severity m = severity d" "s' = cond_signal s1"
      "change_schedule_for_alarm E now (alarm_index d) (severity d) ALARM_RETRY_DELAY s = Some s1"
    using s' m
    by (auto simp: alarm_trap_send_callback_def handle_failed_alarm_def should_resend_alarm_def
        split: callback_op.splits if_splits)
  then show ?thesis
  proof cases
    case 1
    with ok show ?thesis by simp
  next
    case 2
    then show ?thesis
      using schedule_timers_ok [OF ok definition_alarm_defined(1) [OF d] m clock delays_small(2) _ 2(3)]
      by simp
  qed
qed

lemma sent_timers_ok: "timers_ok E now s \<Longrightarrow> alarms_sent E clk is s s' \<Longrightarrow> timers_ok E now s'"
  by (auto simp: timers_ok_def alarms_sent_def sent_manager_def new_AlarmTimer_def timer_ok_def split: if_splits)

lemma step_timers_ok:
  assumes "sched_step E now s s'" and ok: "sched_ok E valid s" "timers_ok E now s" and clock: "clock_ok now"
  shows "timers_ok E now s'"
  using assms(1)
proof cases
  case (issue issuer ident)
  with issue_timers_ok [OF ok clock] show ?thesis by blast
next
  case sync
  with sync_loop_timers_ok [OF ok clock] show ?thesis by (auto simp: sync_alarms_def)
next
  case (report d oper)
  with callback_timers_ok [OF ok clock] show ?thesis by blast
next
  case (round fuel clk)
  then show ?thesis
    using heap_sender_due_sends [OF ok(1), of fuel clk now] sent_timers_ok [OF ok(2)] ok(2)
    by (auto simp: heap_sender_round_def heap_sender_wait_def timers_ok_def split: if_splits)
next
  case stop
  with ok(2) show ?thesis by (simp add: terminate_scheduler_def timers_ok_def)
qed

lemma timed_reachable_ok:
  assumes "timed_reachable E t now s" and "rows_ok t" and "clock_ok now"
  shows "sched_ok E valid s \<and> timers_ok E now s"
  using assms(1,3)
proof induction
  case (start now)
  then show ?case
    using initial_ok(1) [OF assms(2)]
    by (auto simp: timers_ok_def initial_find new_AlarmTimer_def timer_ok_def split: if_splits)
next
  case (step now s now' s')
  then have clock: "clock_ok now'" and ok: "sched_ok E valid s" "timers_ok E now' s"
    using clock_ok_mono timers_ok_mono by auto
  have "sched_ok E valid s'"
    using sched_reachable_ok [OF _ assms(2)] timed_reachable_reachable [of E t now s] step.hyps
      sched_reachable.step by blast
  with step_timers_ok [OF step.hyps(3) ok clock] show ?case by simp
qed

section \<open>The schedule of one alarm\<close>

text \<open>A request that names a defined alarm and a severity other than the one last sent.\<close>

lemma issue_new_severity:
  assumes ok: "sched_ok E valid s" and trig: "validate_alarm_trigger (se_defs E) ident = Some (i, severity_value sev)"
    and m: "find_alarm s i = Some m" and new: "sev \<noteq> sam_severity m"
  obtains s' where "issue_alarm E now issuer ident s = Some s'" and "sched_ok E valid s'"
    and "find_alarm s' = (find_alarm s)(i \<mapsto> m\<lparr>sam_timer :=
          (if sev = timer_severity (sam_timer m) then sam_timer m
           else (sam_timer m)\<lparr>timer_severity := sev,
                  pop_time := now + (if se_severity_gt E sev (sam_severity m)
                                     then ALARM_INCREASED_DELAY else ALARM_REDUCED_DELAY)\<rparr>)\<rparr>)"
    and "\<And>j. in_heap E j s' \<longleftrightarrow> j = i \<or> in_heap E j s" and "unsent s s'"
    and "heap_sender_state s' = Awake"
proof -
  have def: "alarm_defined E i sev"
    using validate_trigger_Some [OF trig] by (auto dest: severity_cast_Some)
  let ?delay = "if se_severity_gt E sev (sam_severity m) then ALARM_INCREASED_DELAY else ALARM_REDUCED_DELAY"
  have "managers_ok E s" "heap_ok E valid s" using ok by (simp_all add: sched_ok_def)
  from change_schedule_for_alarm_effect [OF this m def, of now ?delay]
  obtain s1 where s1: "change_schedule_for_alarm E now i sev ?delay s = Some s1"
    and find: "find_alarm s1 = (find_alarm s)(i \<mapsto> m\<lparr>sam_timer :=
          (if sev = timer_severity (sam_timer m) then sam_timer m
           else (sam_timer m)\<lparr>timer_severity := sev, pop_time := now + ?delay\<rparr>)\<rparr>)"
    and mem: "\<And>j. in_heap E j s1 \<longleftrightarrow> j = i \<or> in_heap E j s" by blast
  have ok1: "sched_ok E valid s1" "unsent s s1" using schedule_ok [OF ok def, of now ?delay] s1 by auto
  show thesis
  proof (rule that [of "cond_signal s1"])
    show "issue_alarm E now issuer ident s = Some (cond_signal s1)"
      using trig m new s1 by (simp add: issue_alarm_def split: if_splits)
    show "in_heap E j (cond_signal s1) \<longleftrightarrow> j = i \<or> in_heap E j s" for j
      using mem by (simp add: in_heap_def)
  qed (use ok1 find unsent_signal in simp_all)
qed

text \<open>A request that lowers an alarm; the timer that carries the severity already is left as it is.\<close>

lemma issue_reduction:
  assumes ok: "sched_ok E valid s" and trig: "validate_alarm_trigger (se_defs E) ident = Some (i, severity_value sev)"
    and m: "find_alarm s i = Some m" and new: "sev \<noteq> sam_severity m" and low: "\<not> se_severity_gt E sev (sam_severity m)"
  obtains s' where "issue_alarm E now issuer ident s = Some s'" and "sched_ok E valid s'"
    and "find_alarm s' = (find_alarm s)(i \<mapsto> lowered_manager now sev m)"
    and "\<And>j. in_heap E j s' \<longleftrightarrow> j = i \<or> in_heap E j s" and "unsent s s'"
proof -
  have manager: "m\<lparr>sam_timer := (if sev = timer_severity (sam_timer m) then sam_timer m
      else (sam_timer m)\<lparr>timer_severity := sev,
             pop_time := now + (if se_severity_gt E sev (sam_severity m)
                                then ALARM_INCREASED_DELAY else ALARM_REDUCED_DELAY)\<rparr>)\<rparr> = lowered_manager now sev m"
    using low by (auto simp: lowered_manager_def ALARM_REDUCED_DELAY_def)
  from issue_new_severity [OF ok trig m new, of now issuer] that show thesis unfolding manager by blast
qed

text \<open>Rounds of the heap-sender thread pass by an alarm that is not in the heap.\<close>

lemma round_idle:
  assumes "heap_sender_round fuel E clk now s = Some s'" and "sched_ok E valid s" and "\<not> in_heap E i s"
  shows "sched_ok E valid s' \<and> \<not> in_heap E i s' \<and> find_alarm s' i = find_alarm s i"
proof (cases "terminated s")
  case True
  with assms show ?thesis by (simp add: heap_sender_round_def)
next
  case False
  with assms(1) obtain s1 where s1: "heap_sender_due fuel E clk now s = Some s1" "s' = heap_sender_wait E s1"
    by (auto simp: heap_sender_round_def)
  from heap_sender_due_sends [OF assms(2) s1(1)] obtain "is" where
    "sched_ok E valid s1" "set is = due_alarms E now s" "alarms_sent E clk is s s1" by blast
  with assms(3) s1(2) wait_sender_ok(1) [of s1] show ?thesis
    by (auto simp: alarms_sent_def due_alarms_def heap_sender_wait_def in_heap_def)
qed

lemma sender_rounds_idle:
  "sender_rounds E s s' \<Longrightarrow> sched_ok E valid s \<Longrightarrow> \<not> in_heap E i s \<Longrightarrow>
    sched_ok E valid s' \<and> \<not> in_heap E i s' \<and> find_alarm s' i = find_alarm s i"
  unfolding sender_rounds_def
  by (induction rule: rtranclp_induct) (auto dest: round_idle)

lemma trigger_severity:
  assumes "validate_alarm_trigger (se_defs E) ident = Some (i, severity_value sev)"
    and "severities_defined (se_defs E)"
  shows "sev \<noteq> UNDEFINED_SEVERITY"
proof -
  have "alarm_defined E i sev" using validate_trigger_Some [OF assms(1)] by (auto dest: severity_cast_Some)
  from alarm_defined_def_of(2,3) [OF this] assms(2) show ?thesis by (auto simp: severities_defined_def)
qed

text \<open>What a round does to one due alarm.\<close>

lemma round_sends:
  assumes ok: "sched_ok E valid s" and running: "\<not> terminated s" and due: "i \<in> due_alarms E now s"
    and fuel: "length (all_alarms_state s) < fuel"
  obtains s' before infs after where "heap_sender_round fuel E clk now s = Some s'"
    and "send_trap (se_sender E) (waiting_def E s i) = Some infs"
    and "informs s' = informs s @ before @ infs @ after"
    and "find_alarm s' i = map_option (sent_manager i) (find_alarm s i)" and "\<not> in_heap E i s'"
proof -
  obtain s1 where s1: "heap_sender_due fuel E clk now s = Some s1"
    using heap_sender_due_ends [OF ok, of now fuel clk] card_due [OF ok, of now] fuel by auto
  from heap_sender_due_sends [OF ok s1] obtain "is" where
    "is": "set is = due_alarms E now s" and sent: "alarms_sent E clk is s s1" by blast
  obtain xs ys where split: "is = xs @ i # ys" using "is" due by (metis split_list)
  obtain infs where infs: "send_trap (se_sender E) (waiting_def E s i) = Some infs" by (rule send_trap_total)
  have "informs s1 = informs s @ sent_informs E (map (waiting_def E s) xs) @ infs @
      sent_informs E (map (waiting_def E s) ys)"
    using sent infs by (simp add: alarms_sent_def split sent_informs_def)
  moreover have "find_alarm s1 i = map_option (sent_manager i) (find_alarm s i)" "\<not> in_heap E i s1"
    using sent due "is" by (auto simp: alarms_sent_def)
  moreover have "heap_sender_round fuel E clk now s = Some (heap_sender_wait E s1)"
    using running s1 by (simp add: heap_sender_round_def)
  ultimately show thesis
    using infs by (intro that [of "heap_sender_wait E s1" infs]) (simp_all add: heap_sender_wait_def in_heap_def)
qed

text \<open>What synchronisation makes of a manager.\<close>

text \<open>One turn of the loop, whether it schedules the alarm or not.\<close>

lemma sync_loop_turn:
  assumes ok: "sched_ok E valid s" and "alarm_known E i"
  shows "\<exists>s1. (\<forall>is. sync_loop E now (i # is) s = sync_loop E now is s1) \<and> sched_ok E valid s1 \<and> unsent s s1 \<and>
    find_alarm s1 = (find_alarm s)(i := map_option (synced_manager now) (find_alarm s i)) \<and>
    (\<forall>j. in_heap E j s1 \<longleftrightarrow> in_heap E j s \<or>
      j = i \<and> (\<exists>m. find_alarm s i = Some m \<and> sam_severity m \<noteq> UNDEFINED_SEVERITY))"
proof -
  obtain m where m: "find_alarm s i = Some m" using sched_ok_known_alarm [OF assms] by auto
  show ?thesis
  proof (cases "sam_severity m = UNDEFINED_SEVERITY")
    case True
    then have "synced_manager now m = m" by (simp add: synced_manager_def)
    with True m ok show ?thesis by (intro exI [of _ s]) (auto simp: unsent_def fun_upd_idem)
  next
    case False
    then have def: "alarm_defined E i (sam_severity m)"
      using ok m managers_okD(3) by (fastforce simp: sched_ok_def)
    have "managers_ok E s" "heap_ok E valid s" using ok by (simp_all add: sched_ok_def)
    from change_schedule_for_alarm_effect [OF this m def, of now ALARM_RESYNC_DELAY]
    obtain s1 where s1: "change_schedule_for_alarm E now i (sam_severity m) ALARM_RESYNC_DELAY s = Some s1"
      and find: "find_alarm s1 = (find_alarm s)(i \<mapsto> m\<lparr>sam_timer :=
          (if sam_severity m = timer_severity (sam_timer m) then sam_timer m
           else (sam_timer m)\<lparr>timer_severity := sam_severity m, pop_time := now + ALARM_RESYNC_DELAY\<rparr>)\<rparr>)"
      and mem: "\<And>j. in_heap E j s1 \<longleftrightarrow> j = i \<or> in_heap E j s"
      by blast
    have "find_alarm s1 = (find_alarm s)(i \<mapsto> synced_manager now m)"
      using find False by (simp add: synced_manager_def ALARM_RESYNC_DELAY_def)
    moreover have "sched_ok E valid s1" "unsent s s1"
      using schedule_ok [OF ok def, of now ALARM_RESYNC_DELAY] s1 by auto
    ultimately show ?thesis using m False s1 mem by (intro exI [of _ s1]) auto
  qed
qed

lemma sync_loop_effect:
  "sched_ok E valid s \<Longrightarrow> distinct is \<Longrightarrow> (\<forall>i \<in> set is. alarm_known E i) \<Longrightarrow>
    \<exists>s'. sync_loop E now is s = Some s' \<and> sched_ok E valid s' \<and> unsent s s' \<and>
      (\<forall>j. find_alarm s' j = (if j \<in> set is then map_option (synced_manager now) (find_alarm s j) else find_alarm s j)) \<and>
      (\<forall>j. in_heap E j s' \<longleftrightarrow> in_heap E j s \<or>
         (j \<in> set is \<and> (\<exists>m. find_alarm s j = Some m \<and> sam_severity m \<noteq> UNDEFINED_SEVERITY)))"
proof (induction "is" arbitrary: s)
  case Nil
  then show ?case by (simp add: unsent_def)
next
  case (Cons i "is")
  obtain s1 where s1: "sync_loop E now (i # is) s = sync_loop E now is s1" "sched_ok E valid s1" "unsent s s1"
    and find: "find_alarm s1 = (find_alarm s)(i := map_option (synced_manager now) (find_alarm s i))"
    and mem: "\<And>j. in_heap E j s1 \<longleftrightarrow> in_heap E j s \<or>
      j = i \<and> (\<exists>m. find_alarm s i = Some m \<and> sam_severity m \<noteq> UNDEFINED_SEVERITY)"
    using sync_loop_turn [OF Cons.prems(1), of i now] Cons.prems(3) by (metis list.set_intros(1))
  obtain s2 where s2: "sync_loop E now is s1 = Some s2" "sched_ok E valid s2" "unsent s1 s2"
    "\<forall>j. find_alarm s2 j = (if j \<in> set is then map_option (synced_manager now) (find_alarm s1 j) else find_alarm s1 j)"
    "\<forall>j. in_heap E j s2 \<longleftrightarrow> in_heap E j s1 \<or>
       (j \<in> set is \<and> (\<exists>m. find_alarm s1 j = Some m \<and> sam_severity m \<noteq> UNDEFINED_SEVERITY))"
    using Cons.IH [OF s1(2)] Cons.prems(2,3) by auto
  have "find_alarm s2 j =
      (if j \<in> set (i # is) then map_option (synced_manager now) (find_alarm s j) else find_alarm s j)" for j
    using s2(4) find Cons.prems(2) by (cases "j = i") simp_all
  moreover have "in_heap E j s2 \<longleftrightarrow> in_heap E j s \<or>
      (j \<in> set (i # is) \<and> (\<exists>m. find_alarm s j = Some m \<and> sam_severity m \<noteq> UNDEFINED_SEVERITY))" for j
    using s2(5) find mem [of j] Cons.prems(2) by (cases "j = i") auto
  ultimately show ?case using s1(1) s2(1,2) unsent_trans [OF s1(3) s2(3)] by simp
qed

section \<open>Runs\<close>

text \<open>A reachable state can always take a request or a round; the result is reachable.\<close>

lemma timed_issue:
  assumes "timed_reachable E t now s" and "rows_ok t" and "now \<le> now'"
  shows "timed_reachable E t now' (the (issue_alarm E now' issuer ident s))"
proof -
  have "sched_ok E valid s"
    using sched_reachable_ok [OF timed_reachable_reachable [OF assms(1)] assms(2)] by simp
  then obtain s' where s': "issue_alarm E now' issuer ident s = Some s'" using issue_alarm_ok by blast
  show ?thesis unfolding s' option.sel
    by (rule timed_reachable.step [OF assms(1,3) sched_step.issue [OF s']])
qed

lemma timed_round:
  assumes "timed_reachable E t now s" and "rows_ok t" and "now \<le> now'"
    and "length (all_alarms_state s) < fuel"
  shows "timed_reachable E t now' (the (heap_sender_round fuel E clk now' s))"
proof -
  have ok: "sched_ok E valid s"
    using sched_reachable_ok [OF timed_reachable_reachable [OF assms(1)] assms(2)] by simp
  obtain s' where s': "heap_sender_round fuel E clk now' s = Some s'"
    using heap_sender_due_ends [OF ok, of now' fuel clk] card_due [OF ok, of now'] assms(4)
    by (fastforce simp: heap_sender_round_def)
  show ?thesis unfolding s' option.sel
    by (rule timed_reachable.step [OF assms(1,3) sched_step.round [OF s']])
qed

end

end
