(* ===== verification/Scheduler_Props.thy ===== *)
theory Scheduler_Props
  imports Scheduler_Timing
begin

text \<open>
  The properties of the alarm scheduler.  They hold for every environment that satisfies
  \<open>sched_context\<close>; the environment \<open>agent_env\<close> of an agent that has read its alarm files,
  with the sorted list as its heap, is one.
\<close>

section \<open>The agent's environment\<close>

definition agent_env ::
  "(Severity \<Rightarrow> Severity \<Rightarrow> bool) \<Rightarrow> validator \<Rightarrow> dir_entry list option \<Rightarrow> AlarmTrapSender \<Rightarrow> nat \<Rightarrow>
   (timer_list, oid list \<rightharpoonup> nat) sched_env" where
  "agent_env gt v dir ts n =
     \<lparr>se_heap = list_heap, se_severity_gt = gt, se_defs = snd (initialize v dir sample_empty),
      se_sender = ts,
      se_active = \<lparr>ae_container = fun_container, ae_build_oid = encode_index, ae_malloc = first_free n\<rparr>\<rparr>"

interpretation agent: sched_context "agent_env gt v dir ts n" list_heap_ok for gt v dir ts n
proof -
  have "timer_heap (se_heap (agent_env gt v dir ts n)) list_heap_ok"
    by (simp add: agent_env_def list_heap.timer_heap_axioms)
  moreover have "defs_ok (se_defs (agent_env gt v dir ts n))"
    by (simp add: agent_env_def defs_ok_initialize [OF sample_empty_invalid])
  moreover have "malloc_fresh (ae_malloc (se_active (agent_env gt v dir ts n)))"
    by (simp add: agent_env_def malloc_fresh_first_free)
  ultimately show "sched_context (agent_env gt v dir ts n) list_heap_ok"
    by (intro sched_context.intro sched_context_axioms.intro)
qed

text \<open>Severities in the order of their urgency.\<close>

definition severity_rank :: "Severity \<Rightarrow> nat" where
  "severity_rank sev =
     (case sev of UNDEFINED_SEVERITY \<Rightarrow> 0 | CLEARED \<Rightarrow> 1 | INDETERMINATE \<Rightarrow> 2 | WARNING \<Rightarrow> 3
      | MINOR \<Rightarrow> 4 | MAJOR \<Rightarrow> 5 | CRITICAL \<Rightarrow> 6)"

definition rank_gt :: "Severity \<Rightarrow> Severity \<Rightarrow> bool" where
  "rank_gt a b \<longleftrightarrow> severity_rank b < severity_rank a"

definition sample_sched :: "(timer_list, oid list \<rightharpoonup> nat) sched_env" where
  "sample_sched =
     agent_env rank_gt sample_validate (Some sample_files)
       \<lparr>ts_notifications = [(RFC3877, ())], ts_hostname = ''node1''\<rparr> 16"

definition sample_start :: "(timer_list, oid list \<rightharpoonup> nat) scheduler" where
  "sample_start = new_AlarmScheduler sample_sched sample_active"

lemma sample_context: "sched_context sample_sched list_heap_ok"
  unfolding sample_sched_def by (rule agent.sched_context_axioms)

lemma sample_start_reachable: "sched_reachable sample_sched sample_active sample_start"
  unfolding sample_start_def by (rule sched_reachable.start)

lemma sample_start_timed: "timed_reachable sample_sched sample_active now sample_start"
  unfolding sample_start_def by (rule timed_reachable.start)

section \<open>Safety\<close>

text \<open>
  C4. In every state that the threads of the agent can reach, in whatever order they run, the
  managers and the heap are consistent, and no entry point and no round of the heap-sender thread
  follows a null or dangling pointer, whatever request arrives: each of them completes.  The
  destructor completes as well: it wakes the thread, which sends nothing more, and leaves no timer
  in the heap and no manager.
\<close>

theorem scheduler_safe:
  assumes "sched_context E valid" and "rows_ok t" and "sched_reachable E t s"
  shows "sched_ok E valid s \<and>
    (\<forall>now issuer ident. \<exists>s'. issue_alarm E now issuer ident s = Some s') \<and>
    (\<forall>now. \<exists>s'. sync_alarms E now s = Some s') \<and>
    (\<forall>now oper. \<forall>d \<in> set (all_definitions (se_defs E)).
       \<exists>s'. alarm_trap_send_callback E now oper d s = Some s') \<and>
    (\<forall>clk now fuel. length (all_alarms_state s) < fuel \<longrightarrow>
       (\<exists>s'. heap_sender_round fuel E clk now s = Some s')) \<and>
    heap_sender_state (terminate_scheduler s) = Awake \<and>
    (\<forall>clk now fuel. \<exists>s'. delete_AlarmScheduler fuel E clk now s = Some s' \<and> informs s' = informs s \<and>
       all_alarms_state s' = [] \<and> (\<forall>i. \<not> in_heap E i s'))"
proof -
  have ok: "sched_ok E valid s" using sched_context.sched_reachable_ok [OF assms(1,3,2)] by simp
  have "\<exists>s'. heap_sender_round fuel E clk now s = Some s'" if "length (all_alarms_state s) < fuel" for clk now fuel
    using sched_context.heap_sender_due_ends [OF assms(1) ok, of now fuel clk] that
      sched_context.card_due [OF assms(1) ok, of now] by (auto simp: heap_sender_round_def)
  moreover have "\<exists>s'. delete_AlarmScheduler fuel E clk now s = Some s' \<and> informs s' = informs s \<and>
      all_alarms_state s' = [] \<and> (\<forall>i. \<not> in_heap E i s')" for clk now fuel
    using sched_context.delete_scheduler [OF assms(1) ok] by blast
  moreover have "heap_sender_state (terminate_scheduler s) = Awake"
    by (simp add: terminate_scheduler_def cond_signal_def)
  ultimately show ?thesis using ok
    using sched_context.issue_alarm_ok [OF assms(1) ok] sched_context.sync_alarms_ok [OF assms(1) ok]
      sched_context.callback_ok [OF assms(1) ok] by blast
qed

theorem scheduler_safe_witness:
  "sched_ok sample_sched list_heap_ok sample_start \<and>
   (\<exists>s'. issue_alarm sample_sched 5 ''monit'' ''1000.3'' sample_start = Some s')"
  using scheduler_safe [OF sample_context sample_active_rows_ok sample_start_reachable] by blast

text \<open>
  C5. The heap-sender thread never oversleeps: whenever an alarm waits in the heap, the thread
  either has been signalled or is in a timed wait that ends no later than the alarm's pop time.
\<close>

theorem no_lost_wakeup:
  assumes "sched_context E valid" and "rows_ok t" and "sched_reachable E t s" and "in_heap E i s"
  shows "heap_sender_state s = Awake \<or>
    (\<exists>ts. heap_sender_state s = TimedWait ts \<and> millis ts \<le> pop_times_of s i)"
  using sched_context.sched_reachable_ok [OF assms(1,3,2)] assms(4)
  by (cases "heap_sender_state s") (auto simp: sender_ok_def)

definition sample_raised :: "(timer_list, oid list \<rightharpoonup> nat) scheduler" where
  "sample_raised = the (issue_alarm sample_sched 5 ''monit'' ''1000.3'' sample_start)"

lemma sample_raised_timed: "timed_reachable sample_sched sample_active 5 sample_raised"
  unfolding sample_raised_def
  by (rule sched_context.timed_issue [OF sample_context sample_start_timed sample_active_rows_ok order_refl])

lemma sample_raised_in_heap: "in_heap sample_sched 1000 sample_raised"
  unfolding sample_raised_def by code_simp

theorem no_lost_wakeup_witness:
  "heap_sender_state sample_raised = Awake \<or>
    (\<exists>ts. heap_sender_state sample_raised = TimedWait ts \<and> millis ts \<le> pop_times_of sample_raised 1000)"
  by (rule no_lost_wakeup [OF sample_context sample_active_rows_ok
        timed_reachable_reachable [OF sample_raised_timed] sample_raised_in_heap])

section \<open>What is sent\<close>

text \<open>
  C3. A round of the heap-sender thread ends and sends every alarm that is due and no other, each
  once and in the order of the pop times: it hands the trap sender the definition of each such
  alarm at the severity it waits at, updates the active alarm table with the same definitions in the
  same order, records these severities as the last ones sent, resets the timers and takes them from
  the heap.  Nothing that is due remains, and all other alarms are left as they were.
\<close>

theorem round_sends_exactly_due:
  assumes "sched_context E valid" and "rows_ok t" and "sched_reachable E t s" and "\<not> terminated s"
    and "length (all_alarms_state s) < fuel"
  shows "\<exists>s' is. heap_sender_round fuel E clk now s = Some s' \<and> distinct is \<and>
    set is = due_alarms E now s \<and> sorted_wrt (earlier s) is \<and> alarms_sent E clk is s s' \<and>
    due_alarms E now s' = {}"
proof -
  have ok: "sched_ok E valid s" using sched_context.sched_reachable_ok [OF assms(1,3,2)] by simp
  obtain s1 where s1: "heap_sender_due fuel E clk now s = Some s1"
    using sched_context.heap_sender_due_ends [OF assms(1) ok, of now fuel clk]
      sched_context.card_due [OF assms(1) ok, of now] assms(5) by auto
  from sched_context.heap_sender_due_sends [OF assms(1) ok s1] obtain "is" where
    "is": "distinct is" "set is = due_alarms E now s" "sorted_wrt (earlier s) is" "alarms_sent E clk is s s1"
    by blast
  have sent: "alarms_sent E clk is s (heap_sender_wait E s1)"
    using "is"(4) by (simp add: alarms_sent_def heap_sender_wait_def in_heap_def)
  moreover have "due_alarms E now (heap_sender_wait E s1) = {}"
    using sched_context.due_after_sent [OF assms(1) sent, of now] "is"(2) by simp
  moreover have "heap_sender_round fuel E clk now s = Some (heap_sender_wait E s1)"
    using s1 assms(4) by (simp add: heap_sender_round_def)
  ultimately show ?thesis using "is" by blast
qed

theorem round_sends_exactly_due_witness:
  "\<exists>s' is. heap_sender_round 3 sample_sched (\<lambda>_. sample_time) 5 sample_raised = Some s' \<and> distinct is \<and>
     set is = due_alarms sample_sched 5 sample_raised \<and> sorted_wrt (earlier sample_raised) is \<and>
     alarms_sent sample_sched (\<lambda>_. sample_time) is sample_raised s' \<and> due_alarms sample_sched 5 s' = {}"
proof -
  have "\<not> terminated sample_raised" "length (all_alarms_state sample_raised) < 3" by code_simp+
  from round_sends_exactly_due [OF sample_context sample_active_rows_ok
      timed_reachable_reachable [OF sample_raised_timed] this] show ?thesis .
qed

text \<open>
  C2. A rise in severity is reported at once: when a request raises an alarm above the severity
  last sent for it, whatever was scheduled for the alarm before, the very next round of the
  heap-sender thread, at any later time, hands the INFORMs of that definition to net-snmp and
  records the severity as sent.
\<close>

theorem raise_is_sent:
  assumes "sched_context E valid" and "rows_ok t" and "timed_reachable E t now s" and "clock_ok now"
    and "severities_defined (se_defs E)" and "\<not> terminated s"
    and "validate_alarm_trigger (se_defs E) ident = Some (i, severity_value sev)"
    and "find_alarm s i = Some m" and "sev \<noteq> sam_severity m" and "se_severity_gt E sev (sam_severity m)"
  shows "\<exists>s'. issue_alarm E now issuer ident s = Some s' \<and> heap_sender_state s' = Awake \<and>
    (\<forall>now' clk fuel. now \<le> now' \<and> length (all_alarms_state s') < fuel \<longrightarrow>
      (\<exists>s'' before infs after. heap_sender_round fuel E clk now' s' = Some s'' \<and>
        send_trap (se_sender E) (get_definition (se_defs E) i (severity_value sev)) = Some infs \<and>
        informs s'' = informs s @ before @ infs @ after \<and>
        map_option sam_severity (find_alarm s'' i) = Some sev \<and> \<not> in_heap E i s''))"
proof -
  note ctx = assms(1)
  have ok: "sched_ok E valid s" "timers_ok E now s"
    using sched_context.timed_reachable_ok [OF ctx assms(3,2,4)] by simp_all
  obtain s' where s': "issue_alarm E now issuer ident s = Some s'" "sched_ok E valid s'"
    and find: "find_alarm s' = (find_alarm s)(i \<mapsto> m\<lparr>sam_timer :=
          (if sev = timer_severity (sam_timer m) then sam_timer m
           else (sam_timer m)\<lparr>timer_severity := sev,
                  pop_time := now + (if se_severity_gt E sev (sam_severity m)
                                     then ALARM_INCREASED_DELAY else ALARM_REDUCED_DELAY)\<rparr>)\<rparr>)"
    and mem: "\<And>j. in_heap E j s' \<longleftrightarrow> j = i \<or> in_heap E j s"
    and unsent: "unsent s s'" and awake: "heap_sender_state s' = Awake"
    using sched_context.issue_new_severity [OF ctx ok(1) assms(7,8,9), of now issuer] by blast
  have "sev \<noteq> UNDEFINED_SEVERITY"
    by (rule sched_context.trigger_severity [OF ctx assms(7,5)])
  then have "pop_times_of s' i \<le> now"
    using ok(2) assms(8-10) find by (auto simp: pop_times_of_def timers_ok_def timer_ok_def ALARM_INCREASED_DELAY_def)
  then have due: "i \<in> due_alarms E now' s'" if "now \<le> now'" for now'
    using that mem by (auto simp: due_alarms_def)
  have wait: "waiting_def E s' i = get_definition (se_defs E) i (severity_value sev)"
    by (auto simp: waiting_def_def find)
  have run: "\<not> terminated s'" "informs s' = informs s" using unsent assms(6) by (simp_all add: unsent_def)
  have sev': "map_option sam_severity (map_option (sent_manager i) (find_alarm s' i)) = Some sev"
    by (auto simp: find sent_manager_def)
  show ?thesis
    using s'(1) awake sched_context.round_sends [OF ctx s'(2) run(1) due] unfolding wait run(2)
    by (metis sev')
qed

lemma sample_sched_defined: "severities_defined (se_defs sample_sched)"
  unfolding severities_defined_def by code_simp

theorem raise_is_sent_witness:
  "\<exists>s'. issue_alarm sample_sched 5 ''monit'' ''1000.3'' sample_start = Some s' \<and> heap_sender_state s' = Awake"
proof -
  have trig: "validate_alarm_trigger (se_defs sample_sched) ''1000.3'' = Some (1000, severity_value CRITICAL)"
    and run: "\<not> terminated sample_start" and clock: "clock_ok 5"
    and m: "find_alarm sample_start 1000 =
      Some \<lparr>sam_timer = new_AlarmTimer 1000, sam_severity = UNDEFINED_SEVERITY\<rparr>"
    and gt: "CRITICAL \<noteq> UNDEFINED_SEVERITY" "se_severity_gt sample_sched CRITICAL UNDEFINED_SEVERITY"
    by code_simp+
  from raise_is_sent [OF sample_context sample_active_rows_ok sample_start_timed clock sample_sched_defined
      run trig m] gt show ?thesis by simp blast
qed

text \<open>
  C7. A fall in severity waits: when a request lowers an alarm below the severity last sent for it,
  the alarm is due 30 seconds after the request (in 64-bit arithmetic) and at no time before, unless
  its timer carries the requested severity already.  A timer that does keeps its time: the alarm is
  then due at the pop time the timer had before the request.  Either way the request sends nothing
  itself, and what is due of other alarms stays the same.
\<close>

theorem reduction_is_delayed:
  assumes "sched_context E valid" and "rows_ok t" and "sched_reachable E t s"
    and "validate_alarm_trigger (se_defs E) ident = Some (i, severity_value sev)"
    and "find_alarm s i = Some m" and "sev \<noteq> sam_severity m" and "\<not> se_severity_gt E sev (sam_severity m)"
  shows "\<exists>s'. issue_alarm E now issuer ident s = Some s' \<and>
    (\<forall>now'. i \<in> due_alarms E now' s' \<longleftrightarrow>
       (if timer_severity (sam_timer m) = sev then pop_time (sam_timer m) else now + 30000) \<le> now') \<and>
    waiting_def E s' i = get_definition (se_defs E) i (severity_value sev) \<and>
    (\<forall>j now'. j \<noteq> i \<longrightarrow> (j \<in> due_alarms E now' s' \<longleftrightarrow> j \<in> due_alarms E now' s)) \<and>
    unsent s s'"
proof -
  have "sched_ok E valid s" using sched_context.sched_reachable_ok [OF assms(1,3,2)] by simp
  from sched_context.issue_reduction [OF assms(1) this assms(4-7), of now issuer]
  obtain s' where s': "issue_alarm E now issuer ident s = Some s'" "unsent s s'"
    and find: "find_alarm s' = (find_alarm s)(i \<mapsto> lowered_manager now sev m)"
    and mem: "\<And>j. in_heap E j s' \<longleftrightarrow> j = i \<or> in_heap E j s" by blast
  have pop: "pop_times_of s' j = (if j = i then pop_time (sam_timer (lowered_manager now sev m)) else pop_times_of s j)" for j
    by (simp add: pop_times_of_def find)
  have "waiting_def E s' i = get_definition (se_defs E) i (severity_value sev)"
    by (auto simp: waiting_def_def find lowered_manager_def)
  with s' mem pop show ?thesis by (simp add: due_alarms_def lowered_manager_def)
qed

text \<open>The alarm of the examples raised and sent.\<close>

definition sample_sent :: "(timer_list, oid list \<rightharpoonup> nat) scheduler" where
  "sample_sent = the (heap_sender_round 3 sample_sched (\<lambda>_. sample_time) 5 sample_raised)"

lemma sample_sent_timed: "timed_reachable sample_sched sample_active 5 sample_sent"
proof -
  have "length (all_alarms_state sample_raised) < 3" by code_simp
  then show ?thesis unfolding sample_sent_def
    by (rule sched_context.timed_round [OF sample_context sample_raised_timed sample_active_rows_ok order_refl])
qed

lemma sample_sent_manager:
  "find_alarm sample_sent 1000 = Some \<lparr>sam_timer = new_AlarmTimer 1000, sam_severity = CRITICAL\<rparr>"
  by code_simp

theorem reduction_is_delayed_witness:
  "\<exists>s'. issue_alarm sample_sched 1000 ''monit'' ''1000.1'' sample_sent = Some s' \<and>
    (\<forall>now'. 1000 \<in> due_alarms sample_sched now' s' \<longleftrightarrow> 31000 \<le> now')"
proof -
  have trig: "validate_alarm_trigger (se_defs sample_sched) ''1000.1'' = Some (1000, severity_value CLEARED)"
    and gt: "\<not> se_severity_gt sample_sched CLEARED CRITICAL" by code_simp+
  from reduction_is_delayed [OF sample_context sample_active_rows_ok
      timed_reachable_reachable [OF sample_sent_timed] trig sample_sent_manager,
      of 1000 "''monit''"] gt
  show ?thesis by (simp add: new_AlarmTimer_def) blast
qed

text \<open>
  C25. The delay of a fall in severity can be lost.  A request at \<open>t1\<close> lowers an alarm, one at
  \<open>t2\<close> raises it again to the severity last sent, which takes it from the heap, the heap-sender
  thread runs any number of rounds, and a request at \<open>t3\<close> lowers it as the first one did.  Then the
  alarm is due from 30 seconds after \<open>t1\<close> on, whatever \<open>t3\<close> is: the timer kept the severity
  and the time of the change that was given up.  A lowering that comes 30 seconds or more after the
  first one is due at once, and one that comes before waits only for the rest of those 30 seconds.
\<close>

theorem flicker_loses_delay:
  assumes "sched_context E valid" and "rows_ok t" and "sched_reachable E t s"
    and "validate_alarm_trigger (se_defs E) lower = Some (i, severity_value sev)"
    and "find_alarm s i = Some m" and "sev \<noteq> sam_severity m" and "\<not> se_severity_gt E sev (sam_severity m)"
    and "validate_alarm_trigger (se_defs E) raise = Some (i, severity_value (sam_severity m))"
    and "timer_severity (sam_timer m) \<noteq> sev"
  shows "\<exists>s1 s2. issue_alarm E t1 issuer lower s = Some s1 \<and>
    (\<forall>now'. i \<in> due_alarms E now' s1 \<longleftrightarrow> t1 + 30000 \<le> now') \<and>
    issue_alarm E t2 issuer raise s1 = Some s2 \<and> \<not> in_heap E i s2 \<and>
    (\<forall>s2'. sender_rounds E s2 s2' \<longrightarrow>
      (\<exists>s3. issue_alarm E t3 issuer lower s2' = Some s3 \<and>
        waiting_def E s3 i = get_definition (se_defs E) i (severity_value sev) \<and>
        (\<forall>now'. i \<in> due_alarms E now' s3 \<longleftrightarrow> t1 + 30000 \<le> now')))"
proof -
  note ctx = assms(1)
  let ?m = "lowered_manager t1 sev m"
  have timer: "timer_severity (sam_timer ?m) = sev" "pop_time (sam_timer ?m) = t1 + 30000" "sam_severity ?m = sam_severity m"
    using assms(9) by (simp_all add: lowered_manager_def)
  have "sched_ok E valid s" using sched_context.sched_reachable_ok [OF ctx assms(3,2)] by simp
  from sched_context.issue_reduction [OF ctx this assms(4-7), of t1 issuer]
  obtain s1 where s1: "issue_alarm E t1 issuer lower s = Some s1" "sched_ok E valid s1"
    "find_alarm s1 i = Some ?m" "in_heap E i s1" by (metis fun_upd_same)
  have differs: "sam_severity ?m \<noteq> timer_severity (sam_timer ?m)" using assms(6) timer by simp
  from sched_context.remove_outdated_effect [OF ctx s1(2,3) this]
  obtain s2 where s2: "remove_outdated_alarm_from_heap E i s1 = Some s2" "sched_ok E valid s2"
    "find_alarm s2 i = Some ?m" "\<not> in_heap E i s2" using s1(3) by metis
  have raise: "issue_alarm E t2 issuer raise s1 = Some s2"
    using assms(8) s1(3) s2(1) timer(3) by (simp add: issue_alarm_def)
  have "\<exists>s3. issue_alarm E t3 issuer lower s2' = Some s3 \<and>
      waiting_def E s3 i = get_definition (se_defs E) i (severity_value sev) \<and>
      (\<forall>now'. i \<in> due_alarms E now' s3 \<longleftrightarrow> t1 + 30000 \<le> now')" if "sender_rounds E s2 s2'" for s2'
  proof -
    have idle: "sched_ok E valid s2'" "find_alarm s2' i = Some ?m"
      using sched_context.sender_rounds_idle [OF ctx that s2(2,4)] s2(3) by auto
    have low: "sev \<noteq> sam_severity ?m" "\<not> se_severity_gt E sev (sam_severity ?m)" using assms(6,7) timer(3) by auto
    from sched_context.issue_reduction [OF ctx idle(1) assms(4) idle(2) low, of t3 issuer]
    obtain s3 where "issue_alarm E t3 issuer lower s2' = Some s3"
      "find_alarm s3 i = Some (lowered_manager t3 sev ?m)" "in_heap E i s3" by (metis fun_upd_same)
    with timer show ?thesis by (auto simp: due_alarms_def pop_times_of_def waiting_def_def lowered_manager_def)
  qed
  with s1 s2(4) raise timer(2) show ?thesis
    by (intro exI [of _ s1] exI [of _ s2]) (simp add: due_alarms_def pop_times_of_def)
qed

theorem flicker_loses_delay_witness:
  "\<exists>s1 s2 s3. issue_alarm sample_sched 1000 ''monit'' ''1000.1'' sample_sent = Some s1 \<and>
    issue_alarm sample_sched 2000 ''monit'' ''1000.3'' s1 = Some s2 \<and>
    issue_alarm sample_sched 42000 ''monit'' ''1000.1'' s2 = Some s3 \<and> 1000 \<in> due_alarms sample_sched 42000 s3"
proof -
  let ?m = "\<lparr>sam_timer = new_AlarmTimer 1000, sam_severity = CRITICAL\<rparr>"
  have trig: "validate_alarm_trigger (se_defs sample_sched) ''1000.1'' = Some (1000, severity_value CLEARED)"
    "validate_alarm_trigger (se_defs sample_sched) ''1000.3'' = Some (1000, severity_value (sam_severity ?m))"
    and low: "CLEARED \<noteq> sam_severity ?m" "\<not> se_severity_gt sample_sched CLEARED (sam_severity ?m)"
    "timer_severity (sam_timer ?m) \<noteq> CLEARED" by code_simp+
  have idle: "sender_rounds sample_sched s s" for s by (simp add: sender_rounds_def)
  have late: "(1000 :: u64) + 30000 \<le> 42000" by simp
  from flicker_loses_delay [OF sample_context sample_active_rows_ok
      timed_reachable_reachable [OF sample_sent_timed] trig(1) sample_sent_manager low(1,2) trig(2) low(3),
      of 1000 "''monit''" 2000 42000]
  show ?thesis using idle late by blast
qed

text \<open>
  C24. No alarm waits longer than the longest delay: whatever waits in the heap at a time is due 30
  seconds later at the latest.
\<close>

theorem waiting_is_bounded:
  assumes "sched_context E valid" and "rows_ok t" and "timed_reachable E t now s" and "clock_ok now"
    and "severities_defined (se_defs E)" and "in_heap E i s"
  shows "i \<in> due_alarms E (now + 30000) s"
proof -
  have ok: "sched_ok E valid s" "timers_ok E now s"
    using sched_context.timed_reachable_ok [OF assms(1,3,2,4)] by simp_all
  obtain m where m: "find_alarm s i = Some m" and def: "alarm_defined E i (timer_severity (sam_timer m))"
    using sched_context.in_heap_manager [OF assms(1) ok(1) assms(6)] .
  have "timer_severity (sam_timer m) \<noteq> UNDEFINED_SEVERITY"
    using sched_context.alarm_defined_def_of(2,3) [OF assms(1) def] assms(5) by (auto simp: severities_defined_def)
  with ok(2) m assms(6) show ?thesis
    by (auto simp: timers_ok_def timer_ok_def due_alarms_def pop_times_of_def ALARM_REDUCED_DELAY_def)
qed

theorem waiting_is_bounded_witness: "1000 \<in> due_alarms sample_sched 30005 sample_raised"
proof -
  have "clock_ok 5" by code_simp
  from waiting_is_bounded [OF sample_context sample_active_rows_ok sample_raised_timed this
      sample_sched_defined sample_raised_in_heap] show ?thesis by simp
qed

text \<open>
  C23. A request that repeats the severity last sent cancels a change that is still waiting: what is
  left in the heap for the alarm afterwards, if anything, is a resend of that same severity.  All
  other alarms keep their places, and nothing is sent or recorded.
\<close>

theorem repeat_cancels_change:
  assumes "sched_context E valid" and "rows_ok t" and "sched_reachable E t s"
    and "validate_alarm_trigger (se_defs E) ident = Some (i, severity_value sev)"
    and "find_alarm s i = Some m" and "sam_severity m = sev"
  shows "\<exists>s'. issue_alarm E now issuer ident s = Some s' \<and>
    (in_heap E i s' \<longleftrightarrow> in_heap E i s \<and> timer_severity (sam_timer m) = sev) \<and>
    (\<forall>j. j \<noteq> i \<longrightarrow> (in_heap E j s' \<longleftrightarrow> in_heap E j s)) \<and> find_alarm s' = find_alarm s \<and> unsent s s'"
proof -
  have ok: "sched_ok E valid s" using sched_context.sched_reachable_ok [OF assms(1,3,2)] by simp
  have issue: "issue_alarm E now issuer ident s = remove_outdated_alarm_from_heap E i s"
    using assms(4-6) by (simp add: issue_alarm_def)
  show ?thesis
  proof (cases "timer_severity (sam_timer m) = sev")
    case True
    then show ?thesis
      using issue assms(5,6) by (simp add: remove_outdated_alarm_from_heap_def unsent_def)
  next
    case False
    then have "sam_severity m \<noteq> timer_severity (sam_timer m)" using assms(6) by simp
    from sched_context.remove_outdated_effect [OF assms(1) ok assms(5) this] obtain s' where
      "remove_outdated_alarm_from_heap E i s = Some s'" "find_alarm s' = find_alarm s" "unsent s s'"
      "\<And>j. in_heap E j s' \<longleftrightarrow> j \<noteq> i \<and> in_heap E j s" by blast
    with issue False show ?thesis by simp
  qed
qed

theorem repeat_cancels_change_witness:
  "\<exists>s'. issue_alarm sample_sched 6 ''monit'' ''1000.3'' sample_sent = Some s' \<and> unsent sample_sent s'"
proof -
  have trig: "validate_alarm_trigger (se_defs sample_sched) ''1000.3'' = Some (1000, severity_value CRITICAL)"
    by code_simp
  from repeat_cancels_change [OF sample_context sample_active_rows_ok
      timed_reachable_reachable [OF sample_sent_timed] trig sample_sent_manager, of 6 "''monit''"]
  show ?thesis by simp blast
qed

text \<open>
  C33. A request that names its alarm as \<open>index.severity\<close> in decimal is accepted exactly when the
  table defines that alarm at that severity, and then reaches the alarm and severity it names;
  otherwise the scheduler is left as it was.
\<close>

theorem trigger_reads_back:
  assumes "index < 2 ^ 32" and "sev < 2 ^ 32"
  shows "let ident = show_dec index @ CHR ''.'' # show_dec sev in
    (validate_alarm_trigger T ident =
       (if is_valid (get_definition T (of_nat index) (of_nat sev)) then Some (of_nat index, of_nat sev) else None)) \<and>
    (\<not> is_valid (get_definition (se_defs E) (of_nat index) (of_nat sev)) \<longrightarrow>
       issue_alarm E now issuer ident s = Some s)"
  using sscanf_show_dec [OF assms] by (simp add: validate_alarm_trigger_def issue_alarm_def)

theorem trigger_reads_back_witness:
  "validate_alarm_trigger sample_defs (show_dec 1000 @ CHR ''.'' # show_dec 3) = Some (1000, 3)"
proof -
  have "is_valid (get_definition sample_defs 1000 3)" by code_simp
  with trigger_reads_back [of 1000 3 sample_defs sample_sched 0 "[]" sample_start] show ?thesis by (simp add: Let_def)
qed

text \<open>
  C21. Synchronisation schedules every alarm that has been sent before, and no other, for its last
  sent severity.  An alarm whose timer holds another severity is due at once, and a change that was
  waiting for it is given up; an alarm already waiting to be sent again at that severity keeps its
  time, which may be later than now.
\<close>

theorem sync_schedules_sent_alarms:
  assumes "sched_context E valid" and "rows_ok t" and "sched_reachable E t s"
  shows "\<exists>s'. sync_alarms E now s = Some s' \<and> heap_sender_state s' = Awake \<and> unsent s s' \<and>
    (\<forall>i. find_alarm s' i = map_option (synced_manager now) (find_alarm s i)) \<and>
    (\<forall>i. in_heap E i s' \<longleftrightarrow> in_heap E i s \<or>
       (\<exists>m. find_alarm s i = Some m \<and> sam_severity m \<noteq> UNDEFINED_SEVERITY))"
proof -
  have ok: "sched_ok E valid s" using sched_context.sched_reachable_ok [OF assms(1,3,2)] by simp
  then have man: "managers_ok E s" by (simp add: sched_ok_def)
  have distinct: "distinct (map fst (all_alarms_state s))"
    using uint_map.ok_distinct managers_okD(1) [OF man] by blast
  have known: "i \<in> set (map fst (all_alarms_state s)) \<longleftrightarrow> alarm_known E i" for i
    using sched_context.keys_known [OF assms(1) man, of i] by simp
  have all: "\<forall>i \<in> set (map fst (all_alarms_state s)). alarm_known E i" using known by blast
  from sched_context.sync_loop_effect [OF assms(1) ok distinct all, of now]
  obtain s1 where s1: "sync_loop E now (map fst (all_alarms_state s)) s = Some s1" "unsent s s1"
    and find: "\<And>j. find_alarm s1 j = (if alarm_known E j then map_option (synced_manager now) (find_alarm s j) else find_alarm s j)"
    and mem: "\<And>j. in_heap E j s1 \<longleftrightarrow> in_heap E j s \<or>
         (alarm_known E j \<and> (\<exists>m. find_alarm s j = Some m \<and> sam_severity m \<noteq> UNDEFINED_SEVERITY))"
    unfolding known by blast
  have none: "\<not> alarm_known E j \<Longrightarrow> find_alarm s j = None" for j
    using managers_okD(4) [OF man, of j] by blast
  show ?thesis
  proof (intro exI conjI)
    show "sync_alarms E now s = Some (cond_signal s1)" using s1 by (simp add: sync_alarms_def)
    show "unsent s (cond_signal s1)" using sched_context.unsent_signal [OF assms(1) s1(2)] .
    show "\<forall>i. find_alarm (cond_signal s1) i = map_option (synced_manager now) (find_alarm s i)"
      using find none by simp
    show "\<forall>i. in_heap E i (cond_signal s1) \<longleftrightarrow> in_heap E i s \<or>
       (\<exists>m. find_alarm s i = Some m \<and> sam_severity m \<noteq> UNDEFINED_SEVERITY)"
      unfolding in_heap_cong [OF signal_fields(1) [of s1], of E] mem using none by (metis option.distinct(1))
  qed simp
qed

theorem sync_schedules_sent_alarms_witness:
  "\<exists>s'. sync_alarms sample_sched 9 sample_sent = Some s' \<and> in_heap sample_sched 1000 s' \<and>
    \<not> in_heap sample_sched 1001 s' \<and> 1000 \<in> due_alarms sample_sched 9 s'"
proof -
  from sync_schedules_sent_alarms [OF sample_context sample_active_rows_ok
      timed_reachable_reachable [OF sample_sent_timed], of 9] obtain s' where
    s': "sync_alarms sample_sched 9 sample_sent = Some s'"
    and find: "\<And>i. find_alarm s' i = map_option (synced_manager 9) (find_alarm sample_sent i)"
    and mem: "\<And>i. in_heap sample_sched i s' \<longleftrightarrow> in_heap sample_sched i sample_sent \<or>
       (\<exists>m. find_alarm sample_sent i = Some m \<and> sam_severity m \<noteq> UNDEFINED_SEVERITY)" by blast
  have never: "map_option sam_severity (find_alarm sample_sent 1001) = Some UNDEFINED_SEVERITY"
    "\<not> in_heap sample_sched 1001 sample_sent" by code_simp+
  have "pop_times_of s' 1000 = 9"
    by (simp add: pop_times_of_def find sample_sent_manager synced_manager_def new_AlarmTimer_def)
  with s' mem [of 1000] mem [of 1001] never sample_sent_manager show ?thesis
    by (auto simp: due_alarms_def)
qed

text \<open>
  C22. An alarm that the manager station did not acknowledge is retried: when net-snmp reports a
  time-out for an alarm whose severity is still the one last sent and which is not scheduled, it
  waits in the heap again at that severity.  A report for a severity that has been overtaken, for an
  alarm that is already scheduled, or of a delivery or a send failure changes nothing.
\<close>

theorem timeout_is_retried:
  assumes "sched_context E valid" and "rows_ok t" and "sched_reachable E t s"
    and "d \<in> set (all_definitions (se_defs E))" and "find_alarm s (alarm_index d) = Some m"
  shows "\<exists>s'. alarm_trap_send_callback E now oper d s = Some s' \<and> unsent s s' \<and>
    (if oper = NETSNMP_CALLBACK_OP_TIMED_OUT \<and> sam_severity m = severity d \<and> \<not> in_heap E (alarm_index d) s
     then in_heap E (alarm_index d) s' \<and> waiting_def E s' (alarm_index d) = d \<and>
       heap_sender_state s' = Awake \<and>
       (timer_severity (sam_timer m) \<noteq> severity d \<longrightarrow> pop_times_of s' (alarm_index d) = now + 30000)
     else s' = s)"
proof -
  have ok: "sched_ok E valid s" using sched_context.sched_reachable_ok [OF assms(1,3,2)] by simp
  let ?i = "alarm_index d"
  have def: "alarm_defined E ?i (severity d)" by (rule sched_context.definition_alarm_defined(1) [OF assms(1,4)])
  have look: "get_definition (se_defs E) ?i (severity_value (severity d)) = d"
    using all_definitions_key [OF sched_context.table [OF assms(1)] assms(4)] by (simp add: get_definition_def)
  show ?thesis
  proof (cases "oper = NETSNMP_CALLBACK_OP_TIMED_OUT \<and> sam_severity m = severity d \<and> \<not> in_heap E ?i s")
    case True
    have "managers_ok E s" "heap_ok E valid s" using ok by (simp_all add: sched_ok_def)
    from sched_context.change_schedule_for_alarm_effect [OF assms(1) this assms(5) def, of now ALARM_RETRY_DELAY]
    obtain s1 where s1: "change_schedule_for_alarm E now ?i (severity d) ALARM_RETRY_DELAY s = Some s1"
      and find: "find_alarm s1 = (find_alarm s)(?i \<mapsto> m\<lparr>sam_timer :=
          (if severity d = timer_severity (sam_timer m) then sam_timer m
           else (sam_timer m)\<lparr>timer_severity := severity d, pop_time := now + ALARM_RETRY_DELAY\<rparr>)\<rparr>)"
      and mem: "\<And>j. in_heap E j s1 \<longleftrightarrow> j = ?i \<or> in_heap E j s" by blast
    have "unsent s s1" using sched_context.schedule_ok [OF assms(1) ok def, of now ALARM_RETRY_DELAY] s1 by auto
    moreover have "alarm_trap_send_callback E now oper d s = Some (cond_signal s1)"
      using True assms(5) s1
      by (simp add: alarm_trap_send_callback_def handle_failed_alarm_def should_resend_alarm_def)
    moreover have "waiting_def E (cond_signal s1) ?i = d" using look by (auto simp: waiting_def_def find)
    ultimately show ?thesis
      using True mem sched_context.unsent_signal [OF assms(1), of s s1] in_heap_cong [of "cond_signal s1" s1]
      by (intro exI [of _ "cond_signal s1"]) (auto simp: pop_times_of_def find ALARM_RETRY_DELAY_def)
  next
    case False
    then have "alarm_trap_send_callback E now oper d s = Some s"
      using assms(5) by (cases oper)
        (auto simp: alarm_trap_send_callback_def handle_failed_alarm_def should_resend_alarm_def)
    with False show ?thesis by (auto simp: unsent_def)
  qed
qed

theorem timeout_is_retried_witness:
  "\<exists>s'. alarm_trap_send_callback sample_sched 100 NETSNMP_CALLBACK_OP_TIMED_OUT
      (get_definition (se_defs sample_sched) 1000 3) sample_sent = Some s' \<and>
    in_heap sample_sched 1000 s' \<and> pop_times_of s' 1000 = 30100"
proof -
  let ?d = "get_definition (se_defs sample_sched) 1000 3"
  have "alarm_defined sample_sched 1000 CRITICAL" by code_simp
  from sched_context.alarm_defined_def_of [OF sample_context this]
  have d: "?d \<in> set (all_definitions (se_defs sample_sched))" "alarm_index ?d = 1000" "severity ?d = CRITICAL"
    by simp_all
  have out: "\<not> in_heap sample_sched 1000 sample_sent" by code_simp
  have m: "find_alarm sample_sent (alarm_index ?d) =
      Some \<lparr>sam_timer = new_AlarmTimer 1000, sam_severity = CRITICAL\<rparr>"
    unfolding d(2) by (rule sample_sent_manager)
  from timeout_is_retried [OF sample_context sample_active_rows_ok
      timed_reachable_reachable [OF sample_sent_timed] d(1) m, of 100 NETSNMP_CALLBACK_OP_TIMED_OUT]
  obtain s' where "alarm_trap_send_callback sample_sched 100 NETSNMP_CALLBACK_OP_TIMED_OUT ?d sample_sent = Some s'"
    "in_heap sample_sched 1000 s'" "pop_times_of s' 1000 = 100 + 30000"
    unfolding d(2,3) using out by (auto simp: new_AlarmTimer_def)
  then show ?thesis by simp
qed

end
