(* ===== verification/Req_Listener.thy ===== *)
theory Req_Listener
  imports Scheduler_Sender
begin

text \<open>
  The listener of alarm requests (\<open>include/alarm_req_listener.hpp\<close>,
  \<open>src/alarm_req_listener.cpp\<close>): starting and stopping it, receiving the parts of a request,
  and passing requests to the scheduler.  The results of the ZeroMQ, file and thread calls are
  arguments.
\<close>

section \<open>Starting and stopping\<close>

text \<open>Whether the pointers are set, and whether the listener thread has been created.\<close>

record AlarmReqListener =
  rl_ctx :: bool
  rl_sck :: bool
  rl_thread :: bool

definition new_AlarmReqListener :: AlarmReqListener where
  "new_AlarmReqListener = \<lparr>rl_ctx = False, rl_sck = False, rl_thread = False\<rparr>"

datatype remove_result = Removed | ENOENT | RemoveError

record req_start_env =
  rs_ctx_new :: bool
  rs_socket :: bool
  rs_remove :: remove_result
  rs_bind :: "unit attempt list"
  rs_chmod :: bool
  rs_thread :: bool

definition zmq_init_ctx :: "req_start_env \<Rightarrow> AlarmReqListener \<Rightarrow> bool \<times> AlarmReqListener" where
  "zmq_init_ctx Z l = (rs_ctx_new Z, l\<lparr>rl_ctx := rs_ctx_new Z\<rparr>)"

text \<open>\<^const>\<open>None\<close>: \<open>zmq_bind\<close> has been interrupted every time so far and is being repeated.\<close>

definition zmq_init_sck :: "req_start_env \<Rightarrow> AlarmReqListener \<Rightarrow> (bool \<times> AlarmReqListener) option" where
  "zmq_init_sck Z l =
     (let l1 = l\<lparr>rl_sck := rs_socket Z\<rparr>
      in if \<not> rs_socket Z then Some (False, l1)
         else if rs_remove Z = RemoveError then Some (False, l1)
         else case retry (rs_bind Z) of
                None \<Rightarrow> None
              | Some Interrupted \<Rightarrow> None
              | Some Failed \<Rightarrow> Some (False, l1)
              | Some (Got _) \<Rightarrow> Some (rs_chmod Z, l1))"

definition zmq_clean_sck :: "AlarmReqListener \<Rightarrow> AlarmReqListener" where
  "zmq_clean_sck l = l\<lparr>rl_sck := False\<rparr>"

text \<open>
  \<open>zmq_ctx_destroy\<close> makes the calls on the sockets of the context fail, and returns when the
  sockets are closed.  The listener thread, if there is one, then leaves its loop and closes its
  socket, unless it has done so before; with no thread nobody closes an open socket, and the call
  never returns: \<^const>\<open>None\<close>.
\<close>

definition zmq_clean_ctx :: "AlarmReqListener \<Rightarrow> AlarmReqListener option" where
  "zmq_clean_ctx l =
     (if rl_ctx l
      then let l1 = (if rl_thread l then zmq_clean_sck l else l)
           in if rl_sck l1 then None else Some (l1\<lparr>rl_ctx := False\<rparr>)
      else Some l)"

text \<open>
  \<^const>\<open>None\<close>: \<open>start\<close> does not return.  The handshake with a new thread is in
  \<open>Start_Handshake\<close>.
\<close>

definition start_listener :: "req_start_env \<Rightarrow> AlarmReqListener \<Rightarrow> (bool \<times> AlarmReqListener) option" where
  "start_listener Z l =
     (case zmq_init_ctx Z l of
        (False, l1) \<Rightarrow> Some (False, l1)
      | (True, l1) \<Rightarrow>
          (case zmq_init_sck Z l1 of
             None \<Rightarrow> None
           | Some (False, l2) \<Rightarrow> Some (False, l2)
           | Some (True, l2) \<Rightarrow>
               if rs_thread Z then Some (True, l2\<lparr>rl_thread := True\<rparr>)
               else map_option (Pair False) (zmq_clean_ctx l2)))"

text \<open>\<open>pthread_join\<close> needs a thread that has been created.\<close>

definition stop_listener :: "AlarmReqListener \<Rightarrow> AlarmReqListener option" where
  "stop_listener l =
     (case zmq_clean_ctx l of
        None \<Rightarrow> None
      | Some l1 \<Rightarrow> if rl_thread l1 then Some (l1\<lparr>rl_thread := False\<rparr>) else None)"

text \<open>What is started can be stopped, and leaves nothing open.\<close>

lemma stop_after_start:
  "start_listener Z new_AlarmReqListener = Some (True, l) \<Longrightarrow> stop_listener l = Some new_AlarmReqListener"
  by (auto simp: start_listener_def zmq_init_ctx_def zmq_init_sck_def zmq_clean_ctx_def zmq_clean_sck_def
      stop_listener_def new_AlarmReqListener_def Let_def split: bool.splits if_splits option.splits attempt.splits)

section \<open>Receiving requests\<close>

record req_part =
  rp_init :: bool
  rp_recv :: "string attempt list"
  rp_more :: "bool attempt list"
  rp_close :: bool

datatype next_result = RecvBlocked | RecvFailed | RecvOk "string list" "req_part list"

fun next_msg :: "req_part list \<Rightarrow> string list \<Rightarrow> next_result" where
  "next_msg [] msg = RecvBlocked"
| "next_msg (p # ps) msg =
     (if \<not> rp_init p then RecvFailed
      else case retry (rp_recv p) of
             None \<Rightarrow> RecvBlocked
           | Some Interrupted \<Rightarrow> RecvBlocked
           | Some Failed \<Rightarrow> RecvFailed
           | Some (Got d) \<Rightarrow>
               (case retry (rp_more p) of
                  None \<Rightarrow> RecvBlocked
                | Some Interrupted \<Rightarrow> RecvBlocked
                | Some Failed \<Rightarrow> RecvFailed
                | Some (Got has_more) \<Rightarrow>
                    if \<not> rp_close p then RecvFailed
                    else if has_more then next_msg ps (msg @ [d])
                    else RecvOk (msg @ [d]) ps))"

text \<open>The dispatch of one request; \<^const>\<open>None\<close> is an access to an empty vector or a failure below.\<close>

definition request ::
  "('h, 'c) sched_env \<Rightarrow> u64 \<Rightarrow> string list \<Rightarrow> ('h, 'c) scheduler \<Rightarrow> ('h, 'c) scheduler option" where
  "request E now msg s =
     (case vec_at msg 0 of
        None \<Rightarrow> None
      | Some cmd \<Rightarrow>
          if cmd = ''issue-alarm'' \<and> length msg = 3 then issue_alarm E now (msg ! 1) (msg ! 2) s
          else if cmd = ''sync-alarms'' \<and> length msg = 1 then sync_alarms E now s
          else if cmd = ''poll'' \<and> length msg = 1 then Some s
          else Some s)"

datatype listening = Listening | Stopped

lemma next_msg_shorter: "next_msg ps msg = RecvOk m rest \<Longrightarrow> length rest < length ps"
proof (induction ps arbitrary: msg)
  case (Cons p ps)
  then show ?case by (fastforce split: if_splits option.splits attempt.splits)
qed simp

text \<open>The answers handed to \<open>zmq_send\<close> so far; one that cannot be sent is only logged.\<close>

definition reply :: "string \<Rightarrow> string list \<Rightarrow> string list" where
  "reply response replies = replies @ [response]"

text \<open>
  The loop of the thread on the parts that arrive; \<open>clk n\<close> is the time of the \<open>n\<close>-th request.
  The replies are collected; a failed receive closes the socket and ends the thread.
\<close>

function listener ::
  "('h, 'c) sched_env \<Rightarrow> (nat \<Rightarrow> u64) \<Rightarrow> req_part list \<Rightarrow> ('h, 'c) scheduler \<Rightarrow> string list \<Rightarrow>
   (listening \<times> ('h, 'c) scheduler \<times> string list) option" where
  "listener E clk ps s replies =
     (case next_msg ps [] of
        RecvBlocked \<Rightarrow> Some (Listening, s, replies)
      | RecvFailed \<Rightarrow> Some (Stopped, s, replies)
      | RecvOk msg rest \<Rightarrow>
          (case request E (clk (length replies)) msg s of
             None \<Rightarrow> None
           | Some s' \<Rightarrow> listener E clk rest s' (reply ''ok'' replies)))"
  by pat_completeness auto
termination
  by (relation "measure (\<lambda>(E, clk, ps, s, replies). length ps)") (auto dest: next_msg_shorter)

declare listener.simps [simp del] reply_def [simp]

text \<open>
  The function that the thread runs: when the loop ends, the termination semaphore, if there is one,
  is posted, so that the main program shuts down.  The first component tells whether it is.
\<close>

definition listener_thread ::
  "bool \<Rightarrow> ('h, 'c) sched_env \<Rightarrow> (nat \<Rightarrow> u64) \<Rightarrow> req_part list \<Rightarrow> ('h, 'c) scheduler \<Rightarrow>
   (bool \<times> ('h, 'c) scheduler \<times> string list) option" where
  "listener_thread term_sem E clk ps s =
     map_option (\<lambda>(e, s', replies). (e = Stopped \<and> term_sem, s', replies)) (listener E clk ps s [])"

text \<open>The requests that arrive whole before the first failure.\<close>

function whole_msgs :: "req_part list \<Rightarrow> string list list" where
  "whole_msgs ps =
     (case next_msg ps [] of
        RecvOk msg rest \<Rightarrow> msg # whole_msgs rest
      | _ \<Rightarrow> [])"
  by pat_completeness auto
termination
  by (relation "measure length") (auto dest: next_msg_shorter)

declare whole_msgs.simps [simp del]

text \<open>
  A request as its client sends it: all parts but the last announce another one.  \<open>k d\<close> is how
  often the two calls for the part \<open>d\<close> are interrupted by a signal.
\<close>

definition part_of :: "(string \<Rightarrow> nat \<times> nat) \<Rightarrow> bool \<Rightarrow> string \<Rightarrow> req_part" where
  "part_of k has_more d =
     \<lparr>rp_init = True, rp_recv = replicate (fst (k d)) Interrupted @ [Got d],
      rp_more = replicate (snd (k d)) Interrupted @ [Got has_more], rp_close = True\<rparr>"

fun msg_parts :: "(string \<Rightarrow> nat \<times> nat) \<Rightarrow> string list \<Rightarrow> req_part list" where
  "msg_parts k [] = []"
| "msg_parts k (d # ds) = part_of k (ds \<noteq> []) d # msg_parts k ds"

text \<open>The requests carried out one after the other.\<close>

fun run_requests ::
  "('h, 'c) sched_env \<Rightarrow> (nat \<Rightarrow> u64) \<Rightarrow> nat \<Rightarrow> string list list \<Rightarrow> ('h, 'c) scheduler \<Rightarrow>
   ('h, 'c) scheduler option" where
  "run_requests E clk n [] s = Some s"
| "run_requests E clk n (m # ms) s =
     (case request E (clk n) m s of
        None \<Rightarrow> None
      | Some s' \<Rightarrow> run_requests E clk (Suc n) ms s')"

text \<open>Whether receiving the next request fails after the whole ones.\<close>

function receive_fails :: "req_part list \<Rightarrow> bool" where
  "receive_fails ps =
     (case next_msg ps [] of
        RecvOk msg rest \<Rightarrow> receive_fails rest
      | RecvFailed \<Rightarrow> True
      | RecvBlocked \<Rightarrow> False)"
  by pat_completeness auto
termination
  by (relation "measure length") (auto dest: next_msg_shorter)

declare receive_fails.simps [simp del]

section \<open>Lemmas\<close>

lemma next_msg_parts: "m \<noteq> [] \<Longrightarrow> next_msg (msg_parts k m @ rest) acc = RecvOk (acc @ m) rest"
proof (induction m arbitrary: acc)
  case (Cons d ds)
  then show ?case by (cases "ds = []") (simp_all add: part_of_def)
qed simp

lemma listener_parts:
  "\<forall>m \<in> set ms. m \<noteq> [] \<Longrightarrow>
    listener E clk (concat (map (msg_parts k) ms)) s replies =
      map_option (\<lambda>s'. (Listening, s', replies @ replicate (length ms) ''ok''))
        (run_requests E clk (length replies) ms s)"
proof (induction ms arbitrary: s replies)
  case Nil
  show ?case by (simp add: listener.simps [of E clk "[]"])
next
  case (Cons m ms)
  then have "listener E clk (concat (map (msg_parts k) (m # ms))) s replies =
      (case request E (clk (length replies)) m s of
         None \<Rightarrow> None
       | Some s' \<Rightarrow> listener E clk (concat (map (msg_parts k) ms)) s' (reply ''ok'' replies))"
    by (subst listener.simps) (simp add: next_msg_parts)
  with Cons show ?case by (simp split: option.splits)
qed

lemma next_msg_nonempty: "next_msg ps msg = RecvOk m rest \<Longrightarrow> m \<noteq> []"
proof (induction ps arbitrary: msg)
  case (Cons p ps)
  then show ?case by (fastforce split: if_splits option.splits attempt.splits)
qed simp

context sched_context
begin

lemma request_reachable:
  assumes reach: "sched_reachable E t s" and rows: "rows_ok t" and "msg \<noteq> []"
  obtains s' where "request E now msg s = Some s'" and "sched_reachable E t s'"
proof -
  have ok: "sched_ok E valid s" using sched_reachable_ok [OF reach rows] by simp
  obtain s1 where s1: "issue_alarm E now (msg ! 1) (msg ! 2) s = Some s1"
    using issue_alarm_ok [OF ok] by blast
  obtain s2 where s2: "sync_alarms E now s = Some s2" using sync_alarms_ok [OF ok] by blast
  have reach12: "sched_reachable E t s1" "sched_reachable E t s2"
    using sched_reachable.step [OF reach] sched_step.issue [OF s1] sched_step.sync [OF s2] by blast+
  have "request E now msg s \<in> {Some s1, Some s2, Some s}"
    using \<open>msg \<noteq> []\<close> s1 s2 by (simp add: request_def vec_at_def del: One_nat_def)
  with reach12 reach that show thesis by blast
qed

lemma run_requests_reachable:
  "sched_reachable E t s \<Longrightarrow> rows_ok t \<Longrightarrow> \<forall>m \<in> set ms. m \<noteq> [] \<Longrightarrow>
    \<exists>s'. run_requests E clk n ms s = Some s' \<and> sched_reachable E t s'"
proof (induction ms arbitrary: n s)
  case (Cons m ms)
  obtain s1 where "request E (clk n) m s = Some s1" "sched_reachable E t s1"
    using request_reachable [OF Cons.prems(1,2), of m "clk n"] Cons.prems(3) by auto
  with Cons show ?case by simp
qed simp

lemma listener_replies:
  "sched_reachable E t s \<Longrightarrow> rows_ok t \<Longrightarrow>
    \<exists>s'. listener E clk ps s replies =
        Some (if receive_fails ps then Stopped else Listening, s',
              replies @ replicate (length (whole_msgs ps)) ''ok'') \<and> sched_reachable E t s'"
proof (induction ps arbitrary: s replies rule: whole_msgs.induct)
  case (1 ps)
  note unfold = listener.simps [of E clk ps] whole_msgs.simps [of ps] receive_fails.simps [of ps]
  show ?case
  proof (cases "next_msg ps []")
    case (RecvOk msg rest)
    obtain s1 where s1: "request E (clk (length replies)) msg s = Some s1" "sched_reachable E t s1"
      using request_reachable [OF 1(2,3) next_msg_nonempty [OF RecvOk]] .
    from 1(1) [OF RecvOk s1(2) 1(3), of "replies @ [''ok'']"] s1(1) RecvOk show ?thesis
      by (auto simp: unfold)
  qed (use 1(2) in \<open>simp_all add: unfold\<close>)
qed

end

end
