(* ===== verification/Active_Agreement.thy ===== *)
theory Active_Agreement
  imports Scheduler_Timing
begin

text \<open>
  The scheduler and the active alarm table together: the table shows every alarm at the severity
  that the scheduler last sent for it.
\<close>

section \<open>The severity last sent\<close>

definition last_sent :: "('h, 'c) scheduler \<Rightarrow> u32 \<Rightarrow> Severity option" where
  "last_sent s i =
     (case find_alarm s i of
        None \<Rightarrow> None
      | Some m \<Rightarrow> if sam_severity m = UNDEFINED_SEVERITY \<or> sam_severity m = CLEARED then None
                  else Some (sam_severity m))"

definition agrees :: "('h, 'c) scheduler \<Rightarrow> bool" where
  "agrees s \<longleftrightarrow> active_severity (active s) = last_sent s \<and> my_handler (active s) \<noteq> None"

section \<open>The rows of the table\<close>

lemma rows_ok_card:
  assumes "rows_ok st" and "dom (active_severity st) \<subseteq> K" and "finite K"
  shows "finite (dom (row_store st)) \<and> card (dom (row_store st)) \<le> card K"
proof -
  let ?f = "\<lambda>i. the (alarm_indexes_to_rows st (ucast i))"
  have "dom (row_store st) \<subseteq> ?f ` K"
  proof
    fix a assume "a \<in> dom (row_store st)"
    then obtain ctx where ctx: "row_store st a = Some ctx" by blast
    note addr = rows_ok_address [OF assms(1) ctx]
    then have "alarm_index (ac_def ctx) \<in> dom (active_severity st)"
      using ctx by (simp add: active_severity_def dom_def)
    then show "a \<in> ?f ` K" using assms(2) addr by force
  qed
  with assms(3) show ?thesis
    by (meson card_image_le card_mono finite_imageI finite_subset le_trans)
qed

lemma dom_raise_or_clear: "dom (raise_or_clear d f) \<subseteq> insert (alarm_index d) (dom f)"
  by (auto simp: raise_or_clear_def split: if_splits)

text \<open>A run of the trap handler over alarms of a set that memory suffices for.\<close>

lemma run_traps_severity:
  assumes "malloc_fresh (ae_malloc E)" and "malloc_serves n (ae_malloc E)" and "build_oid_spec (ae_build_oid E)"
    and "finite K" and "card K < n"
  shows "rows_ok st \<Longrightarrow> my_handler st \<noteq> None \<Longrightarrow> dom (active_severity st) \<subseteq> K \<Longrightarrow>
    alarm_index ` snd ` set ts \<subseteq> K \<Longrightarrow> run_traps E ts st = Some st' \<Longrightarrow>
    active_severity st' = fold raise_or_clear (map snd ts) (active_severity st) \<and> my_handler st' \<noteq> None"
proof (induction ts arbitrary: st)
  case Nil
  then show ?case by simp
next
  case (Cons p ts)
  obtain lt d where p: "p = (lt, d)" by (cases p)
  obtain st1 where st1: "alarmActiveTable_trap_handler E lt d st = Some st1" "rows_ok st1" "my_handler st1 = my_handler st"
    using trap_handler_rows_ok [OF Cons.prems(1) assms(1), of lt d] by blast
  have "finite (dom (row_store st))" "card (dom (row_store st)) < n"
    using rows_ok_card [OF Cons.prems(1,3) assms(4)] assms(5) by auto
  from trap_handler_refines [OF Cons.prems(1) assms(1-3) Cons.prems(2) this st1(1)]
  have step: "active_severity st1 = raise_or_clear d (active_severity st)" .
  have "dom (active_severity st1) \<subseteq> K"
    using step dom_raise_or_clear [of d "active_severity st"] Cons.prems(3,4) p by auto
  with Cons.IH [OF st1(2)] st1 step Cons.prems(2,4,5) p show ?case by simp
qed

lemma fold_raise_or_clear:
  "distinct (map alarm_index ds) \<Longrightarrow>
    fold raise_or_clear ds f i =
      (case find (\<lambda>d. alarm_index d = i) ds of
         None \<Rightarrow> f i
       | Some d \<Rightarrow> if severity d = CLEARED then None else Some (severity d))"
proof (induction ds arbitrary: f)
  case Nil
  then show ?case by simp
next
  case (Cons d ds)
  have "i = alarm_index d \<Longrightarrow> find (\<lambda>d. alarm_index d = i) ds = None"
    using Cons.prems unfolding find_None_iff by (simp add: image_iff) metis
  with Cons show ?case by (auto simp: raise_or_clear_def split: option.splits)
qed

lemma find_indexed:
  assumes "\<And>j. j \<in> set js \<Longrightarrow> alarm_index (g j) = j"
  shows "find (\<lambda>d. alarm_index d = i) (map g js) = (if i \<in> set js then Some (g i) else None)"
  using assms by (induction js) auto

section \<open>Every step keeps the agreement\<close>

lemma last_sent_severity:
  "last_sent s i =
     (case map_option sam_severity (find_alarm s i) of
        None \<Rightarrow> None
      | Some sev \<Rightarrow> if sev = UNDEFINED_SEVERITY \<or> sev = CLEARED then None else Some sev)"
  by (simp add: last_sent_def split: option.split)

lemma agrees_unsent: "agrees s \<Longrightarrow> unsent s s' \<Longrightarrow> agrees s'"
proof -
  assume "agrees s" "unsent s s'"
  moreover from this have "last_sent s' = last_sent s"
    by (simp add: unsent_def last_sent_severity fun_eq_iff)
  ultimately show ?thesis by (simp add: agrees_def unsent_def)
qed

context sched_context
begin

text \<open>The definition that an alarm in the heap waits to send.\<close>

lemma waiting_def_props:
  assumes ok: "sched_ok E valid s" and i: "in_heap E i s" and defined: "severities_defined (se_defs E)"
  shows "alarm_index (waiting_def E s i) = i \<and> i \<in> alarm_index ` set (all_definitions (se_defs E)) \<and>
    map_option (timer_severity \<circ> sam_timer) (find_alarm s i) = Some (severity (waiting_def E s i)) \<and>
    severity (waiting_def E s i) \<noteq> UNDEFINED_SEVERITY"
proof -
  obtain m where m: "find_alarm s i = Some m" and def: "alarm_defined E i (timer_severity (sam_timer m))"
    using in_heap_manager [OF ok i] .
  note d = alarm_defined_def_of [OF def]
  have w: "waiting_def E s i = get_definition (se_defs E) i (severity_value (timer_severity (sam_timer m)))"
    by (simp add: waiting_def_def m)
  have "severity (waiting_def E s i) \<noteq> UNDEFINED_SEVERITY"
    unfolding w using d(3) defined unfolding severities_defined_def by blast
  then show ?thesis
    using m d(1,2) alarm_defined_known [OF def] unfolding w by (simp add: alarm_known_def)
qed

text \<open>The fold of the traps over the alarms of a round.\<close>

text \<open>What the table shows after a round: the alarms sent, and the others as before.\<close>

lemma sent_severities:
  assumes ok: "sched_ok E valid s" and ag: "agrees s" and sent: "alarms_sent E clk is s s'"
    and dist: "distinct is"
    and index: "\<And>i. i \<in> set is \<Longrightarrow> alarm_index (waiting_def E s i) = i"
    and known: "set is \<subseteq> alarm_index ` set (all_definitions (se_defs E))"
    and bo: "build_oid_spec (ae_build_oid (se_active E))"
    and mem: "malloc_serves n (ae_malloc (se_active E))"
    and room: "card (alarm_index ` set (all_definitions (se_defs E))) < n"
  shows "active_severity (active s') i =
      (if i \<in> set is
       then (if severity (waiting_def E s i) = CLEARED then None else Some (severity (waiting_def E s i)))
       else last_sent s i)"
    and "my_handler (active s') \<noteq> None"
proof -
  let ?K = "alarm_index ` set (all_definitions (se_defs E))"
  let ?ts = "map (\<lambda>i. (clk i, waiting_def E s i)) is"
  have dom: "dom (active_severity (active s)) \<subseteq> ?K"
  proof
    fix i assume "i \<in> dom (active_severity (active s))"
    then have "find_alarm s i \<noteq> None" using ag by (auto simp: agrees_def last_sent_def split: option.splits)
    then show "i \<in> ?K" using ok managers_okD(4) [of E s i] by (simp add: sched_ok_def alarm_known_def)
  qed
  have rows: "rows_ok (active s)" and handler: "my_handler (active s) \<noteq> None"
    using ok ag by (simp_all add: sched_ok_def agrees_def)
  have run: "run_traps (se_active E) ?ts (active s) = Some (active s')" using sent by (simp add: alarms_sent_def)
  have idx: "alarm_index ` snd ` set ?ts \<subseteq> ?K" using index known by auto
  have snds: "map snd ?ts = map (waiting_def E s) is" by simp
  have start: "active_severity (active s) = last_sent s" using ag by (simp add: agrees_def)
  note traps = run_traps_severity [OF allocator mem bo _ room rows handler dom idx run, unfolded snds start, simplified]
  have "map alarm_index (map (waiting_def E s) is) = is" using index by (simp add: map_idI)
  then have "active_severity (active s') i =
      (case find (\<lambda>d. alarm_index d = i) (map (waiting_def E s) is) of
         None \<Rightarrow> last_sent s i
       | Some d \<Rightarrow> if severity d = CLEARED then None else Some (severity d))"
    unfolding conjunct1 [OF traps] using dist by (intro fold_raise_or_clear) simp
  moreover have "find (\<lambda>d. alarm_index d = i) (map (waiting_def E s) is) =
      (if i \<in> set is then Some (waiting_def E s i) else None)"
    by (rule find_indexed) (rule index)
  ultimately show "active_severity (active s') i =
      (if i \<in> set is
       then (if severity (waiting_def E s i) = CLEARED then None else Some (severity (waiting_def E s i)))
       else last_sent s i)" by simp
  show "my_handler (active s') \<noteq> None" using conjunct2 [OF traps] by blast
qed

lemma agrees_sent:
  assumes ok: "sched_ok E valid s" and ag: "agrees s" and sent: "alarms_sent E clk is s s'"
    and dist: "distinct is" and heap: "\<forall>i \<in> set is. in_heap E i s"
    and defined: "severities_defined (se_defs E)" and bo: "build_oid_spec (ae_build_oid (se_active E))"
    and mem: "malloc_serves n (ae_malloc (se_active E))"
    and room: "card (alarm_index ` set (all_definitions (se_defs E))) < n"
  shows "agrees s'"
proof -
  have waiting: "alarm_index (waiting_def E s i) = i" "i \<in> alarm_index ` set (all_definitions (se_defs E))"
    "map_option (timer_severity \<circ> sam_timer) (find_alarm s i) = Some (severity (waiting_def E s i))"
    "severity (waiting_def E s i) \<noteq> UNDEFINED_SEVERITY" if "i \<in> set is" for i
    using waiting_def_props [OF ok bspec [OF heap that] defined] by simp_all
  have known: "set is \<subseteq> alarm_index ` set (all_definitions (se_defs E))" using waiting(2) by blast
  have shown: "active_severity (active s') i =
      (if i \<in> set is
       then (if severity (waiting_def E s i) = CLEARED then None else Some (severity (waiting_def E s i)))
       else last_sent s i)" for i
    by (rule sent_severities(1) [OF ok ag sent dist _ known bo mem room]) (rule waiting(1))
  have "my_handler (active s') \<noteq> None"
    by (rule sent_severities(2) [OF ok ag sent dist _ known bo mem room]) (rule waiting(1))
  moreover have "active_severity (active s') i = last_sent s' i" for i
  proof (cases "i \<in> set is")
    case True
    then have "find_alarm s' i = map_option (sent_manager i) (find_alarm s i)"
      using sent by (simp add: alarms_sent_def)
    then have "map_option sam_severity (find_alarm s' i) = Some (severity (waiting_def E s i))"
      using waiting(3) [OF True] by (simp add: option.map_comp comp_def sent_manager_def)
    then show ?thesis unfolding shown using True waiting(4) [OF True] by (auto simp: last_sent_def)
  next
    case False
    then have "find_alarm s' i = find_alarm s i" using sent by (simp add: alarms_sent_def)
    then show ?thesis unfolding shown last_sent_def using False by simp
  qed
  ultimately show ?thesis by (auto simp: agrees_def)
qed

lemma agrees_step:
  assumes "sched_step E now s s'" and ok: "sched_ok E valid s" and ag: "agrees s"
    and env: "severities_defined (se_defs E)" "build_oid_spec (ae_build_oid (se_active E))"
      "malloc_serves n (ae_malloc (se_active E))" "card (alarm_index ` set (all_definitions (se_defs E))) < n"
  shows "agrees s'"
  using assms(1)
proof cases
  case (issue issuer ident)
  with issue_alarm_ok [OF ok, of now issuer ident] agrees_unsent [OF ag] show ?thesis by auto
next
  case sync
  with sync_alarms_ok [OF ok, of now] agrees_unsent [OF ag] show ?thesis by auto
next
  case (report d oper)
  with callback_ok [OF ok, of d now oper] agrees_unsent [OF ag] show ?thesis by auto
next
  case (round fuel clk)
  show ?thesis
  proof (cases "terminated s")
    case True
    with round ag show ?thesis by (simp add: heap_sender_round_def)
  next
    case False
    with round obtain s1 where s1: "heap_sender_due fuel E clk now s = Some s1" "s' = heap_sender_wait E s1"
      by (auto simp: heap_sender_round_def)
    from heap_sender_due_sends [OF ok s1(1)] obtain "is" where
      "is": "distinct is" "set is = due_alarms E now s" "alarms_sent E clk is s s1" by blast
    have "\<forall>i \<in> set is. in_heap E i s" using "is"(2) by (simp add: due_alarms_def)
    from agrees_sent [OF ok ag "is"(3,1) this env] show ?thesis
      by (simp add: s1(2) heap_sender_wait_def agrees_def last_sent_def fun_eq_iff)
  qed
next
  case stop
  with ag show ?thesis by (simp add: terminate_scheduler_def agrees_def last_sent_def fun_eq_iff)
qed

lemma agrees_reachable:
  assumes "sched_reachable E t s" and "rows_ok t" and "my_handler t \<noteq> None" and "row_store t = Map.empty"
    and env: "severities_defined (se_defs E)" "build_oid_spec (ae_build_oid (se_active E))"
      "malloc_serves n (ae_malloc (se_active E))" "card (alarm_index ` set (all_definitions (se_defs E))) < n"
  shows "agrees s"
  using assms(1)
proof induction
  case start
  have "active_severity t i = None" for i
    using assms(2,4) by (auto simp: active_severity_def rows_ok_def split: option.splits)
  with assms(3) show ?case
    using initial_find [of t] by (auto simp: agrees_def last_sent_def fun_eq_iff new_AlarmScheduler_def)
next
  case (step s now s')
  then show ?case using agrees_step [OF _ _ _ env] sched_reachable_ok [OF step.hyps(1) assms(2)] by blast
qed

end

end
