(* ===== verification/Agent.thy ===== *)
theory Agent
  imports Req_Listener Active_Agreement
begin

text \<open>
  The alarm agent's \<open>main\<close> (\<open>src/alarms_agent.cpp\<close>): reading the options, connecting to
  the inform sinks, and bringing up the definitions, the tables, the scheduler and the listener in
  that order.  The options arrive as \<open>getopt_long\<close> returns them; \<open>Utils::split_string\<close>,
  \<open>Utils::split_host_port\<close> and everything the components take as an argument are arguments.
\<close>

section \<open>Options\<close>

datatype OptionTypes =
    OPT_COMMUNITY string
  | OPT_SNMP_NOTIFICATION_TYPE string
  | OPT_LOCAL_IP string
  | OPT_HOSTNAME string
  | OPT_SNMP_IPS string
  | OPT_LOG_LEVEL string
  | OPT_LOG_DIR string
  | OPT_UNKNOWN

record agent_options =
  trap_ips :: "string list"
  community :: "string option"
  snmp_notifications :: notification_set
  opt_local_ip :: string
  hostname :: string
  logdir :: string
  loglevel :: i32

definition default_options :: agent_options where
  "default_options =
     \<lparr>trap_ips = [], community = None, snmp_notifications = [], opt_local_ip = ''0.0.0.0'',
      hostname = [], logdir = [], loglevel = 4\<rparr>"

text \<open>\<open>Utils::split_string\<close> adds the tokens to the vector that it is given.\<close>

type_synonym split_fn = "string \<Rightarrow> char \<Rightarrow> string list \<Rightarrow> string list"

fun add_notification_types :: "string list \<Rightarrow> notification_set \<Rightarrow> notification_set" where
  "add_notification_types [] ns = ns"
| "add_notification_types (t # ts) ns =
     add_notification_types ts
       (if t = ''rfc3877'' then notifications_insert RFC3877 ns
        else if t = ''enterprise'' then notifications_insert ENTERPRISE ns
        else ns)"

text \<open>One turn of the option loop; \<^const>\<open>None\<close> is \<open>abort()\<close>.\<close>

definition set_option :: "split_fn \<Rightarrow> OptionTypes \<Rightarrow> agent_options \<Rightarrow> agent_options option" where
  "set_option split c opts =
     (case c of
        OPT_COMMUNITY optarg \<Rightarrow> Some (opts\<lparr>community := Some optarg\<rparr>)
      | OPT_SNMP_NOTIFICATION_TYPE optarg \<Rightarrow>
          Some (opts\<lparr>snmp_notifications :=
            add_notification_types (split optarg (CHR '','') []) (snmp_notifications opts)\<rparr>)
      | OPT_SNMP_IPS optarg \<Rightarrow> Some (opts\<lparr>trap_ips := split optarg (CHR '','') (trap_ips opts)\<rparr>)
      | OPT_LOCAL_IP optarg \<Rightarrow> Some (opts\<lparr>opt_local_ip := optarg\<rparr>)
      | OPT_HOSTNAME optarg \<Rightarrow> Some (opts\<lparr>hostname := optarg\<rparr>)
      | OPT_LOG_LEVEL optarg \<Rightarrow> Some (opts\<lparr>loglevel := atoi optarg\<rparr>)
      | OPT_LOG_DIR optarg \<Rightarrow> Some (opts\<lparr>logdir := optarg\<rparr>)
      | OPT_UNKNOWN \<Rightarrow> None)"

fun parse_options :: "split_fn \<Rightarrow> OptionTypes list \<Rightarrow> agent_options \<Rightarrow> agent_options option" where
  "parse_options split [] opts = Some opts"
| "parse_options split (c # cs) opts =
     (case set_option split c opts of
        None \<Rightarrow> None
      | Some opts' \<Rightarrow> parse_options split cs opts')"

definition notifications_or_default :: "notification_set \<Rightarrow> notification_set" where
  "notifications_or_default ns = (if ns = [] then notifications_insert RFC3877 ns else ns)"

section \<open>Inform sinks\<close>

record trap_session =
  sess_host :: string
  sess_port :: int
  sess_community :: "string option"

definition trap_sink ::
  "(string \<Rightarrow> (string \<times> int) option) \<Rightarrow> string option \<Rightarrow> string \<Rightarrow> trap_session" where
  "trap_sink split_host_port com addr =
     (case split_host_port addr of
        Some (host, port) \<Rightarrow> \<lparr>sess_host = host, sess_port = port, sess_community = com\<rparr>
      | None \<Rightarrow> \<lparr>sess_host = addr, sess_port = 162, sess_community = com\<rparr>)"

fun connect_sinks ::
  "(string \<Rightarrow> (string \<times> int) option) \<Rightarrow> string option \<Rightarrow> string list \<Rightarrow> trap_session list" where
  "connect_sinks split_host_port com [] = []"
| "connect_sinks split_host_port com (a # as) =
     trap_sink split_host_port com a # connect_sinks split_host_port com as"

section \<open>The main program\<close>

text \<open>
  What the start-up finds: the directory of alarm files, the values cpp-common gives to a definition by default, the row
  containers, whether the allocations for the registration of each table (by its name) and of its
  rows succeed, and the calls that start the listener.
\<close>

record ('h, 'c, 'm) main_env =
  me_split :: split_fn
  me_split_host_port :: "string \<Rightarrow> (string \<times> int) option"
  me_validate :: validator
  me_dir :: "dir_entry list option"
  me_default_definition :: AlarmDefinition
  me_default_details :: SeverityDetails
  me_static :: "(AlarmTableDef, 'm) container_ops"
  me_static_mem :: "AlarmTableDef \<Rightarrow> bool"
  me_info_ok :: "string \<Rightarrow> bool"
  me_handler_ok :: "string \<Rightarrow> bool"
  me_active :: "'c active_env"
  me_heap :: "'h heap_ops"
  me_severity_gt :: "Severity \<Rightarrow> Severity \<Rightarrow> bool"
  me_start :: req_start_env

text \<open>The definition table that \<open>main\<close> declares.\<close>

abbreviation me_new_defs :: "('h, 'c, 'm) main_env \<Rightarrow> AlarmTableDefs" where
  "me_new_defs M \<equiv> new_AlarmTableDefs (me_default_definition M) (me_default_details M)"

record ('h, 'c, 'm) agent =
  ag_sessions :: "trap_session list"
  ag_env :: "('h, 'c) sched_env"
  ag_model :: "'m table_state"
  ag_itu :: "'m table_state"
  ag_active :: "'c active_table"
  ag_scheduler :: "('h, 'c) scheduler"
  ag_listener :: "AlarmReqListener option"

text \<open>
  How \<open>main\<close> gets on up to the point where it waits for the termination signal: it aborts, exits
  with a code, never comes back from the listener's \<open>start\<close>, or runs.
\<close>

datatype 'a outcome = Aborted | Exited int | Start_Blocked | Running 'a

definition agent_main ::
  "('h, 'c, 'm) main_env \<Rightarrow> OptionTypes list \<Rightarrow> ('h, 'c, 'm) agent outcome" where
  "agent_main M argv =
     (case parse_options (me_split M) argv default_options of
        None \<Rightarrow> Aborted
      | Some opts \<Rightarrow>
          let ns = notifications_or_default (snmp_notifications opts);
              sessions = connect_sinks (me_split_host_port M) (community opts) (trap_ips opts);
              (rc, defs) = initialize (me_validate M) (me_dir M) (me_new_defs M)
          in if \<not> rc then Exited 1
             else
               let bo = ae_build_oid (me_active M);
                   model = init_alarmModelTable bo (me_static M) (me_info_ok M ''alarmModelTable'')
                     (me_handler_ok M ''alarmModelTable'') (me_static_mem M) defs fresh_table;
                   itu = init_ituAlarmTable bo (me_static M) (me_info_ok M ''ituAlarmTable'')
                     (me_handler_ok M ''ituAlarmTable'') (me_static_mem M) defs fresh_table;
                   act = snd (init_alarmActiveTable (me_active M) (me_info_ok M ''alarmActiveTable'')
                     (me_handler_ok M ''alarmActiveTable'') (opt_local_ip opts) fresh_active);
                   E = \<lparr>se_heap = me_heap M, se_severity_gt = me_severity_gt M, se_defs = defs,
                        se_sender = \<lparr>ts_notifications = ns, ts_hostname = hostname opts\<rparr>,
                        se_active = me_active M\<rparr>;
                   sched = new_AlarmScheduler E act
               in case start_listener (me_start M) new_AlarmReqListener of
                    None \<Rightarrow> Start_Blocked
                  | Some (False, _) \<Rightarrow> Exited 1
                  | Some (True, l) \<Rightarrow>
                      Running \<lparr>ag_sessions = sessions, ag_env = E, ag_model = model, ag_itu = itu,
                        ag_active = act, ag_scheduler = sched, ag_listener = Some l\<rparr>)"

text \<open>
  The shutdown after the termination signal.  The listener is freed; its class has no destructor, so
  that nothing is done about its thread and its socket (\<open>Shutdown\<close> has what the thread may do
  meanwhile).  Then the scheduler is destroyed; what is left of it is what its destructor leaves.
\<close>

definition agent_shutdown ::
  "nat \<Rightarrow> (u32 \<Rightarrow> local_time) \<Rightarrow> u64 \<Rightarrow> ('h, 'c, 'm) agent \<Rightarrow> ('h, 'c, 'm) agent option" where
  "agent_shutdown fuel clk now a =
     (let a1 = a\<lparr>ag_listener := None\<rparr>
      in map_option (\<lambda>s. a1\<lparr>ag_scheduler := s\<rparr>)
           (delete_AlarmScheduler fuel (ag_env a1) clk now (ag_scheduler a1)))"

section \<open>Lemmas\<close>

lemma notifications_insert_nonempty: "notifications_insert n ns \<noteq> []"
  by (cases ns) (auto simp: notifications_insert_def split: if_splits)

lemma notifications_or_default_nonempty: "notifications_or_default ns \<noteq> []"
  by (simp add: notifications_or_default_def notifications_insert_nonempty)

lemma connect_sinks_map: "connect_sinks f com as = map (trap_sink f com) as"
  by (induction as) simp_all

text \<open>The options are read unless one is unknown.\<close>

lemma parse_options_None: "parse_options split argv opts = None \<longleftrightarrow> OPT_UNKNOWN \<in> set argv"
proof (induction argv arbitrary: opts)
  case (Cons c cs)
  then show ?case by (cases c) (auto simp: set_option_def)
qed simp

text \<open>The notification types that the options name.\<close>

fun named_types :: "split_fn \<Rightarrow> OptionTypes list \<Rightarrow> string list" where
  "named_types split [] = []"
| "named_types split (OPT_SNMP_NOTIFICATION_TYPE optarg # cs) = split optarg (CHR '','') [] @ named_types split cs"
| "named_types split (_ # cs) = named_types split cs"

abbreviation types_in :: "notification_set \<Rightarrow> NotificationType set" where
  "types_in ns \<equiv> fst ` set ns"

definition types_named :: "string list \<Rightarrow> NotificationType set" where
  "types_named ts =
     {n. n = RFC3877 \<and> ''rfc3877'' \<in> set ts \<or> n = ENTERPRISE \<and> ''enterprise'' \<in> set ts}"

lemma types_named_append [simp]: "types_named (ts @ us) = types_named ts \<union> types_named us"
  by (auto simp: types_named_def)

lemma types_named_Nil [simp]: "types_named [] = {}"
  by (simp add: types_named_def)

lemma types_in_insert [simp]: "types_in (notifications_insert n ns) = insert n (types_in ns)"
  unfolding notifications_insert_def
proof (induction ns)
  case (Cons p ns)
  obtain a where "p = (a, ())" by (cases p) simp
  with Cons show ?case by (cases a; cases n) auto
qed simp

lemma types_in_add: "types_in (add_notification_types ts ns) = types_in ns \<union> types_named ts"
  by (induction ts arbitrary: ns) (auto simp: types_named_def)

lemma parse_options_types:
  "parse_options split argv opts = Some opts' \<Longrightarrow>
    types_in (snmp_notifications opts') =
      types_in (snmp_notifications opts) \<union> types_named (named_types split argv)"
proof (induction argv arbitrary: opts)
  case (Cons c cs)
  from Cons.prems show ?case
    by (cases c) (simp_all add: set_option_def types_in_add Un_assoc Cons.IH)
qed simp

lemma parsed_types:
  assumes "parse_options split argv default_options = Some opts"
  shows "types_in (notifications_or_default (snmp_notifications opts)) =
    (if types_named (named_types split argv) = {} then {RFC3877} else types_named (named_types split argv))"
proof -
  have "types_in (snmp_notifications opts) = types_named (named_types split argv)"
    using parse_options_types [OF assms] by (simp add: default_options_def)
  moreover from this have "snmp_notifications opts = [] \<longleftrightarrow> types_named (named_types split argv) = {}"
    by (cases "snmp_notifications opts") auto
  ultimately show ?thesis by (auto simp: notifications_or_default_def)
qed

text \<open>The listener starts when every call it makes succeeds.\<close>

definition start_succeeds :: "req_start_env \<Rightarrow> bool" where
  "start_succeeds Z \<longleftrightarrow> rs_ctx_new Z \<and> rs_socket Z \<and> rs_remove Z \<noteq> RemoveError \<and>
     retry (rs_bind Z) = Some (Got ()) \<and> rs_chmod Z \<and> rs_thread Z"

text \<open>
  It never returns when \<open>zmq_bind\<close> is interrupted over and over, and when the socket is ready but
  the thread cannot be created: the context is destroyed with the socket still open.
\<close>

definition start_blocks :: "req_start_env \<Rightarrow> bool" where
  "start_blocks Z \<longleftrightarrow> rs_ctx_new Z \<and> rs_socket Z \<and> rs_remove Z \<noteq> RemoveError \<and>
     (retry (rs_bind Z) = None \<or> retry (rs_bind Z) = Some (Got ()) \<and> rs_chmod Z \<and> \<not> rs_thread Z)"

lemma start_listener_cases:
  shows start_listener_rc: "(\<exists>l'. start_listener Z new_AlarmReqListener = Some (True, l')) \<longleftrightarrow> start_succeeds Z"
    and start_listener_None: "start_listener Z new_AlarmReqListener = None \<longleftrightarrow> start_blocks Z"
  using retry_not_interrupted [of "rs_bind Z"]
  by (auto simp: start_listener_def start_succeeds_def start_blocks_def zmq_init_ctx_def zmq_init_sck_def
      zmq_clean_ctx_def new_AlarmReqListener_def Let_def split: bool.splits option.splits attempt.splits)

lemmas main_splits = option.splits prod.splits if_splits bool.splits

text \<open>The four outcomes.\<close>

lemma agent_main_outcome:
  shows agent_main_aborted: "agent_main M argv = Aborted \<longleftrightarrow> OPT_UNKNOWN \<in> set argv"
    and agent_main_runs: "(\<exists>a. agent_main M argv = Running a) \<longleftrightarrow>
      OPT_UNKNOWN \<notin> set argv \<and> fst (initialize (me_validate M) (me_dir M) (me_new_defs M)) \<and>
      start_succeeds (me_start M)"
    and agent_main_blocks: "agent_main M argv = Start_Blocked \<longleftrightarrow>
      OPT_UNKNOWN \<notin> set argv \<and> fst (initialize (me_validate M) (me_dir M) (me_new_defs M)) \<and>
      start_blocks (me_start M)"
    and agent_main_exits: "agent_main M argv = Exited rc \<Longrightarrow> rc = 1"
  using parse_options_None [of "me_split M" argv default_options]
    start_listener_cases [of "me_start M"]
  by (auto simp: agent_main_def Let_def split: main_splits)

text \<open>The exit code is 1 in all the other cases.\<close>

lemma agent_main_exit_iff:
  "agent_main M argv = Exited rc \<longleftrightarrow> rc = 1 \<and> OPT_UNKNOWN \<notin> set argv \<and>
    \<not> (fst (initialize (me_validate M) (me_dir M) (me_new_defs M)) \<and>
       (start_succeeds (me_start M) \<or> start_blocks (me_start M)))"
  using agent_main_aborted [of M argv] agent_main_runs [of M argv] agent_main_blocks [of M argv]
    agent_main_exits [of M argv]
  by (cases "agent_main M argv") auto

lemma agent_main_options:
  assumes "agent_main M argv = Running a"
  shows "\<exists>opts. parse_options (me_split M) argv default_options = Some opts \<and>
      ag_sessions a = map (trap_sink (me_split_host_port M) (community opts)) (trap_ips opts)"
    and "types_in (ts_notifications (se_sender (ag_env a))) =
      (if types_named (named_types (me_split M) argv) = {} then {RFC3877}
       else types_named (named_types (me_split M) argv))"
proof -
  obtain opts where opts: "parse_options (me_split M) argv default_options = Some opts"
    "ag_sessions a = map (trap_sink (me_split_host_port M) (community opts)) (trap_ips opts)"
    "ts_notifications (se_sender (ag_env a)) = notifications_or_default (snmp_notifications opts)"
    using assms
    by (auto simp: agent_main_def Let_def connect_sinks_map split: main_splits)
  from opts(1,2) show "\<exists>opts. parse_options (me_split M) argv default_options = Some opts \<and>
      ag_sessions a = map (trap_sink (me_split_host_port M) (community opts)) (trap_ips opts)" by blast
  show "types_in (ts_notifications (se_sender (ag_env a))) =
      (if types_named (named_types (me_split M) argv) = {} then {RFC3877}
       else types_named (named_types (me_split M) argv))"
    unfolding opts(3) by (rule parsed_types [OF opts(1)])
qed

text \<open>What the scheduler, the tables and the listener need holds as soon as the agent runs.\<close>

lemma agent_main_running:
  assumes "agent_main M argv = Running a"
  shows "fst (initialize (me_validate M) (me_dir M) (me_new_defs M))"
    and "se_defs (ag_env a) = snd (initialize (me_validate M) (me_dir M) (me_new_defs M))"
    and "se_heap (ag_env a) = me_heap M" and "se_active (ag_env a) = me_active M"
    and "defs_ok (se_defs (ag_env a))" and "rows_ok (ag_active a)" and "row_store (ag_active a) = Map.empty"
    and "ag_scheduler a = new_AlarmScheduler (ag_env a) (ag_active a)"
    and "ts_notifications (se_sender (ag_env a)) \<noteq> []"
    and "me_info_ok M ''alarmActiveTable'' \<Longrightarrow> me_handler_ok M ''alarmActiveTable'' \<Longrightarrow> my_handler (ag_active a) \<noteq> None"
  using assms defs_ok_initialize [OF new_defs_invalid, of "me_validate M" "me_dir M"
      "me_default_definition M" "me_default_details M"]
  by (auto simp: agent_main_def Let_def notifications_or_default_nonempty init_alarmActiveTable_def
      register_table_def fresh_active_def rows_ok_def
      split: main_splits)

end
