(* ===== verification/Start_Handshake.thy ===== *)
theory Start_Handshake
  imports Req_Listener
begin

text \<open>
  The handshake between \<open>AlarmReqListener::start\<close> and the thread that it creates
  (\<open>src/alarm_req_listener.cpp\<close>): the main thread waits on a condition variable that the new
  thread signals, and destroys the variable and its mutex as soon as its wait is over.  Steps are
  the calls on the mutex and the condition variable, interleaved in every way POSIX allows.
  \<open>ok\<close> says whether \<open>pthread_create\<close> succeeds, \<open>spurious\<close> whether a wait may end with
  no signal, as POSIX permits.
\<close>

section \<open>The two threads\<close>


















section \<open>The invariant\<close>















section \<open>Properties\<close>



end
