(* ===== verification/Shutdown.thy ===== *)
theory Shutdown
  imports Agent Scheduler_Props
begin

text \<open>
  How the agent ends (\<open>src/alarms_agent.cpp\<close> from \<open>sem_wait\<close> on) while its other threads
  run.  The main thread waits for the termination semaphore, which the handler of \<open>SIGTERM\<close>
  posts and the listener thread when it ends, and then deletes the listener and the scheduler and
  stops net-snmp.  The other threads reach the two objects through pointers; a step through a pointer
  to a deleted object is the fault looked for.  net-snmp keeps the INFORMs whose delivery it has not
  reported yet, and reports them through \<open>AlarmTrapSender\<close>, whose pointer to the scheduler
  nobody resets.
\<close>

section \<open>The threads\<close>

datatype shutdown_pc = Sem_Wait | Delete_Listener | Delete_Scheduler | Snmp_Terminate | Process_Ended

text \<open>Where the listener thread is: in \<open>next_msg\<close>, with a request, and so on to its end.\<close>

datatype request_pc = Next_Msg | Dispatch "string list" | Reply | Clean_Sck | Post_Sem | Ended

text \<open>
  The objects and threads.  \<open>sh_outstanding\<close> has the correlator of every delivery that net-snmp
  has still to report, one for each INFORM and sink.
\<close>

record ('h, 'c) shutdown =
  sh_scheduler :: "('h, 'c) scheduler option"
  sh_listener :: bool
  sh_outstanding :: "AlarmTableDef list"
  sh_sem :: nat
  sh_main :: shutdown_pc
  sh_thread :: request_pc
  sh_fault :: bool

text \<open>
  The surroundings: whether \<open>SIGTERM\<close> may come, which results net-snmp may report for a delivery,
  the number of inform sinks, and the environment of the scheduler.
\<close>

record ('h, 'c) shutdown_env =
  su_sigterm :: bool
  su_reports :: "callback_op \<Rightarrow> bool"
  su_sinks :: nat
  su_sched :: "('h, 'c) sched_env"

definition shutdown_start :: "AlarmTableDef list \<Rightarrow> ('h, 'c) scheduler \<Rightarrow> ('h, 'c) shutdown" where
  "shutdown_start outstanding s =
     \<lparr>sh_scheduler = Some s, sh_listener = True, sh_outstanding = outstanding, sh_sem = 0,
      sh_main = Sem_Wait, sh_thread = Next_Msg, sh_fault = False\<rparr>"

text \<open>The requests that are passed to the scheduler.\<close>

definition uses_scheduler :: "string list \<Rightarrow> bool" where
  "uses_scheduler msg \<longleftrightarrow>
     msg \<noteq> [] \<and> (hd msg = ''issue-alarm'' \<and> length msg = 3 \<or> hd msg = ''sync-alarms'' \<and> length msg = 1)"

text \<open>Whether the next step of the listener thread goes through its pointer to the listener.\<close>

fun uses_listener :: "request_pc \<Rightarrow> bool" where
  "uses_listener (Dispatch msg) = uses_scheduler msg"
| "uses_listener Ended = False"
| "uses_listener _ = True"

definition agent_terminate_handler :: "('h, 'c) shutdown \<Rightarrow> ('h, 'c) shutdown" where
  "agent_terminate_handler x = x\<lparr>sh_sem := Suc (sh_sem x)\<rparr>"

text \<open>
  \<open>AlarmTrapSender::alarm_trap_send_callback\<close> through the pointer \<open>_alarm_scheduler\<close>, which the
  object pointed to may have left: only a time-out follows it.  The result is what the pointer then
  points to; \<^const>\<open>None\<close> is following it to a deleted scheduler.
\<close>

definition callback_through ::
  "('h, 'c) sched_env \<Rightarrow> u64 \<Rightarrow> callback_op \<Rightarrow> AlarmTableDef \<Rightarrow> ('h, 'c) scheduler option \<Rightarrow>
   ('h, 'c) scheduler option option" where
  "callback_through E now oper d p =
     (case oper of
        NETSNMP_CALLBACK_OP_RECEIVED_MESSAGE \<Rightarrow> Some p
      | NETSNMP_CALLBACK_OP_SEND_FAILED \<Rightarrow> Some p
      | NETSNMP_CALLBACK_OP_TIMED_OUT \<Rightarrow>
          (case p of None \<Rightarrow> None | Some s \<Rightarrow> map_option Some (handle_failed_alarm E now d s))
      | CALLBACK_OP_OTHER _ \<Rightarrow> Some p)"

definition report_delivery ::
  "('h, 'c) sched_env \<Rightarrow> u64 \<Rightarrow> callback_op \<Rightarrow> AlarmTableDef \<Rightarrow> ('h, 'c) shutdown \<Rightarrow> ('h, 'c) shutdown" where
  "report_delivery E now oper d x =
     (let x1 = x\<lparr>sh_outstanding := remove1 d (sh_outstanding x)\<rparr>
      in case callback_through E now oper d (sh_scheduler x1) of
           None \<Rightarrow> x1\<lparr>sh_fault := True\<rparr>
         | Some p \<Rightarrow> x1\<lparr>sh_scheduler := p\<rparr>)"

text \<open>The deliveries that start when a round of the heap-sender thread turns \<open>s\<close> into \<open>s'\<close>.\<close>

definition new_deliveries :: "nat \<Rightarrow> ('h, 'c) scheduler \<Rightarrow> ('h, 'c) scheduler \<Rightarrow> AlarmTableDef list" where
  "new_deliveries sinks s s' =
     concat (replicate sinks (map in_correlator (drop (length (informs s)) (informs s'))))"

text \<open>The main thread.  \<open>snmp_terminate\<close> ends net-snmp, which reports nothing after it.\<close>

inductive main_act :: "('h, 'c) sched_env \<Rightarrow> ('h, 'c) shutdown \<Rightarrow> ('h, 'c) shutdown \<Rightarrow> bool" for E where
  sem_wait: "sh_main x = Sem_Wait \<Longrightarrow> sh_sem x = Suc n \<Longrightarrow>
    main_act E x (x\<lparr>sh_sem := n, sh_main := Delete_Listener\<rparr>)"
| delete_listener: "sh_main x = Delete_Listener \<Longrightarrow>
    main_act E x (x\<lparr>sh_listener := False, sh_main := Delete_Scheduler\<rparr>)"
| delete_scheduler: "sh_main x = Delete_Scheduler \<Longrightarrow> sh_scheduler x = Some s \<Longrightarrow>
    delete_AlarmScheduler fuel E clk now s = Some s' \<Longrightarrow>
    main_act E x (x\<lparr>sh_scheduler := None, sh_main := Snmp_Terminate\<rparr>)"
| terminate: "sh_main x = Snmp_Terminate \<Longrightarrow>
    main_act E x (x\<lparr>sh_outstanding := [], sh_main := Process_Ended\<rparr>)"

text \<open>The signal, the heap-sender thread, net-snmp and the listener thread.\<close>

inductive other_act :: "('h, 'c) shutdown_env \<Rightarrow> ('h, 'c) shutdown \<Rightarrow> ('h, 'c) shutdown \<Rightarrow> bool" for U where
  signal: "su_sigterm U \<Longrightarrow> other_act U x (agent_terminate_handler x)"
| sender: "sh_scheduler x = Some s \<Longrightarrow> heap_sender_round fuel (su_sched U) clk now s = Some s' \<Longrightarrow>
    other_act U x (x\<lparr>sh_scheduler := Some s',
      sh_outstanding := sh_outstanding x @ new_deliveries (su_sinks U) s s'\<rparr>)"
| report: "d \<in> set (sh_outstanding x) \<Longrightarrow> su_reports U oper \<Longrightarrow>
    other_act U x (report_delivery (su_sched U) now oper d x)"
| receive: "sh_thread x = Next_Msg \<Longrightarrow> sh_listener x \<Longrightarrow> msg \<noteq> [] \<Longrightarrow>
    other_act U x (x\<lparr>sh_thread := Dispatch msg\<rparr>)"
| receive_fails: "sh_thread x = Next_Msg \<Longrightarrow> sh_listener x \<Longrightarrow>
    other_act U x (x\<lparr>sh_thread := Clean_Sck\<rparr>)"
| dispatch: "sh_thread x = Dispatch msg \<Longrightarrow> uses_scheduler msg \<Longrightarrow> sh_listener x \<Longrightarrow> sh_scheduler x = Some s \<Longrightarrow>
    request (su_sched U) now msg s = Some s' \<Longrightarrow>
    other_act U x (x\<lparr>sh_scheduler := Some s', sh_thread := Reply\<rparr>)"
| dispatch_other: "sh_thread x = Dispatch msg \<Longrightarrow> \<not> uses_scheduler msg \<Longrightarrow>
    other_act U x (x\<lparr>sh_thread := Reply\<rparr>)"
| reply: "sh_thread x = Reply \<Longrightarrow> sh_listener x \<Longrightarrow> other_act U x (x\<lparr>sh_thread := Next_Msg\<rparr>)"
| clean: "sh_thread x = Clean_Sck \<Longrightarrow> sh_listener x \<Longrightarrow> other_act U x (x\<lparr>sh_thread := Post_Sem\<rparr>)"
| post: "sh_thread x = Post_Sem \<Longrightarrow> sh_listener x \<Longrightarrow>
    other_act U x (x\<lparr>sh_sem := Suc (sh_sem x), sh_thread := Ended\<rparr>)"
| dangling: "uses_listener (sh_thread x) \<Longrightarrow> \<not> sh_listener x \<Longrightarrow>
    other_act U x (x\<lparr>sh_fault := True\<rparr>)"

definition shutdown_act :: "('h, 'c) shutdown_env \<Rightarrow> ('h, 'c) shutdown \<Rightarrow> ('h, 'c) shutdown \<Rightarrow> bool" where
  "shutdown_act U x x' \<longleftrightarrow> main_act (su_sched U) x x' \<or> other_act U x x'"

text \<open>The end of the process ends all its threads.\<close>

inductive shutdown_reachable ::
  "('h, 'c) shutdown_env \<Rightarrow> AlarmTableDef list \<Rightarrow> ('h, 'c) scheduler \<Rightarrow> ('h, 'c) shutdown \<Rightarrow> bool"
  for U outstanding s where
  start: "shutdown_reachable U outstanding s (shutdown_start outstanding s)"
| step: "shutdown_reachable U outstanding s x \<Longrightarrow> sh_main x \<noteq> Process_Ended \<Longrightarrow> \<not> sh_fault x \<Longrightarrow>
    shutdown_act U x x' \<Longrightarrow> shutdown_reachable U outstanding s x'"

text \<open>How many steps the main thread has still to take, and the listener thread to its end.\<close>

fun main_left :: "shutdown_pc \<Rightarrow> nat" where
  "main_left Sem_Wait = 4"
| "main_left Delete_Listener = 3"
| "main_left Delete_Scheduler = 2"
| "main_left Snmp_Terminate = 1"
| "main_left Process_Ended = 0"

fun thread_left :: "request_pc \<Rightarrow> nat" where
  "thread_left (Dispatch _) = 5"
| "thread_left Reply = 4"
| "thread_left Next_Msg = 3"
| "thread_left Clean_Sck = 2"
| "thread_left Post_Sem = 1"
| "thread_left Ended = 0"

section \<open>Deliveries\<close>

lemma callback_through_Some:
  "callback_through E now oper d (Some s) = map_option Some (alarm_trap_send_callback E now oper d s)"
  by (cases oper) (simp_all add: callback_through_def alarm_trap_send_callback_def)

lemma callback_through_None:
  "callback_through E now oper d None = (if oper = NETSNMP_CALLBACK_OP_TIMED_OUT then None else Some None)"
  by (cases oper) (simp_all add: callback_through_def)

lemma sent_informs_correlators:
  assumes "i \<in> set (sent_informs E ds)"
  shows "in_correlator i \<in> set ds"
proof -
  obtain d where d: "d \<in> set ds" "i \<in> set (case send_trap (se_sender E) d of None \<Rightarrow> [] | Some infs \<Rightarrow> infs)"
    using assms unfolding sent_informs_def set_concat set_map by blast
  obtain infs where "send_trap (se_sender E) d = Some infs" "length infs = length (ts_notifications (se_sender E))"
    "\<forall>i \<in> set infs. in_correlator i = d" by (rule send_trap_total)
  with d show ?thesis by simp
qed

context sched_context
begin

text \<open>Every delivery is of a definition of the table.\<close>

lemma new_deliveries_defined:
  assumes ok: "sched_ok E valid s" and round: "heap_sender_round fuel E clk now s = Some s'"
  shows "set (new_deliveries n s s') \<subseteq> set (all_definitions (se_defs E))"
proof (cases "terminated s")
  case True
  with round show ?thesis by (auto simp: heap_sender_round_def new_deliveries_def)
next
  case False
  with round obtain s1 where s1: "heap_sender_due fuel E clk now s = Some s1" "s' = heap_sender_wait E s1"
    by (auto simp: heap_sender_round_def)
  from heap_sender_due_sends [OF ok s1(1)] obtain "is" where
    "is": "set is = due_alarms E now s" "alarms_sent E clk is s s1" by blast
  have "waiting_def E s i \<in> set (all_definitions (se_defs E))" if i: "i \<in> set is" for i
  proof -
    have "in_heap E i s" using i "is"(1) by (simp add: due_alarms_def)
    then obtain m where "find_alarm s i = Some m" "alarm_defined E i (timer_severity (sam_timer m))"
      using in_heap_manager [OF ok] by metis
    then show ?thesis using alarm_defined_def_of(3) by (simp add: waiting_def_def)
  qed
  then have defined: "set (map (waiting_def E s) is) \<subseteq> set (all_definitions (se_defs E))" by auto
  have "informs s' = informs s @ sent_informs E (map (waiting_def E s) is)"
    using "is"(2) s1(2) by (simp add: alarms_sent_def heap_sender_wait_def)
  then have "set (new_deliveries n s s') \<subseteq> in_correlator ` set (sent_informs E (map (waiting_def E s) is))"
    by (auto simp: new_deliveries_def)
  also have "\<dots> \<subseteq> set (map (waiting_def E s) is)" using sent_informs_correlators by blast
  finally show ?thesis using defined by blast
qed

end

section \<open>The orderly end\<close>

text \<open>
  With no signal the semaphore is posted once, by the thread when it has made its last use of the
  listener, and the objects are deleted after that.
\<close>

definition orderly :: "('h, 'c) sched_env \<Rightarrow> 'c active_table \<Rightarrow> ('h, 'c) shutdown \<Rightarrow> bool" where
  "orderly E t x \<longleftrightarrow>
     (\<forall>s. sh_scheduler x = Some s \<longrightarrow> sched_reachable E t s) \<and>
     set (sh_outstanding x) \<subseteq> set (all_definitions (se_defs E)) \<and>
     sh_sem x = (if sh_main x = Sem_Wait \<and> sh_thread x = Ended then 1 else 0) \<and>
     (sh_main x \<noteq> Sem_Wait \<longrightarrow> sh_thread x = Ended) \<and>
     sh_listener x = (sh_main x \<in> {Sem_Wait, Delete_Listener}) \<and>
     (sh_main x \<in> {Sem_Wait, Delete_Listener, Delete_Scheduler} \<longleftrightarrow> sh_scheduler x \<noteq> None) \<and>
     (sh_main x = Process_Ended \<longrightarrow> sh_outstanding x = [])"

lemma request_step:
  "request E now msg s = Some s' \<Longrightarrow> sched_reachable E t s \<Longrightarrow> sched_reachable E t s'"
  by (auto simp: request_def split: option.splits if_splits intro: sched_reachable.step sched_step.intros)

lemma orderly_start:
  "sched_reachable E t s \<Longrightarrow> set outstanding \<subseteq> set (all_definitions (se_defs E)) \<Longrightarrow>
    orderly E t (shutdown_start outstanding s)"
  by (simp add: orderly_def shutdown_start_def)

lemma main_act_orderly: "main_act E x x' \<Longrightarrow> orderly E t x \<Longrightarrow> orderly E t x'"
  by (induction rule: main_act.induct) (auto simp: orderly_def split: if_splits)

lemma main_act_fault: "main_act E x x' \<Longrightarrow> sh_fault x' = sh_fault x"
  by (induction rule: main_act.induct) simp_all

text \<open>The steps of the main thread lead to its end, and the others leave it where it is.\<close>

lemma main_act_left: "main_act E x x' \<Longrightarrow> main_left (sh_main x') < main_left (sh_main x)"
  by (induction rule: main_act.induct) simp_all

lemma other_act_main:
  "other_act U x x' \<Longrightarrow> sh_main x' = sh_main x \<and> (sh_thread x = Ended \<longrightarrow> sh_thread x' = Ended)"
  by (induction rule: other_act.induct)
    (auto simp: agent_terminate_handler_def report_delivery_def Let_def split: option.splits)

context sched_context
begin

text \<open>A report for a scheduler that exists, and for one that is gone.\<close>

lemma report_delivery_orderly:
  assumes ord: "orderly E t x" and rows: "rows_ok t" and d: "d \<in> set (sh_outstanding x)"
  shows "orderly E t (report_delivery E now oper d x)"
    and "sh_fault (report_delivery E now oper d x) \<longleftrightarrow>
      sh_fault x \<or> oper = NETSNMP_CALLBACK_OP_TIMED_OUT \<and> sh_scheduler x = None"
proof -
  have rest: "set (remove1 d (sh_outstanding x)) \<subseteq> set (all_definitions (se_defs E))"
    using ord set_remove1_subset [of d "sh_outstanding x"] by (auto simp: orderly_def)
  have "orderly E t (report_delivery E now oper d x) \<and>
    (sh_fault (report_delivery E now oper d x) \<longleftrightarrow>
      sh_fault x \<or> oper = NETSNMP_CALLBACK_OP_TIMED_OUT \<and> sh_scheduler x = None)"
  proof (cases "sh_scheduler x")
    case None
    with ord rest show ?thesis
      by (auto simp: report_delivery_def callback_through_None orderly_def Let_def)
  next
    case (Some s)
    then have reach: "sched_reachable E t s" using ord by (simp add: orderly_def)
    have def: "d \<in> set (all_definitions (se_defs E))" using ord d by (auto simp: orderly_def)
    have "sched_ok E valid s" using sched_reachable_ok [OF reach rows] by simp
    from callback_ok [OF this def, of now oper] obtain s' where
      s': "alarm_trap_send_callback E now oper d s = Some s'" by blast
    then have "sched_reachable E t s'"
      using sched_reachable.step [OF reach sched_step.report [OF def]] by blast
    with Some s' ord rest show ?thesis
      by (auto simp: report_delivery_def callback_through_Some orderly_def Let_def)
  qed
  then show "orderly E t (report_delivery E now oper d x)"
    and "sh_fault (report_delivery E now oper d x) \<longleftrightarrow>
      sh_fault x \<or> oper = NETSNMP_CALLBACK_OP_TIMED_OUT \<and> sh_scheduler x = None" by simp_all
qed

lemma other_act_orderly:
  assumes "other_act U x x'" and "su_sched U = E" and "\<not> su_sigterm U" and "orderly E t x" and "rows_ok t"
    and "sh_main x \<noteq> Process_Ended"
  shows "orderly E t x' \<and> (sh_fault x' \<longrightarrow> sh_fault x \<or> su_reports U NETSNMP_CALLBACK_OP_TIMED_OUT \<and> sh_outstanding x \<noteq> [])"
  using assms
proof (induction rule: other_act.induct)
  case (sender x s fuel clk now s')
  then have reach: "sched_reachable E t s" by (simp add: orderly_def)
  then have "sched_reachable E t s'" using sender by (auto intro: sched_reachable.step sched_step.round)
  moreover have "sched_ok E valid s" using sched_reachable_ok [OF reach sender.prems(4)] by simp
  ultimately show ?case using sender new_deliveries_defined by (fastforce simp: orderly_def)
next
  case (report d x oper now)
  then show ?case using report_delivery_orderly [of t x d now oper] by auto
next
  case (dispatch x msg s now s')
  then show ?case by (auto simp: orderly_def intro: request_step)
qed (auto simp: orderly_def split: if_splits)

lemma orderly_reachable:
  "shutdown_reachable U outstanding s x \<Longrightarrow> su_sched U = E \<Longrightarrow> \<not> su_sigterm U \<Longrightarrow> rows_ok t \<Longrightarrow>
    sched_reachable E t s \<Longrightarrow> set outstanding \<subseteq> set (all_definitions (se_defs E)) \<Longrightarrow> orderly E t x"
  by (induction rule: shutdown_reachable.induct)
    (auto simp: shutdown_act_def intro: orderly_start main_act_orderly dest: other_act_orderly)

text \<open>A fault without a signal is a time-out that is reported too late.\<close>

lemma fault_late:
  assumes "shutdown_reachable U outstanding s x" and "sh_fault x" and "su_sched U = E" and "\<not> su_sigterm U"
    and "rows_ok t" and "sched_reachable E t s" and "set outstanding \<subseteq> set (all_definitions (se_defs E))"
  shows "su_reports U NETSNMP_CALLBACK_OP_TIMED_OUT \<and>
    (\<exists>x. shutdown_reachable U outstanding s x \<and> sh_outstanding x \<noteq> [])"
  using assms(1,2)
proof cases
  case start
  with assms(2) show ?thesis by (simp add: shutdown_start_def)
next
  case (step y)
  have "orderly E t y" using orderly_reachable [OF step(1) assms(3-7)] .
  from other_act_orderly [OF _ assms(3,4) this assms(5) step(2), of x] step(3,4) assms(2,3) show ?thesis
    using main_act_fault [of E y x] step(1) by (auto simp: shutdown_act_def)
qed

text \<open>Once the listener thread has ended the main thread can go on until the process ends.\<close>

lemma orderly_progress:
  assumes "orderly E t x" and "rows_ok t" and "sh_thread x = Ended" and "sh_main x \<noteq> Process_Ended"
  shows "\<exists>x'. main_act E x x'"
proof (cases "sh_main x")
  case Sem_Wait
  with assms(1,3) have "sh_sem x = Suc 0" by (simp add: orderly_def)
  with Sem_Wait show ?thesis by (blast intro: main_act.sem_wait)
next
  case Delete_Listener
  then show ?thesis by (blast intro: main_act.delete_listener)
next
  case Delete_Scheduler
  with assms(1) obtain s where s: "sh_scheduler x = Some s" "sched_reachable E t s" by (auto simp: orderly_def)
  then have "sched_ok E valid s" using sched_reachable_ok assms(2) by blast
  then obtain s' where "delete_AlarmScheduler 0 E (\<lambda>_. undefined) 0 s = Some s'" using delete_scheduler by blast
  with Delete_Scheduler s(1) show ?thesis by (blast intro: main_act.delete_scheduler)
next
  case Snmp_Terminate
  then show ?thesis by (blast intro: main_act.terminate)
qed (use assms(4) in simp)

text \<open>The listener thread can end at any time, when receiving fails.\<close>

lemma thread_progress:
  assumes ord: "orderly E t x" and rows: "rows_ok t" and "su_sched U = E" and "sh_thread x \<noteq> Ended"
  shows "\<exists>x'. other_act U x x' \<and> thread_left (sh_thread x') < thread_left (sh_thread x) \<and>
    sh_outstanding x' = sh_outstanding x \<and> sh_fault x' = sh_fault x"
proof -
  have up: "sh_listener x" using ord assms(4) by (auto simp: orderly_def)
  show ?thesis
  proof (cases "sh_thread x")
    case (Dispatch msg)
    show ?thesis
    proof (cases "uses_scheduler msg")
      case True
      obtain s where s: "sh_scheduler x = Some s" "sched_reachable E t s"
        using ord assms(4) by (auto simp: orderly_def)
      have "msg \<noteq> []" using True by (simp add: uses_scheduler_def)
      then obtain s' where req: "request (su_sched U) 0 msg s = Some s'"
        using request_reachable [OF s(2) rows, of msg 0] assms(3) by blast
      show ?thesis
        by (rule exI, rule conjI [OF other_act.dispatch [OF Dispatch True up s(1) req]]) (simp add: Dispatch)
    next
      case False
      show ?thesis by (rule exI, rule conjI [OF other_act.dispatch_other [OF Dispatch False]]) (simp add: Dispatch)
    qed
  next
    case Next_Msg
    show ?thesis by (rule exI, rule conjI [OF other_act.receive_fails [OF Next_Msg up]]) (simp add: Next_Msg)
  next
    case Reply
    show ?thesis by (rule exI, rule conjI [OF other_act.reply [OF Reply up]]) (simp add: Reply)
  next
    case Clean_Sck
    show ?thesis by (rule exI, rule conjI [OF other_act.clean [OF Clean_Sck up]]) (simp add: Clean_Sck)
  next
    case Post_Sem
    show ?thesis by (rule exI, rule conjI [OF other_act.post [OF Post_Sem up]]) (simp add: Post_Sem)
  qed (use assms(4) in simp)
qed

text \<open>So every delivery that is outstanding can still be when the scheduler is gone.\<close>

lemma late_report_faults:
  assumes "su_sched U = E" and "\<not> su_sigterm U" and "rows_ok t" and "su_reports U NETSNMP_CALLBACK_OP_TIMED_OUT"
  shows "shutdown_reachable U outstanding s x \<Longrightarrow> orderly E t x \<Longrightarrow> \<not> sh_fault x \<Longrightarrow> sh_outstanding x \<noteq> [] \<Longrightarrow>
    \<exists>x. shutdown_reachable U outstanding s x \<and> sh_fault x"
proof (induction "main_left (sh_main x) + thread_left (sh_thread x)" arbitrary: x rule: less_induct)
  case less
  note ord = less.prems(2)
  have running: "sh_main x \<noteq> Process_Ended" using ord less.prems(4) by (auto simp: orderly_def)
  note reach = shutdown_reachable.step [OF less.prems(1) running less.prems(3)]
  have onwards: ?case if "shutdown_act U x y" "orderly E t y" "\<not> sh_fault y" "sh_outstanding y = sh_outstanding x"
    "main_left (sh_main y) + thread_left (sh_thread y) < main_left (sh_main x) + thread_left (sh_thread x)" for y
    using less.hyps [OF that(5) reach [OF that(1)] that(2,3)] that(4) less.prems(4) by simp
  consider (late) "sh_main x = Snmp_Terminate" | (main) "sh_thread x = Ended" "sh_main x \<noteq> Snmp_Terminate"
    | (thread) "sh_thread x \<noteq> Ended" by blast
  then show ?case
  proof cases
    case late
    then have gone: "sh_scheduler x = None" using ord by (simp add: orderly_def)
    have d: "hd (sh_outstanding x) \<in> set (sh_outstanding x)" using less.prems(4) by simp
    have "shutdown_act U x (report_delivery E 0 NETSNMP_CALLBACK_OP_TIMED_OUT (hd (sh_outstanding x)) x)"
      using other_act.report [OF d assms(4), of 0] assms(1) by (simp add: shutdown_act_def)
    from reach [OF this] report_delivery_orderly(2) [OF ord assms(3) d, of 0 NETSNMP_CALLBACK_OP_TIMED_OUT] gone
    show ?thesis by blast
  next
    case main
    obtain y where y: "main_act E x y" using orderly_progress [OF ord assms(3) main(1) running] by blast
    then have "sh_outstanding y = sh_outstanding x" "sh_thread y = sh_thread x"
      using main(2) by (auto elim: main_act.cases)
    with y show ?thesis
      using onwards [of y] main_act_orderly [OF y ord] main_act_fault [OF y] main_act_left [OF y] less.prems(3) assms(1)
      by (simp add: shutdown_act_def)
  next
    case thread
    from thread_progress [OF ord assms(3,1) this] obtain y where y: "other_act U x y"
      "thread_left (sh_thread y) < thread_left (sh_thread x)" "sh_outstanding y = sh_outstanding x" "sh_fault y = sh_fault x"
      by blast
    with onwards [of y] other_act_orderly [OF y(1) assms(1,2) ord assms(3) running] other_act_main [OF y(1)] less.prems(3)
    show ?thesis by (simp add: shutdown_act_def)
  qed
qed

end

section \<open>The signal\<close>

text \<open>A signal, the two next steps of the main thread, and the listener thread finds its object gone.\<close>

lemma signal_faults:
  assumes "su_sigterm U"
  shows "\<exists>x. shutdown_reachable U outstanding s x \<and> sh_fault x"
proof -
  have step: "shutdown_reachable U outstanding s y"
    if "shutdown_reachable U outstanding s x" "shutdown_act U x y" "sh_main x \<noteq> Process_Ended" "\<not> sh_fault x" for x y
    using shutdown_reachable.step [OF that(1,3,4,2)] .
  let ?x1 = "(shutdown_start outstanding s)\<lparr>sh_sem := Suc 0\<rparr>"
  let ?x2 = "?x1\<lparr>sh_sem := 0, sh_main := Delete_Listener\<rparr>"
  let ?x3 = "?x2\<lparr>sh_listener := False, sh_main := Delete_Scheduler\<rparr>"
  have "other_act U (shutdown_start outstanding s) ?x1"
    using other_act.signal [OF assms, of "shutdown_start outstanding s"]
    by (simp add: shutdown_start_def agent_terminate_handler_def)
  then have "shutdown_reachable U outstanding s ?x1"
    using step [OF shutdown_reachable.start] by (simp add: shutdown_act_def shutdown_start_def)
  moreover have "shutdown_act U ?x1 ?x2"
    unfolding shutdown_act_def by (rule disjI1, rule main_act.sem_wait) (simp_all add: shutdown_start_def)
  ultimately have "shutdown_reachable U outstanding s ?x2"
    by (rule step) (simp_all add: shutdown_start_def)
  moreover have "shutdown_act U ?x2 ?x3"
    unfolding shutdown_act_def by (rule disjI1, rule main_act.delete_listener) simp
  ultimately have "shutdown_reachable U outstanding s ?x3"
    by (rule step) (simp_all add: shutdown_start_def)
  moreover have "shutdown_act U ?x3 (?x3\<lparr>sh_fault := True\<rparr>)"
    unfolding shutdown_act_def by (rule disjI2, rule other_act.dangling) (simp_all add: shutdown_start_def)
  ultimately have "shutdown_reachable U outstanding s (?x3\<lparr>sh_fault := True\<rparr>)"
    by (rule step) (simp_all add: shutdown_start_def)
  then show ?thesis by (rule exI [of _ "?x3\<lparr>sh_fault := True\<rparr>", OF conjI]) simp
qed

section \<open>Properties\<close>

text \<open>
  C17. When the end of the agent is safe: some interleaving goes through a pointer to the deleted
  listener or scheduler exactly when \<open>SIGTERM\<close> may come, or net-snmp may report a delivery as
  timed out and a delivery can be outstanding at all: such a report can then come after the scheduler is
  deleted and before net-snmp is stopped.  With no signal, and as long as there is no fault, the
  agent ends only because its listener thread has ended: the main thread deletes nothing before that,
  the scheduler is in a reachable state as long as it exists, and once the thread has ended the main
  thread runs to the end.  For it has a step of its own in every state until the process ends, each of
  its steps lowers the number of those it has left, which is four at most, and no step of another
  thread or of net-snmp sets it back or starts the listener thread again.
\<close>

theorem shutdown_safe_iff:
  assumes "sched_context (su_sched U) valid" and "rows_ok t" and "sched_reachable (su_sched U) t s"
    and "set outstanding \<subseteq> set (all_definitions (se_defs (su_sched U)))"
  shows "((\<exists>x. shutdown_reachable U outstanding s x \<and> sh_fault x) \<longleftrightarrow>
      su_sigterm U \<or>
      su_reports U NETSNMP_CALLBACK_OP_TIMED_OUT \<and>
        (\<exists>x. shutdown_reachable U outstanding s x \<and> sh_outstanding x \<noteq> [])) \<and>
    (\<forall>x. shutdown_reachable U outstanding s x \<and> \<not> su_sigterm U \<and> \<not> sh_fault x \<longrightarrow>
       (sh_main x \<noteq> Sem_Wait \<longrightarrow> sh_thread x = Ended) \<and>
       (\<forall>s'. sh_scheduler x = Some s' \<longrightarrow> sched_reachable (su_sched U) t s') \<and>
       (sh_thread x = Ended \<and> sh_main x \<noteq> Process_Ended \<longrightarrow> (\<exists>x'. main_act (su_sched U) x x')) \<and>
       main_left (sh_main x) \<le> 4 \<and>
       (\<forall>x'. main_act (su_sched U) x x' \<longrightarrow> main_left (sh_main x') < main_left (sh_main x)) \<and>
       (\<forall>x'. other_act U x x' \<longrightarrow> sh_main x' = sh_main x \<and> (sh_thread x = Ended \<longrightarrow> sh_thread x' = Ended)))"
proof -
  note ctx = assms(1)
  have ord: "orderly (su_sched U) t x" if "shutdown_reachable U outstanding s x" "\<not> su_sigterm U" for x
    by (rule sched_context.orderly_reachable [OF ctx that(1) refl that(2) assms(2-4)])
  have fault: "\<exists>x. shutdown_reachable U outstanding s x \<and> sh_fault x"
    if "\<not> su_sigterm U" "su_reports U NETSNMP_CALLBACK_OP_TIMED_OUT" "shutdown_reachable U outstanding s x"
      "sh_outstanding x \<noteq> []" for x
    using sched_context.late_report_faults [OF ctx refl that(1) assms(2) that(2,3) ord [OF that(3,1)] _ that(4)] that(3)
    by blast
  have left: "main_left pc \<le> 4" for pc by (cases pc) simp_all
  have "(sh_main x \<noteq> Sem_Wait \<longrightarrow> sh_thread x = Ended) \<and>
      (\<forall>s'. sh_scheduler x = Some s' \<longrightarrow> sched_reachable (su_sched U) t s')" if "orderly (su_sched U) t x" for x
    using that by (simp add: orderly_def)
  then show ?thesis
    using signal_faults [of U outstanding s] fault sched_context.fault_late [OF ctx _ _ refl _ assms(2-4)]
      sched_context.orderly_progress [OF ctx ord assms(2)] ord main_act_left other_act_main left
    by (intro conjI) blast+
qed

text \<open>The agent of the examples with one sink, with and without a signal and reports of time-outs.\<close>

definition sample_shutdown :: "bool \<Rightarrow> bool \<Rightarrow> (timer_list, oid list \<rightharpoonup> nat) shutdown_env" where
  "sample_shutdown sigterm timeouts =
     \<lparr>su_sigterm = sigterm,
      su_reports = (\<lambda>oper. oper = NETSNMP_CALLBACK_OP_RECEIVED_MESSAGE \<or> timeouts \<and> oper = NETSNMP_CALLBACK_OP_TIMED_OUT),
      su_sinks = 1, su_sched = sample_sched\<rparr>"

theorem shutdown_safe_iff_witness:
  "(\<exists>x. shutdown_reachable (sample_shutdown True False) [] sample_start x \<and> sh_fault x) \<and>
   (\<exists>d x. shutdown_reachable (sample_shutdown False True) [d] sample_start x \<and> sh_fault x) \<and>
   \<not> (\<exists>x. shutdown_reachable (sample_shutdown False False) [] sample_start x \<and> sh_fault x)"
proof -
  have sched: "su_sched (sample_shutdown b c) = sample_sched" for b c by (simp add: sample_shutdown_def)
  note iff = shutdown_safe_iff [of "sample_shutdown b c" for b c, unfolded sched,
      OF sample_context sample_active_rows_ok sample_start_reachable]
  let ?d = "get_definition (se_defs sample_sched) 1000 3"
  have "alarm_defined sample_sched 1000 CRITICAL" by code_simp
  from sched_context.alarm_defined_def_of(3) [OF sample_context this]
  have d: "set [?d] \<subseteq> set (all_definitions (se_defs sample_sched))" by simp
  have "shutdown_reachable (sample_shutdown False True) [?d] sample_start (shutdown_start [?d] sample_start)"
    by (rule shutdown_reachable.start)
  then have "\<exists>x. shutdown_reachable (sample_shutdown False True) [?d] sample_start x \<and> sh_outstanding x \<noteq> []"
    by (rule exI [of _ "shutdown_start [?d] sample_start", OF conjI]) (simp add: shutdown_start_def)
  then have "\<exists>x. shutdown_reachable (sample_shutdown False True) [?d] sample_start x \<and> sh_fault x"
    using iff [OF d, of False True] by (simp add: sample_shutdown_def)
  moreover have "\<exists>x. shutdown_reachable (sample_shutdown True False) [] sample_start x \<and> sh_fault x"
    using iff [of "[]" True False] by (simp add: sample_shutdown_def)
  moreover have "\<not> (\<exists>x. shutdown_reachable (sample_shutdown False False) [] sample_start x \<and> sh_fault x)"
    using iff [of "[]" False False] by (simp add: sample_shutdown_def)
  ultimately show ?thesis by blast
qed

end
