(* ===== verification/OID.thy ===== *)
theory OID
  imports C_Library
begin

text \<open>
  Object identifiers (\<open>include/oid.hpp\<close>, \<open>src/oid.cpp\<close>) and internet addresses as table
  indexes (\<open>include/oid_inet_addr.hpp\<close>, \<open>src/oid_inet_addr.cpp\<close>).  The functions of
  net-snmp, boost and the resolver that they call are members of a record \<open>oid_lib\<close>; the
  locale \<open>oid_library\<close> states what these functions document, and a reference library
  satisfies it.
\<close>

section \<open>The functions called\<close>

type_synonym OID = "oid list"

record oid_lib =
  ol_split :: "string \<Rightarrow> string list"
  ol_oid_compare :: "OID \<Rightarrow> OID \<Rightarrow> int"
  ol_oidtree_compare :: "OID \<Rightarrow> OID \<Rightarrow> int"
  ol_oid_equals :: "OID \<Rightarrow> OID \<Rightarrow> int"
  ol_inet_pton4 :: "string \<Rightarrow> u8 list option"
  ol_inet_pton6 :: "string \<Rightarrow> u8 list option"

section \<open>Internet addresses\<close>

datatype addr_type = addr_unknown | addr_ipv4 | addr_ipv6

record OIDInetAddr =
  addr_type :: addr_type
  addr_bytes :: "u8 list"

definition setAddr :: "oid_lib \<Rightarrow> string \<Rightarrow> OIDInetAddr" where
  "setAddr L addrStr =
     (case ol_inet_pton4 L addrStr of
        Some bs \<Rightarrow> \<lparr>addr_type = addr_ipv4, addr_bytes = bs\<rparr>
      | None \<Rightarrow>
          (case ol_inet_pton6 L addrStr of
             Some bs \<Rightarrow> \<lparr>addr_type = addr_ipv6, addr_bytes = bs\<rparr>
           | None \<Rightarrow> \<lparr>addr_type = addr_unknown, addr_bytes = []\<rparr>))"

definition isValid :: "OIDInetAddr \<Rightarrow> bool" where
  "isValid a \<longleftrightarrow> addr_type a \<noteq> addr_unknown"

fun addr_type_code :: "addr_type \<Rightarrow> u8" where
  "addr_type_code addr_unknown = 0"
| "addr_type_code addr_ipv4 = 1"
| "addr_type_code addr_ipv6 = 2"

definition toOIDBytes :: "OIDInetAddr \<Rightarrow> u8 list" where
  "toOIDBytes a =
     (if isValid a then
        (let addrLen = (if addr_type a = addr_ipv4 then 4 else 16)
         in addr_type_code (addr_type a) # of_nat addrLen # take addrLen (addr_bytes a))
      else [])"

section \<open>Object identifiers\<close>

definition append_oid :: "oid \<Rightarrow> OID \<Rightarrow> OID" where
  "append_oid x ids = ids @ [x]"

text \<open>The loop that pushes \<open>len\<close> subidentifiers from an array on; a negative length pushes none.\<close>

definition append_array :: "oid list \<Rightarrow> int \<Rightarrow> OID \<Rightarrow> OID" where
  "append_array oids_ptr len ids = ids @ take (nat len) oids_ptr"

text \<open>An \<open>int\<close> is pushed as an \<open>unsigned long\<close>: its sign is extended.\<close>

definition oid_of_int :: "i32 \<Rightarrow> oid" where
  "oid_of_int i = scast i"

definition append_string :: "oid_lib \<Rightarrow> string \<Rightarrow> OID \<Rightarrow> OID" where
  "append_string L oidstr ids =
     ids @ map (\<lambda>t. oid_of_int (atoi t)) (filter (\<lambda>t. t \<noteq> []) (ol_split L oidstr))"

definition append_addr :: "OIDInetAddr \<Rightarrow> OID \<Rightarrow> OID" where
  "append_addr a ids = ids @ map ucast (toOIDBytes a)"

text \<open>The constructors: from a subidentifier, an array, a string or an address, each also below a parent.\<close>

definition OID_sub :: "oid \<Rightarrow> OID" where
  "OID_sub x = append_oid x []"

definition OID_parent_sub :: "OID \<Rightarrow> oid \<Rightarrow> OID" where
  "OID_parent_sub parent_oid x = append_oid x parent_oid"

definition OID_array :: "oid list \<Rightarrow> int \<Rightarrow> OID" where
  "OID_array oids_ptr len = append_array oids_ptr len []"

definition OID_parent_array :: "OID \<Rightarrow> oid list \<Rightarrow> int \<Rightarrow> OID" where
  "OID_parent_array parent_oid oids_ptr len = append_array oids_ptr len parent_oid"

definition mk_OID :: "oid_lib \<Rightarrow> string \<Rightarrow> OID" where
  "mk_OID L oidstr = append_string L oidstr []"

definition OID_parent_string :: "oid_lib \<Rightarrow> OID \<Rightarrow> string \<Rightarrow> OID" where
  "OID_parent_string L parent_oid oidstr = append_string L oidstr parent_oid"

definition OID_addr :: "OIDInetAddr \<Rightarrow> OID" where
  "OID_addr oid_addr = append_addr oid_addr []"

definition OID_parent_addr :: "OID \<Rightarrow> OIDInetAddr \<Rightarrow> OID" where
  "OID_parent_addr parent_oid oid_addr = append_addr oid_addr parent_oid"

definition get_len :: "OID \<Rightarrow> int" where
  "get_len ids = sint (word_of_nat (length ids) :: i32)"

lemmas OID_constructors = OID_sub_def OID_parent_sub_def OID_array_def OID_parent_array_def
  mk_OID_def OID_parent_string_def OID_addr_def OID_parent_addr_def

text \<open>A constructor with a parent is an \<open>append\<close> to it, and is simplified to that.\<close>

declare OID_parent_sub_def [simp] OID_parent_array_def [simp] OID_parent_string_def [simp] OID_parent_addr_def [simp]

definition equals :: "oid_lib \<Rightarrow> OID \<Rightarrow> OID \<Rightarrow> bool" where
  "equals L a b \<longleftrightarrow> ol_oid_equals L a b = 0"

definition subtree_contains :: "oid_lib \<Rightarrow> OID \<Rightarrow> OID \<Rightarrow> bool" where
  "subtree_contains L a b \<longleftrightarrow> ol_oidtree_compare L a b = 0"

definition to_string :: "OID \<Rightarrow> string" where
  "to_string ids = concat (map (\<lambda>x. CHR ''.'' # show_dec (unat x)) ids)"

text \<open>What is on the standard error stream after printing an identifier there.\<close>

definition dump :: "OID \<Rightarrow> string \<Rightarrow> string" where
  "dump ids cerr = cerr @ to_string ids"

section \<open>What the functions document\<close>

text \<open>\<open>boost::split\<close>: the pieces between the separators, empty ones included.\<close>

fun split_on :: "char \<Rightarrow> string \<Rightarrow> string list" where
  "split_on c [] = [[]]"
| "split_on c (x # xs) =
     (if x = c then [] # split_on c xs
      else (case split_on c xs of [] \<Rightarrow> [[x]] | t # ts \<Rightarrow> (x # t) # ts))"

text \<open>The order of object identifiers: lexicographic, a prefix before its extensions.\<close>

fun oid_less :: "OID \<Rightarrow> OID \<Rightarrow> bool" where
  "oid_less xs [] = False"
| "oid_less [] (y # ys) = True"
| "oid_less (x # xs) (y # ys) = (x < y \<or> (x = y \<and> oid_less xs ys))"

definition oid_order :: "OID \<Rightarrow> OID \<Rightarrow> int" where
  "oid_order a b = (if a = b then 0 else if oid_less a b then - 1 else 1)"

text \<open>\<open>snmp_oidtree_compare\<close> compares up to the length of the shorter identifier.\<close>

definition oidtree_order :: "OID \<Rightarrow> OID \<Rightarrow> int" where
  "oidtree_order a b = (let n = min (length a) (length b) in oid_order (take n a) (take n b))"

locale oid_library =
  fixes L :: oid_lib
  assumes split: "ol_split L s = split_on CHR ''.'' s"
    and compare: "ol_oid_compare L a b = oid_order a b"
    and tree_compare: "ol_oidtree_compare L a b = oidtree_order a b"
    and oid_equals: "ol_oid_equals L a b = 0 \<longleftrightarrow> a = b"
    and pton4: "ol_inet_pton4 L s = Some bs \<Longrightarrow> length bs = 4 \<and> CHR ''.'' \<in> set s"
    and pton6: "ol_inet_pton6 L s = Some bs \<Longrightarrow> length bs = 16 \<and> CHR '':'' \<in> set s"
begin

lemma addr_length: "isValid (setAddr L s) \<Longrightarrow>
    length (addr_bytes (setAddr L s)) = (if addr_type (setAddr L s) = addr_ipv4 then 4 else 16)"
  using pton4 [of s] pton6 [of s] by (auto simp: setAddr_def isValid_def split: option.splits)

text \<open>An address names itself by a dot or a colon, so that a plain number is none.\<close>

lemma number_not_addr: "CHR ''.'' \<notin> set s \<Longrightarrow> CHR '':'' \<notin> set s \<Longrightarrow> \<not> isValid (setAddr L s)"
  using pton4 [of s] pton6 [of s]
  by (cases "ol_inet_pton4 L s"; cases "ol_inet_pton6 L s") (auto simp: setAddr_def isValid_def)

end

section \<open>The order of object identifiers\<close>

lemma oid_less_irrefl: "\<not> oid_less a a"
  by (induction a) auto

lemma oid_less_trans: "oid_less a b \<Longrightarrow> oid_less b c \<Longrightarrow> oid_less a c"
proof (induction a arbitrary: b c)
  case Nil
  then show ?case by (cases b; cases c) auto
next
  case (Cons x a)
  then show ?case by (cases b; cases c) auto
qed

lemma oid_less_total: "a = b \<or> oid_less a b \<or> oid_less b a"
proof (induction a arbitrary: b)
  case Nil
  then show ?case by (cases b) auto
next
  case (Cons x a)
  then show ?case by (cases b) auto
qed

lemma oid_order_0 [simp]: "oid_order a b = 0 \<longleftrightarrow> a = b"
  by (simp add: oid_order_def)

lemma oid_order_less [simp]: "oid_order a b = - 1 \<longleftrightarrow> oid_less a b"
  by (auto simp: oid_order_def oid_less_irrefl)

lemma oid_less_prefix: "oid_less ids (ids @ x # xs)"
  by (induction ids) auto

lemma oid_less_append: "oid_less (ids @ xs) (ids @ ys) \<longleftrightarrow> oid_less xs ys"
  by (induction ids) auto

text \<open>One identifier is a prefix of the other.\<close>

definition related :: "OID \<Rightarrow> OID \<Rightarrow> bool" where
  "related a b \<longleftrightarrow> (\<exists>c. b = a @ c) \<or> (\<exists>c. a = b @ c)"

lemma oidtree_order_0: "oidtree_order a b = 0 \<longleftrightarrow> related a b"
proof -
  have "take (length a) b = a \<longleftrightarrow> (\<exists>c. b = a @ c)" if "length a \<le> length b" for a b :: OID
    using that by (metis append_take_drop_id append_eq_conv_conj)
  then have "take (min (length a) (length b)) a = take (min (length a) (length b)) b \<longleftrightarrow> related a b"
    unfolding related_def by (cases "length a \<le> length b") (auto simp: min_def, metis+)
  then show ?thesis by (simp add: oidtree_order_def Let_def)
qed

lemma OID_array_all [simp]: "OID_array ids (int (length ids)) = ids"
  by (simp add: OID_array_def append_array_def)

text \<open>Whatever a constructor or \<open>append\<close> adds to an identifier stays in its subtree.\<close>

lemma child_in_subtree:
  "related parent (OID_parent_sub parent x)" "related parent (OID_parent_array parent xs n)"
  "related parent (OID_parent_string L parent s)" "related parent (OID_parent_addr parent a)"
  by (auto simp: related_def OID_constructors append_oid_def append_array_def append_string_def append_addr_def)

section \<open>A reference library\<close>

definition octet_ok :: "string \<Rightarrow> bool" where
  "octet_ok t \<longleftrightarrow> t \<noteq> [] \<and> list_all isdigit t \<and> (hd t = CHR ''0'' \<longrightarrow> length t = 1) \<and> digits_value t < 256"

definition std_inet_pton4 :: "string \<Rightarrow> u8 list option" where
  "std_inet_pton4 s =
     (let ts = split_on CHR ''.'' s
      in if length ts = 4 \<and> list_all octet_ok ts then Some (map (\<lambda>t. of_nat (digits_value t)) ts) else None)"

definition hex_value :: "char \<Rightarrow> nat option" where
  "hex_value c =
     (let n = of_char c
      in if 48 \<le> n \<and> n \<le> 57 then Some (n - 48)
         else if 65 \<le> n \<and> n \<le> 70 then Some (n - 55)
         else if 97 \<le> n \<and> n \<le> 102 then Some (n - 87) else None)"

definition group_value :: "string \<Rightarrow> nat" where
  "group_value t = foldl (\<lambda>a c. 16 * a + (case hex_value c of None \<Rightarrow> 0 | Some d \<Rightarrow> d)) 0 t"

text \<open>IPv6 addresses with all eight groups written out.\<close>

definition std_inet_pton6 :: "string \<Rightarrow> u8 list option" where
  "std_inet_pton6 s =
     (let ts = split_on CHR '':'' s
      in if length ts = 8 \<and> list_all (\<lambda>t. 0 < length t \<and> length t \<le> 4 \<and> list_all (\<lambda>c. hex_value c \<noteq> None) t) ts
         then Some (concat (map (\<lambda>t. [of_nat (group_value t div 256), of_nat (group_value t)]) ts)) else None)"

definition std_lib :: oid_lib where
  "std_lib =
     \<lparr>ol_split = split_on CHR ''.'', ol_oid_compare = oid_order, ol_oidtree_compare = oidtree_order,
      ol_oid_equals = (\<lambda>a b. if a = b then 0 else 1),
      ol_inet_pton4 = std_inet_pton4, ol_inet_pton6 = std_inet_pton6\<rparr>"

lemma split_on_absent: "c \<notin> set s \<Longrightarrow> split_on c s = [s]"
  by (induction s) auto

lemma length_pairs: "length (concat (map (\<lambda>t. [f t, g t]) ts)) = 2 * length ts"
  by (induction ts) auto

interpretation std_lib: oid_library std_lib
proof unfold_locales
  fix s and bs :: "u8 list"
  assume "ol_inet_pton4 std_lib s = Some bs"
  then show "length bs = 4 \<and> CHR ''.'' \<in> set s"
    using split_on_absent [of "CHR ''.''" s] by (cases "CHR ''.'' \<in> set s")
      (auto simp: std_lib_def std_inet_pton4_def Let_def split: if_splits)
next
  fix s and bs :: "u8 list"
  assume "ol_inet_pton6 std_lib s = Some bs"
  then show "length bs = 16 \<and> CHR '':'' \<in> set s"
    using split_on_absent [of "CHR '':''" s] by (cases "CHR '':'' \<in> set s")
      (auto simp: std_lib_def std_inet_pton6_def Let_def length_pairs split: if_splits)
qed (simp_all add: std_lib_def)

section \<open>Reading back what was printed\<close>

lemma split_on_digits:
  assumes "list_all isdigit ds"
  shows "split_on CHR ''.'' (ds @ CHR ''.'' # r) = ds # split_on CHR ''.'' r"
  using assms by (induction ds) (auto simp: digit_not_space_sign)

lemma split_on_digits_end:
  assumes "list_all isdigit ds"
  shows "split_on CHR ''.'' ds = [ds]"
  using assms by (induction ds) (auto simp: digit_not_space_sign)

lemma split_to_string_Cons:
  "split_on CHR ''.'' (show_dec (unat x) @ to_string ids) = map (\<lambda>x. show_dec (unat x)) (x # ids)"
proof (induction ids arbitrary: x)
  case Nil
  then show ?case by (simp add: to_string_def split_on_digits_end show_dec_digits)
next
  case (Cons y ids)
  then show ?case by (simp add: to_string_def split_on_digits show_dec_digits)
qed

lemma split_to_string: "split_on CHR ''.'' (to_string ids) = [] # map (\<lambda>x. show_dec (unat x)) ids"
proof (cases ids)
  case Nil
  then show ?thesis by (simp add: to_string_def)
next
  case (Cons x xs)
  have "split_on CHR ''.'' (to_string (x # xs)) = [] # split_on CHR ''.'' (show_dec (unat x) @ to_string xs)"
    by (simp add: to_string_def)
  with Cons show ?thesis by (simp only: split_to_string_Cons)
qed

lemma map_eq_self: "map f xs = xs \<longleftrightarrow> (\<forall>x \<in> set xs. f x = x)"
  by (induction xs) auto

lemma sint_of_nat_i32:
  assumes "n < 2 ^ 32"
  shows "sint (of_nat n :: i32) = (if n < 2 ^ 31 then int n else int n - 2 ^ 32)"
proof -
  have u: "uint (of_nat n :: i32) = int n"
    using assms by (simp add: unsigned_of_nat take_bit_nat_eq_self)
  have "(int n + 2147483648) mod 4294967296 = int n - 2147483648" if "\<not> n < 2147483648"
    using mod_add_self2 [of "int n - 2147483648" 4294967296] that assms
    by (simp add: mod_pos_pos_trivial add.commute)
  then show ?thesis
    using assms by (auto simp: sint_uint signed_take_bit_eq_take_bit_shift u take_bit_eq_mod)
qed

lemma oid_of_int_of_nat:
  assumes "n < 2 ^ 32"
  shows "oid_of_int (of_nat n) = (of_nat n :: u64) \<longleftrightarrow> n < 2 ^ 31"
proof -
  have scast: "oid_of_int (of_nat n) = word_of_int (sint (of_nat n :: i32))"
    unfolding oid_of_int_def by (rule scast_eq)
  show ?thesis
  proof (cases "n < 2 ^ 31")
    case True
    then show ?thesis unfolding scast sint_of_nat_i32 [OF assms] by simp
  next
    case False
    have "(word_of_int (int n - 2 ^ 32) :: u64) = word_of_int (int n) \<longleftrightarrow>
        (int n - 2 ^ 32) mod 2 ^ 64 = int n mod 2 ^ 64"
      by (simp only: word_of_int_eq_iff take_bit_eq_mod) simp
    also have "\<dots> \<longleftrightarrow> (2 ^ 64 :: int) dvd (int n - 2 ^ 32 - int n)" by (rule mod_eq_dvd_iff)
    also have "\<dots> \<longleftrightarrow> False" by simp
    finally show ?thesis unfolding scast sint_of_nat_i32 [OF assms] using False by simp
  qed
qed

section \<open>Properties\<close>

text \<open>
  C35. Printing an object identifier and reading it back gives the same identifier exactly when all
  its subidentifiers are below \<open>2^31\<close>.  A larger one, which SNMP allows up to \<open>2^32 - 1\<close>, is
  read through \<open>atoi\<close> as a negative \<open>int\<close> and comes back with its upper half filled.
\<close>

theorem oid_string_roundtrip:
  assumes "oid_library L" and "\<forall>x \<in> set ids. x < 2 ^ 32"
  shows "mk_OID L (to_string ids) = ids \<longleftrightarrow> (\<forall>x \<in> set ids. x < 2 ^ 31)"
proof -
  have read: "mk_OID L (to_string ids) = map (\<lambda>x. oid_of_int (atoi (show_dec (unat x)))) ids"
    by (simp add: mk_OID_def append_string_def oid_library.split [OF assms(1)] split_to_string comp_def)
  have one: "oid_of_int (atoi (show_dec (unat x))) = x \<longleftrightarrow> x < 2 ^ 31" if "x \<in> set ids" for x
  proof -
    have less: "unat x < 2 ^ 32" using that assms(2) by (simp add: word_less_nat_alt)
    then have "atoi (show_dec (unat x)) = of_nat (unat x)" by (intro atoi_show_dec) simp
    moreover have "oid_of_int (of_nat (unat x)) = (of_nat (unat x) :: u64) \<longleftrightarrow> unat x < 2 ^ 31"
      by (rule oid_of_int_of_nat [OF less])
    ultimately show ?thesis by (simp add: word_less_nat_alt)
  qed
  have "map (\<lambda>x. oid_of_int (atoi (show_dec (unat x)))) ids = ids \<longleftrightarrow>
      (\<forall>x \<in> set ids. oid_of_int (atoi (show_dec (unat x))) = x)"
    by (rule map_eq_self)
  with one show ?thesis unfolding read by blast
qed

theorem oid_string_roundtrip_witness:
  "mk_OID std_lib (to_string [1, 2, 826, 0, 1, 1578918]) = [1, 2, 826, 0, 1, 1578918]"
  using oid_string_roundtrip [OF std_lib.oid_library_axioms, of "[1, 2, 826, 0, 1, 1578918]"] by simp

text \<open>
  C36. An address becomes the index of RFC 4001: its type, its length and its octets, 6 bytes for an
  IPv4 address and 18 for an IPv6 address, and two valid addresses have the same index only if
  they are the same.  A string that is no address adds nothing.
\<close>

theorem inet_addr_index:
  assumes "oid_library L"
  shows "toOIDBytes (setAddr L s) =
      (case addr_type (setAddr L s) of
         addr_ipv4 \<Rightarrow> 1 # 4 # addr_bytes (setAddr L s)
       | addr_ipv6 \<Rightarrow> 2 # 16 # addr_bytes (setAddr L s)
       | addr_unknown \<Rightarrow> []) \<and>
    length (toOIDBytes (setAddr L s)) =
      (case addr_type (setAddr L s) of addr_ipv4 \<Rightarrow> 6 | addr_ipv6 \<Rightarrow> 18 | addr_unknown \<Rightarrow> 0) \<and>
    (isValid (setAddr L s) \<and> isValid (setAddr L s') \<longrightarrow>
      (toOIDBytes (setAddr L s) = toOIDBytes (setAddr L s') \<longleftrightarrow> setAddr L s = setAddr L s'))"
proof -
  have len: "length (addr_bytes (setAddr L u)) = (if addr_type (setAddr L u) = addr_ipv4 then 4 else 16)"
    if "isValid (setAddr L u)" for u
    using oid_library.addr_length [OF assms that] .
  have inj: "a = b" if "toOIDBytes a = toOIDBytes b" "isValid a" "isValid b"
      "length (addr_bytes a) = (if addr_type a = addr_ipv4 then 4 else 16)"
      "length (addr_bytes b) = (if addr_type b = addr_ipv4 then 4 else 16)" for a b :: OIDInetAddr
    using that by (cases "addr_type a"; cases "addr_type b")
      (auto simp: toOIDBytes_def isValid_def Let_def intro: OIDInetAddr.equality)
  show ?thesis
  proof (intro conjI impI iffI)
    assume valid: "isValid (setAddr L s) \<and> isValid (setAddr L s')"
    assume "toOIDBytes (setAddr L s) = toOIDBytes (setAddr L s')"
    then show "setAddr L s = setAddr L s'"
      by (rule inj) (use valid len in blast)+
  qed (use len [of s] in \<open>cases "addr_type (setAddr L s)"; auto simp: toOIDBytes_def isValid_def\<close>)+
qed

theorem inet_addr_index_witness:
  "length (toOIDBytes (setAddr std_lib ''10.0.0.1'')) = 6"
proof -
  have v4: "addr_type (setAddr std_lib ''10.0.0.1'') = addr_ipv4" by code_simp
  from inet_addr_index [OF std_lib.oid_library_axioms, of "''10.0.0.1''" "''::1''"]
  show ?thesis unfolding v4 addr_type.case by (elim conjE)
qed

end
