(* ===== verification/OID_Tree.thy ===== *)
theory OID_Tree
  imports OID Std_Map
begin

text \<open>
  The tree of statistics (\<open>include/oidtree.hpp\<close>, \<open>src/oidtree.cpp\<close>): a map from object
  identifiers to \<open>int\<close> values, ordered as SNMP orders identifiers.  Its operations run under a
  lock, one at a time.  The locale \<open>oid_store\<close> is what the statistics handlers rely on; every
  library that satisfies \<open>oid_library\<close> makes the tree such a store.
\<close>

section \<open>Operations\<close>

type_synonym OIDMap = "(OID, i32) std_map"

record OIDTree =
  oidmap :: OIDMap

definition OIDCompare :: "oid_lib \<Rightarrow> OID \<Rightarrow> OID \<Rightarrow> bool" where
  "OIDCompare L a b \<longleftrightarrow> ol_oid_compare L a b = - 1"

definition tree_get :: "oid_lib \<Rightarrow> OID \<Rightarrow> OIDTree \<Rightarrow> i32 option" where
  "tree_get L requested_oid t = map_find (OIDCompare L) requested_oid (oidmap t)"

definition tree_get_next :: "oid_lib \<Rightarrow> OID \<Rightarrow> OIDTree \<Rightarrow> (OID \<times> i32) option" where
  "tree_get_next L requested_oid t = map_upper_bound (OIDCompare L) requested_oid (oidmap t)"

definition tree_set :: "oid_lib \<Rightarrow> OID \<Rightarrow> i32 \<Rightarrow> OIDTree \<Rightarrow> OIDTree" where
  "tree_set L key v t = t\<lparr>oidmap := map_assign (OIDCompare L) key v (oidmap t)\<rparr>"

definition tree_remove :: "oid_lib \<Rightarrow> OID \<Rightarrow> OIDTree \<Rightarrow> OIDTree" where
  "tree_remove L key t = t\<lparr>oidmap := map_erase (OIDCompare L) key (oidmap t)\<rparr>"

text \<open>The loop over a copy of the map, which erases from the map itself.\<close>

fun erase_subtree :: "oid_lib \<Rightarrow> OID \<Rightarrow> OIDMap \<Rightarrow> OIDMap \<Rightarrow> OIDMap" where
  "erase_subtree L root_oid [] m = m"
| "erase_subtree L root_oid ((this_oid, v) # tmp) m =
     erase_subtree L root_oid tmp
       (if subtree_contains L root_oid this_oid then map_erase (OIDCompare L) this_oid m else m)"

definition tree_remove_subtree :: "oid_lib \<Rightarrow> OID \<Rightarrow> OIDTree \<Rightarrow> OIDTree" where
  "tree_remove_subtree L root_oid t = t\<lparr>oidmap := erase_subtree L root_oid (oidmap t) (oidmap t)\<rparr>"

definition tree_replace_subtree :: "oid_lib \<Rightarrow> OID \<Rightarrow> OIDMap \<Rightarrow> OIDTree \<Rightarrow> OIDTree" where
  "tree_replace_subtree L root_oid upd t =
     (let t' = tree_remove_subtree L root_oid t
      in t'\<lparr>oidmap := map_insert_range (OIDCompare L) upd (oidmap t')\<rparr>)"

text \<open>A line of the debugging output per entry.\<close>

definition show_int :: "i32 \<Rightarrow> string" where
  "show_int i = (if sint i < 0 then CHR ''-'' # show_dec (nat (- sint i)) else show_dec (nat (sint i)))"

definition dump_oidmap :: "OIDMap \<Rightarrow> string" where
  "dump_oidmap m = concat (map (\<lambda>(k, v). to_string k @ '' '' @ show_int v @ [char_of (10::nat)]) m)"

section \<open>The contract of a store\<close>

locale oid_store =
  fixes inv :: "'t \<Rightarrow> bool"
    and get :: "OID \<Rightarrow> 't \<Rightarrow> i32 option"
    and get_next :: "OID \<Rightarrow> 't \<Rightarrow> (OID \<times> i32) option"
    and set :: "OID \<Rightarrow> i32 \<Rightarrow> 't \<Rightarrow> 't"
    and remove :: "OID \<Rightarrow> 't \<Rightarrow> 't"
    and remove_subtree :: "OID \<Rightarrow> 't \<Rightarrow> 't"
    and replace_subtree :: "OID \<Rightarrow> OIDMap \<Rightarrow> 't \<Rightarrow> 't"
  assumes inv_set: "inv t \<Longrightarrow> inv (set k v t)"
    and inv_remove: "inv t \<Longrightarrow> inv (remove k t)"
    and inv_remove_subtree: "inv t \<Longrightarrow> inv (remove_subtree root t)"
    and inv_replace_subtree: "inv t \<Longrightarrow> inv (replace_subtree root upd t)"
    and get_set: "inv t \<Longrightarrow> get k' (set k v t) = (if k' = k then Some v else get k' t)"
    and get_remove: "inv t \<Longrightarrow> get k' (remove k t) = (if k' = k then None else get k' t)"
    and get_remove_subtree: "inv t \<Longrightarrow> get k (remove_subtree root t) = (if related root k then None else get k t)"
    and get_replace_subtree: "inv t \<Longrightarrow> get k (replace_subtree root upd t) =
      (if related root k then map_of upd k else case get k t of None \<Rightarrow> map_of upd k | Some v \<Rightarrow> Some v)"
    and next_None: "inv t \<Longrightarrow> get_next k t = None \<longleftrightarrow> (\<forall>k'. oid_less k k' \<longrightarrow> get k' t = None)"
    and next_Some: "inv t \<Longrightarrow> get_next k t = Some (k', v) \<Longrightarrow>
      get k' t = Some v \<and> oid_less k k' \<and> (\<forall>j. oid_less k j \<and> get j t \<noteq> None \<longrightarrow> j = k' \<or> oid_less k' j)"
begin

text \<open>Replacing a subtree by entries below its root leaves all unrelated entries alone.\<close>

lemma replace_below:
  assumes "inv t" and "\<And>k. k \<in> fst ` List.set upd \<Longrightarrow> related root k"
  shows "get k (replace_subtree root upd t) = (if related root k then map_of upd k else get k t)"
proof (cases "related root k")
  case False
  then have "map_of upd k = None" using assms(2) by (auto simp: map_of_eq_None_iff)
  with False show ?thesis by (simp add: get_replace_subtree [OF assms(1)] split: option.split)
qed (simp add: get_replace_subtree [OF assms(1)])

end

section \<open>The tree is a store\<close>

interpretation oid_map: map_compare oid_less
  by unfold_locales (use oid_less_irrefl oid_less_trans oid_less_total in blast)+

definition tree_ok :: "OIDTree \<Rightarrow> bool" where
  "tree_ok t \<longleftrightarrow> map_ok oid_less (oidmap t)"

context oid_library
begin

lemma OIDCompare_less [simp]: "OIDCompare L = oid_less"
  by (simp add: fun_eq_iff OIDCompare_def compare)

lemma subtree_contains_iff [simp]: "subtree_contains L a b \<longleftrightarrow> related a b"
  by (simp add: subtree_contains_def tree_compare oidtree_order_0)

lemma find_erase_subtree:
  "map_ok oid_less m \<Longrightarrow>
    map_ok oid_less (erase_subtree L root tmp m) \<and>
    map_find oid_less k (erase_subtree L root tmp m) =
      (if related root k \<and> k \<in> fst ` set tmp then None else map_find oid_less k m)"
proof (induction tmp arbitrary: m)
  case Nil
  then show ?case by simp
next
  case (Cons p tmp)
  obtain a v where p: "p = (a, v)" by (cases p)
  have "map_ok oid_less (if related root a then map_erase oid_less a m else m)"
    using Cons.prems by simp
  from Cons.IH [OF this] show ?case
    using Cons.prems
    by (cases "k \<in> fst ` set tmp"; cases "k = a"; cases "related root a")
      (simp_all add: p oid_map.find_erase)
qed

lemma get_remove_tree:
  assumes "tree_ok t"
  shows "tree_ok (tree_remove_subtree L root t) \<and>
    tree_get L k (tree_remove_subtree L root t) = (if related root k then None else tree_get L k t)"
  using assms find_erase_subtree [of "oidmap t" root "oidmap t" k] oid_map.find_None_iff [of "oidmap t" k]
  by (auto simp: tree_ok_def tree_get_def tree_remove_subtree_def)

end

sublocale oid_library \<subseteq> tree: oid_store tree_ok "tree_get L" "tree_get_next L" "tree_set L"
  "tree_remove L" "tree_remove_subtree L" "tree_replace_subtree L"
proof unfold_locales
  fix t :: OIDTree and root k k' :: OID and upd :: OIDMap and v :: i32
  assume ok: "tree_ok t"
  then have map: "map_ok oid_less (oidmap t)" by (simp add: tree_ok_def)
  note removed = get_remove_tree [OF ok, of root]
  show "tree_ok (tree_set L k v t)" "tree_ok (tree_remove L k t)"
    using map by (auto simp: tree_ok_def tree_set_def tree_remove_def)
  show "tree_ok (tree_remove_subtree L root t)" using removed by blast
  then show "tree_ok (tree_replace_subtree L root upd t)"
    by (auto simp: tree_ok_def tree_replace_subtree_def Let_def)
  show "tree_get L k' (tree_set L k v t) = (if k' = k then Some v else tree_get L k' t)"
    "tree_get L k' (tree_remove L k t) = (if k' = k then None else tree_get L k' t)"
    using map by (simp_all add: tree_get_def tree_set_def tree_remove_def oid_map.find_assign oid_map.find_erase)
  show "tree_get L k (tree_remove_subtree L root t) = (if related root k then None else tree_get L k t)"
    using removed by blast
  have "map_ok oid_less (oidmap (tree_remove_subtree L root t))" using removed by (simp add: tree_ok_def)
  from oid_map.find_insert_range [OF this, of k upd] removed
  show "tree_get L k (tree_replace_subtree L root upd t) =
      (if related root k then map_of upd k
       else case tree_get L k t of None \<Rightarrow> map_of upd k | Some v \<Rightarrow> Some v)"
    by (auto simp: tree_get_def tree_replace_subtree_def Let_def split: option.splits)
  show "tree_get_next L k t = None \<longleftrightarrow> (\<forall>k'. oid_less k k' \<longrightarrow> tree_get L k' t = None)"
    using oid_map.upper_bound_None [of k "oidmap t"] oid_map.find_None_iff [OF map]
    by (auto simp: tree_get_next_def tree_get_def)
  assume "tree_get_next L k t = Some (k', v)"
  then have "map_upper_bound oid_less k (oidmap t) = Some (k', v)" by (simp add: tree_get_next_def)
  from oid_map.upper_bound_Some [OF map this]
  show "tree_get L k' t = Some v \<and> oid_less k k' \<and>
      (\<forall>j. oid_less k j \<and> tree_get L j t \<noteq> None \<longrightarrow> j = k' \<or> oid_less k' j)"
    using oid_map.find_Some_iff [OF map] oid_map.find_None_iff [OF map] by (auto simp: tree_get_def)
qed

section \<open>Walking the tree\<close>

text \<open>An SNMP walk: repeated \<open>GETNEXT\<close> from an identifier until nothing follows, with fuel.\<close>

fun tree_walk :: "nat \<Rightarrow> oid_lib \<Rightarrow> OID \<Rightarrow> OIDTree \<Rightarrow> (OID \<times> i32) list option" where
  "tree_walk 0 L k t = None"
| "tree_walk (Suc fuel) L k t =
     (case tree_get_next L k t of
        None \<Rightarrow> Some []
      | Some (k', v) \<Rightarrow> map_option (Cons (k', v)) (tree_walk fuel L k' t))"

lemma upper_bound_filter:
  "map_upper_bound lt k m = (case filter (\<lambda>(a, _). lt k a) m of [] \<Rightarrow> None | x # _ \<Rightarrow> Some x)"
  by (induction m) auto

lemma filter_above_tail:
  assumes "map_ok oid_less m" and "filter (\<lambda>(a, _). oid_less k a) m = (k', v) # rest"
  shows "filter (\<lambda>(a, _). oid_less k' a) m = rest"
  using assms
proof (induction m)
  case Nil
  then show ?case by simp
next
  case (Cons p m)
  obtain a w where p: "p = (a, w)" by (cases p)
  show ?case
  proof (cases "oid_less k a")
    case True
    then have eq: "k' = a" "rest = filter (\<lambda>(a, _). oid_less k a) m" using Cons.prems(2) p by auto
    have "oid_less k b \<and> oid_less a b" if "(b, u) \<in> set m" for b u
      using that Cons.prems(1) p True oid_less_trans [of k a b] by force
    then have "filter (\<lambda>(a, _). oid_less k a) m = m" "filter (\<lambda>(b, _). oid_less a b) m = m"
      by (auto simp: filter_id_conv)
    then show ?thesis by (simp add: p eq oid_less_irrefl)
  next
    case False
    then have rest: "filter (\<lambda>(a, _). oid_less k a) m = (k', v) # rest" using Cons.prems(2) p by simp
    have "(k', v) \<in> set (filter (\<lambda>(a, _). oid_less k a) m)" unfolding rest by simp
    then have "(k', v) \<in> set m" by simp
    then have "oid_less a k'" using Cons.prems(1) p by force
    then have "\<not> oid_less k' a" using oid_map.lt_asym by blast
    with Cons rest p show ?thesis by simp
  qed
qed

context oid_library
begin

text \<open>The effect of a replacement, for use outside the locale.\<close>

lemma replace_effect:
  "tree_ok t \<Longrightarrow> tree_ok (tree_replace_subtree L root upd t) \<and>
    tree_get L k (tree_replace_subtree L root upd t) =
      (if related root k then map_of upd k
       else case tree_get L k t of None \<Rightarrow> map_of upd k | Some v \<Rightarrow> Some v)"
  by (simp add: tree.inv_replace_subtree tree.get_replace_subtree)

lemma last_has_no_next:
  "tree_ok t \<Longrightarrow> \<forall>j. oid_less q j \<longrightarrow> tree_get L j t = None \<Longrightarrow> tree_get_next L q t = None"
  by (simp add: tree.next_None)

text \<open>The least of the greater identifiers is the answer to \<open>GETNEXT\<close>.\<close>

lemma least_is_next:
  assumes "tree_ok t" and "oid_less q k" and "tree_get L k t = Some v"
    and "\<forall>j. oid_less q j \<and> tree_get L j t \<noteq> None \<longrightarrow> j = k \<or> oid_less k j"
  shows "tree_get_next L q t = Some (k, v)"
proof (cases "tree_get_next L q t")
  case None
  with tree.next_None [OF assms(1)] assms(2,3) show ?thesis by auto
next
  case (Some p)
  obtain k' v' where p: "p = (k', v')" by (cases p)
  have next': "tree_get L k' t = Some v'" "oid_less q k'" "k = k' \<or> oid_less k' k"
    using tree.next_Some [OF assms(1) Some [unfolded p]] assms(2,3) by auto
  then have "k' = k" using assms(4) oid_map.lt_asym by (metis option.distinct(1))
  with Some p next'(1) assms(3) show ?thesis by simp
qed

lemma tree_walk_filter:
  assumes ok: "tree_ok t"
  shows "length (filter (\<lambda>(a, _). oid_less k a) (oidmap t)) < fuel \<Longrightarrow>
    tree_walk fuel L k t = Some (filter (\<lambda>(a, _). oid_less k a) (oidmap t))"
proof (induction fuel arbitrary: k)
  case 0
  then show ?case by simp
next
  case (Suc fuel)
  have "map_ok oid_less (oidmap t)" using ok by (simp add: tree_ok_def)
  note tail = filter_above_tail [OF this, of k]
  show ?case
  proof (cases "filter (\<lambda>(a, _). oid_less k a) (oidmap t)")
    case Nil
    then show ?thesis by (simp add: tree_get_next_def upper_bound_filter)
  next
    case (Cons p rest)
    obtain k' v where p: "p = (k', v)" by (cases p)
    have rest: "filter (\<lambda>(a, _). oid_less k' a) (oidmap t) = rest" using tail Cons p by simp
    with Suc.IH [of k'] Suc.prems Cons show ?thesis
      by (simp add: tree_get_next_def upper_bound_filter p)
  qed
qed

end

section \<open>Properties\<close>

text \<open>
  C14. A walk by \<open>GETNEXT\<close> from any identifier ends and returns every statistic whose identifier
  is greater, once each, in increasing order of the identifiers, with the value that \<open>GET\<close>
  returns for it.
\<close>

theorem walk_is_complete:
  assumes "oid_library L" and "tree_ok t" and "length (oidmap t) < fuel"
  shows "\<exists>es. tree_walk fuel L k t = Some es \<and> sorted_wrt oid_less (map fst es) \<and>
    (\<forall>k' v. (k', v) \<in> set es \<longleftrightarrow> oid_less k k' \<and> tree_get L k' t = Some v)"
proof -
  let ?es = "filter (\<lambda>(a, _). oid_less k a) (oidmap t)"
  have map: "map_ok oid_less (oidmap t)" using assms(2) by (simp add: tree_ok_def)
  have "tree_walk fuel L k t = Some ?es"
    using oid_library.tree_walk_filter [OF assms(1,2), of k fuel] assms(3)
      length_filter_le [of "\<lambda>(a, _). oid_less k a" "oidmap t"] by simp
  moreover have "sorted_wrt oid_less (map fst ?es)"
    using oid_map.ok_filter [OF map] by (simp add: map_ok_def)
  moreover have "(k', v) \<in> set ?es \<longleftrightarrow> oid_less k k' \<and> tree_get L k' t = Some v" for k' v
    using oid_map.find_Some_iff [OF map, of k' v] oid_library.OIDCompare_less [OF assms(1)]
    by (auto simp: tree_get_def)
  ultimately show ?thesis by blast
qed

definition sample_tree :: OIDTree where
  "sample_tree = tree_set std_lib [1, 2, 0] 7 (tree_set std_lib [1, 3] 5 \<lparr>oidmap = []\<rparr>)"

lemma sample_tree_ok: "tree_ok sample_tree"
  unfolding sample_tree_def
  by (intro std_lib.tree.inv_set) (simp add: tree_ok_def)

theorem walk_is_complete_witness:
  "\<exists>es. tree_walk 3 std_lib [1, 2] sample_tree = Some es \<and> sorted_wrt oid_less (map fst es) \<and>
    (\<forall>k' v. (k', v) \<in> set es \<longleftrightarrow> oid_less [1, 2] k' \<and> tree_get std_lib k' sample_tree = Some v)"
proof -
  have "length (oidmap sample_tree) < 3" by code_simp
  from walk_is_complete [OF std_lib.oid_library_axioms sample_tree_ok this] show ?thesis .
qed

text \<open>
  C29. Replacing a subtree installs the new entries and removes every old one at or below the root,
  but also every entry whose identifier is a proper prefix of the root: the test for membership of
  the subtree compares only up to the length of the shorter identifier.  All other entries stay as
  they were, also where the update names them.
\<close>

theorem replace_subtree_effect:
  assumes "oid_library L" and "tree_ok t"
  shows "tree_ok (tree_replace_subtree L root upd t) \<and>
    tree_get L k (tree_replace_subtree L root upd t) =
      (if (\<exists>c. k = root @ c) \<or> (\<exists>c. root = k @ c) then map_of upd k
       else case tree_get L k t of None \<Rightarrow> map_of upd k | Some v \<Rightarrow> Some v)"
  using oid_library.replace_effect [OF assms] by (simp add: related_def)

theorem replace_subtree_effect_witness:
  "tree_get std_lib [1, 2, 1] (tree_replace_subtree std_lib [1, 2] [([1, 2, 1], 9)] sample_tree) = Some 9"
  using replace_subtree_effect [OF std_lib.oid_library_axioms sample_tree_ok, of "[1, 2]" "[([1, 2, 1], 9)]" "[1, 2, 1]"]
  by simp

end
