(* ===== verification/Stat_Handlers.thy ===== *)
theory Stat_Handlers
  imports OID_Tree
begin

text \<open>
  The handlers of statistics messages (\<open>include/zmq_message_handler.hpp\<close>,
  \<open>src/zmq_message_handler.cpp\<close>).  A message is the vector of strings of one publication: the
  name of the statistic, \<open>OK\<close>, and its values.  Results are optional: \<^const>\<open>None\<close> is an
  access past the end of the vector.  The locale \<open>stat_handler\<close> is the contract that the
  listener relies on; each handler satisfies it.
\<close>

section \<open>Handlers\<close>

definition msg_int :: "string list \<Rightarrow> nat \<Rightarrow> i32 option" where
  "msg_int msgs i = map_option atoi (vec_at msgs i)"

text \<open>
  The loop of \<open>IPCountStatHandler\<close> with \<open>it_ip\<close> at position \<open>i\<close> and \<open>it_val\<close> at the
  next.  \<open>it_ip++++\<close> increments the iterator once, and then the copy that the first increment
  returns.
\<close>

function ip_count_loop :: "oid_lib \<Rightarrow> OID \<Rightarrow> string list \<Rightarrow> nat \<Rightarrow> OIDMap \<Rightarrow> OIDMap option" where
  "ip_count_loop L root msgs i m =
     (if i \<noteq> length msgs \<and> Suc i \<noteq> length msgs then
        (case (vec_at msgs i, vec_at msgs (Suc i)) of
           (Some ip, Some val) \<Rightarrow>
             (let oid_addr = setAddr L ip
              in ip_count_loop L root msgs (Suc i)
                   (if isValid oid_addr
                    then map_assign (OIDCompare L) (append_addr oid_addr (append_string L ''1.3'' root))
                           (atoi val) m
                    else m))
         | _ \<Rightarrow> None)
      else Some m)"
  by pat_completeness auto
termination
  by (relation "measure (\<lambda>(L, root, msgs, i, m). length msgs - i)") (auto simp: vec_at_def split: if_splits)

declare ip_count_loop.simps [simp del]

definition IPCountStatHandler :: "oid_lib \<Rightarrow> OID \<Rightarrow> string list \<Rightarrow> OIDTree \<Rightarrow> OIDTree option" where
  "IPCountStatHandler L root msgs t =
     map_option (\<lambda>m. tree_replace_subtree L root m t) (ip_count_loop L root msgs 2 [])"

definition BareStatHandler :: "oid_lib \<Rightarrow> OID \<Rightarrow> string list \<Rightarrow> OIDTree \<Rightarrow> OIDTree option" where
  "BareStatHandler L root msgs t =
     (if 3 \<le> length msgs then map_option (\<lambda>v. tree_set L root v t) (msg_int msgs 2) else Some t)"

text \<open>The two handlers of a single number differ in the suffix of its identifier.\<close>

definition single_number :: "string \<Rightarrow> oid_lib \<Rightarrow> OID \<Rightarrow> string list \<Rightarrow> OIDTree \<Rightarrow> OIDTree option" where
  "single_number suffix L root msgs t =
     (if 3 \<le> length msgs then
        map_option (\<lambda>v. tree_replace_subtree L root
            (map_assign (OIDCompare L) (append_string L suffix root) v []) t) (msg_int msgs 2)
      else Some (tree_remove_subtree L root t))"

definition SingleNumberStatHandler :: "oid_lib \<Rightarrow> OID \<Rightarrow> string list \<Rightarrow> OIDTree \<Rightarrow> OIDTree option" where
  "SingleNumberStatHandler = single_number ''0''"

definition SingleNumberWithScopeStatHandler ::
  "oid_lib \<Rightarrow> OID \<Rightarrow> string list \<Rightarrow> OIDTree \<Rightarrow> OIDTree option" where
  "SingleNumberWithScopeStatHandler = single_number ''1.2''"

definition AccumulatedWithCountStatHandler ::
  "oid_lib \<Rightarrow> OID \<Rightarrow> string list \<Rightarrow> OIDTree \<Rightarrow> OIDTree option" where
  "AccumulatedWithCountStatHandler L root msgs t =
     (if 7 \<le> length msgs then
        (case (msg_int msgs 2, msg_int msgs 3, msg_int msgs 5, msg_int msgs 4, msg_int msgs 6) of
           (Some average, Some variance, Some hwm, Some lwm, Some count) \<Rightarrow>
             Some (tree_replace_subtree L root
               (map_insert_range (OIDCompare L)
                 [(append_string L ''1.2'' root, average), (append_string L ''1.3'' root, variance),
                  (append_string L ''1.4'' root, hwm), (append_string L ''1.5'' root, lwm),
                  (append_string L ''1.6'' root, count)] []) t)
         | _ \<Rightarrow> None)
      else Some (tree_remove_subtree L root t))"

section \<open>The contract of a handler\<close>

locale stat_handler =
  fixes L :: oid_lib
    and root :: OID
    and handle :: "string list \<Rightarrow> OIDTree \<Rightarrow> OIDTree option"
  assumes total: "2 \<le> length msgs \<Longrightarrow> tree_ok t \<Longrightarrow> \<exists>t'. handle msgs t = Some t' \<and> tree_ok t'"
    and frame: "2 \<le> length msgs \<Longrightarrow> tree_ok t \<Longrightarrow> handle msgs t = Some t' \<Longrightarrow> \<not> related root k \<Longrightarrow>
      tree_get L k t' = tree_get L k t"
begin

text \<open>Both halves of the contract in one rule.\<close>

lemma handled:
  assumes "2 \<le> length msgs" and "tree_ok t"
  shows "\<exists>t'. handle msgs t = Some t' \<and> tree_ok t' \<and>
    (\<forall>k. \<not> related root k \<longrightarrow> tree_get L k t' = tree_get L k t)"
  using total [OF assms] frame [OF assms] by blast

end

section \<open>Lemmas\<close>

lemma related_append [simp]: "related root (root @ xs)"
  by (auto simp: related_def)

lemma related_self [simp]: "related root root"
  by (auto simp: related_def)

lemma msg_int_Some [simp]: "i < length msgs \<Longrightarrow> msg_int msgs i = Some (atoi (msgs ! i))"
  by (simp add: msg_int_def vec_at_def)

text \<open>All entries of an update lie on the branch of its root.\<close>

definition below :: "OID \<Rightarrow> OID \<Rightarrow> bool" where
  "below root k \<longleftrightarrow> (\<exists>c. k = root @ c)"

lemma below_append [simp]: "below root root" "below root (root @ xs)" "below (root @ xs) (root @ xs @ ys)"
  by (auto simp: below_def)

lemma below_related: "below root k \<Longrightarrow> related root k"
  by (auto simp: below_def related_def)

definition keys_below :: "OID \<Rightarrow> OIDMap \<Rightarrow> bool" where
  "keys_below root m \<longleftrightarrow> (\<forall>k \<in> fst ` set m. below root k)"

lemma keys_below_Nil [simp]: "keys_below root []"
  by (simp add: keys_below_def)

lemma keys_below_Cons [simp]: "keys_below root ((k, v) # m) \<longleftrightarrow> below root k \<and> keys_below root m"
  by (simp add: keys_below_def)

lemma keys_below_assign [simp]:
  "keys_below root (map_assign oid_less a v m) \<longleftrightarrow> below root a \<and> keys_below root m"
  by (simp add: keys_below_def oid_map.keys_assign)

lemma keys_below_emplace [simp]:
  "keys_below root (map_emplace oid_less a v m) \<longleftrightarrow> below root a \<and> keys_below root m"
  by (simp add: keys_below_def oid_map.keys_emplace)

lemma keys_below_insert_range:
  "keys_below root r \<Longrightarrow> keys_below root m \<Longrightarrow> keys_below root (map_insert_range oid_less r m)"
proof (induction r arbitrary: m)
  case (Cons p r)
  then show ?case by (cases p) (simp del: map_emplace.simps)
qed simp

text \<open>The suffixes that the handlers append, as subidentifiers.\<close>

definition suffix_oid :: "string \<Rightarrow> OID" where
  "suffix_oid s = map (\<lambda>t. oid_of_int (atoi t)) (filter (\<lambda>t. t \<noteq> []) (split_on CHR ''.'' s))"

lemma suffix_oids [simp]:
  "suffix_oid ''0'' = [0]" "suffix_oid ''1.2'' = [1, 2]" "suffix_oid ''1.3'' = [1, 3]"
  "suffix_oid ''1.4'' = [1, 4]" "suffix_oid ''1.5'' = [1, 5]" "suffix_oid ''1.6'' = [1, 6]"
  "suffix_oid ''1.0'' = [1, 0]" "suffix_oid ''2.0'' = [2, 0]" "suffix_oid ''3.0'' = [3, 0]"
  "suffix_oid ''4.0'' = [4, 0]" "suffix_oid ''5.1.2.1'' = [5, 1, 2, 1]" "suffix_oid ''6.1'' = [6, 1]"
  "suffix_oid ''7.1'' = [7, 1]" "suffix_oid ''8.1'' = [8, 1]"
  by code_simp+

text \<open>What a pair of an address and a count adds to the update; a string that is no address adds nothing.\<close>

definition ip_entry :: "oid_lib \<Rightarrow> OID \<Rightarrow> string \<times> string \<Rightarrow> OIDMap \<Rightarrow> OIDMap" where
  "ip_entry L root p m =
     (if isValid (setAddr L (fst p))
      then map_assign oid_less (root @ [1, 3] @ map ucast (toOIDBytes (setAddr L (fst p)))) (atoi (snd p)) m
      else m)"

context oid_library
begin

lemma append_string_suffix [simp]: "append_string L s root = root @ suffix_oid s"
  by (simp add: append_string_def suffix_oid_def split)

text \<open>One step of the loop, and its end.\<close>

lemma ip_count_step:
  "Suc i < length msgs \<Longrightarrow>
    ip_count_loop L root msgs i m = ip_count_loop L root msgs (Suc i) (ip_entry L root (msgs ! i, msgs ! Suc i) m)"
  by (subst ip_count_loop.simps) (simp add: vec_at_def Let_def append_addr_def ip_entry_def)

lemma ip_count_end: "Suc i = length msgs \<or> i = length msgs \<Longrightarrow> ip_count_loop L root msgs i m = Some m"
  by (subst ip_count_loop.simps) auto

lemma ip_entry_keys: "keys_below root m \<Longrightarrow> keys_below root (ip_entry L root p m)"
  by (simp add: ip_entry_def)

lemma ip_count_keys:
  "i \<le> length msgs \<Longrightarrow> keys_below root m \<Longrightarrow>
    \<exists>m'. ip_count_loop L root msgs i m = Some m' \<and> keys_below root m'"
proof (induction "length msgs - i" arbitrary: i m)
  case 0
  then show ?case by (simp add: ip_count_end)
next
  case (Suc n)
  show ?case
  proof (cases "Suc i = length msgs")
    case True
    then show ?thesis using Suc.prems by (simp add: ip_count_end)
  next
    case False
    then have less: "Suc i < length msgs" and n: "n = length msgs - Suc i" using Suc.hyps(2) by auto
    show ?thesis
      unfolding ip_count_step [OF less]
      by (rule Suc.hyps(1) [OF n]) (use less Suc.prems ip_entry_keys in auto)
  qed
qed

text \<open>Replacing or removing the subtree of the root leaves all unrelated entries alone.\<close>

lemma replace_handled:
  assumes "tree_ok t" and "keys_below root m"
  shows "tree_ok (tree_replace_subtree L root m t) \<and>
    (\<forall>k. \<not> related root k \<longrightarrow> tree_get L k (tree_replace_subtree L root m t) = tree_get L k t)"
proof -
  have "\<And>k. k \<in> fst ` set m \<Longrightarrow> related root k" using assms(2) below_related unfolding keys_below_def by blast
  from tree.replace_below [OF assms(1) this] tree.inv_replace_subtree [OF assms(1)] show ?thesis by simp
qed

lemma remove_handled:
  assumes "tree_ok t"
  shows "tree_ok (tree_remove_subtree L root t) \<and>
    (\<forall>k. \<not> related root k \<longrightarrow> tree_get L k (tree_remove_subtree L root t) = tree_get L k t)"
  using tree.get_remove_subtree [OF assms] tree.inv_remove_subtree [OF assms] by simp

lemma handler_intro:
  assumes "\<And>msgs t. 2 \<le> length msgs \<Longrightarrow> tree_ok t \<Longrightarrow>
    \<exists>t'. handle msgs t = Some t' \<and> tree_ok t' \<and> (\<forall>k. \<not> related root k \<longrightarrow> tree_get L k t' = tree_get L k t)"
  shows "stat_handler L root handle"
  by unfold_locales (use assms in fastforce)+

end

sublocale oid_library \<subseteq> ip_count: stat_handler L root "IPCountStatHandler L root" for root
proof (rule handler_intro)
  fix msgs t
  assume "2 \<le> length (msgs :: string list)" and ok: "tree_ok t"
  then obtain m where "ip_count_loop L root msgs 2 [] = Some m" "keys_below root m"
    using ip_count_keys [of 2 msgs root "[]"] by auto
  with replace_handled [OF ok, of root m]
  show "\<exists>t'. IPCountStatHandler L root msgs t = Some t' \<and> tree_ok t' \<and>
      (\<forall>k. \<not> related root k \<longrightarrow> tree_get L k t' = tree_get L k t)"
    by (simp add: IPCountStatHandler_def)
qed

sublocale oid_library \<subseteq> bare: stat_handler L root "BareStatHandler L root" for root
proof (rule handler_intro)
  fix msgs t
  assume ok: "tree_ok t"
  then show "\<exists>t'. BareStatHandler L root msgs t = Some t' \<and> tree_ok t' \<and>
      (\<forall>k. \<not> related root k \<longrightarrow> tree_get L k t' = tree_get L k t)"
    by (auto simp: BareStatHandler_def tree.inv_set tree.get_set)
qed

sublocale oid_library \<subseteq> single: stat_handler L root "single_number suffix L root" for suffix root
proof (rule handler_intro)
  fix msgs t
  assume ok: "tree_ok t"
  have keys: "keys_below root [(root @ suffix_oid suffix, v)]" for v by simp
  show "\<exists>t'. single_number suffix L root msgs t = Some t' \<and> tree_ok t' \<and>
      (\<forall>k. \<not> related root k \<longrightarrow> tree_get L k t' = tree_get L k t)"
    using replace_handled [OF ok keys] remove_handled [OF ok, of root] by (simp add: single_number_def)
qed

sublocale oid_library \<subseteq> accumulated: stat_handler L root "AccumulatedWithCountStatHandler L root" for root
proof (rule handler_intro)
  fix msgs t
  assume ok: "tree_ok t"
  have keys: "keys_below root (map_insert_range oid_less
      [(root @ [1, 2], a), (root @ [1, 3], b), (root @ [1, 4], c), (root @ [1, 5], d), (root @ [1, 6], e)] [])"
    for a b c d e
    by (rule keys_below_insert_range) simp_all
  show "\<exists>t'. AccumulatedWithCountStatHandler L root msgs t = Some t' \<and> tree_ok t' \<and>
      (\<forall>k. \<not> related root k \<longrightarrow> tree_get L k t' = tree_get L k t)"
    using replace_handled [OF ok keys] remove_handled [OF ok, of root]
    by (simp add: AccumulatedWithCountStatHandler_def del: map_insert_range.simps)
qed

section \<open>What the handlers store\<close>

definition pairs_msgs :: "(string \<times> string) list \<Rightarrow> string list" where
  "pairs_msgs ps = concat (map (\<lambda>(ip, count). [ip, count]) ps)"

context oid_library
begin

text \<open>
  The loop visits the counts as if they were addresses, too; none of them is one, so that it stores
  what a loop over the pairs would.
\<close>

lemma ip_count_pairs:
  assumes "\<forall>(ip, count) \<in> set ps. \<not> isValid (setAddr L count)"
  shows "ip_count_loop L root (pre @ pairs_msgs ps) (length pre) m = Some (fold (ip_entry L root) ps m)"
  using assms
proof (induction ps arbitrary: pre m)
  case Nil
  then show ?case by (simp add: pairs_msgs_def ip_count_end)
next
  case (Cons p ps)
  note IH = Cons.IH and prems = Cons.prems
  obtain ip count where p: "p = (ip, count)" by (cases p)
  let ?msgs = "pre @ pairs_msgs (p # ps)"
  have msgs: "?msgs = (pre @ [ip, count]) @ pairs_msgs ps" by (simp add: pairs_msgs_def p)
  have nth: "?msgs ! length pre = ip" "?msgs ! Suc (length pre) = count"
    by (simp_all add: msgs nth_append)
  have step: "ip_count_loop L root ?msgs (length pre) m =
      ip_count_loop L root ?msgs (Suc (length pre)) (ip_entry L root (ip, count) m)"
    using ip_count_step [of "length pre" ?msgs root m] nth by (simp add: msgs)
  also have "\<dots> = Some (fold (ip_entry L root) ps (ip_entry L root (ip, count) m))"
  proof (cases ps)
    case Nil
    then have "Suc (Suc (length pre)) = length ?msgs" by (simp add: pairs_msgs_def p)
    with ip_count_end [of "Suc (length pre)" ?msgs] Nil show ?thesis by simp
  next
    case (Cons q qs)
    have "\<not> isValid (setAddr L count)" using prems p by auto
    then have skip: "ip_entry L root (count, x) m' = m'" for x m' by (simp add: ip_entry_def)
    have "Suc (Suc (length pre)) < length ?msgs" using Cons by (cases q) (simp add: pairs_msgs_def p)
    from ip_count_step [OF this, of root] nth skip
    have "ip_count_loop L root ?msgs (Suc (length pre)) m' =
        ip_count_loop L root ?msgs (length (pre @ [ip, count])) m'" for m' by simp
    with IH [of "pre @ [ip, count]"] prems show ?thesis unfolding msgs by simp
  qed
  finally show ?case by (simp add: p)
qed

end

section \<open>Properties\<close>

text \<open>
  C28. The connection counts are stored as the message gives them: for a message of pairs of an
  address and a count, where no count looks like an address (it has no dot and no colon), the table
  holds one entry per valid address afterwards, with the last count given for it, and nothing else.
  This holds although the loop advances by one message part and not by two.
\<close>

theorem ip_count_stores_pairs:
  assumes "oid_library L" and "tree_ok t"
    and "\<forall>(ip, count) \<in> set ps. CHR ''.'' \<notin> set count \<and> CHR '':'' \<notin> set count"
  shows "\<exists>t'. IPCountStatHandler L root (name # status # pairs_msgs ps) t = Some t' \<and>
    (\<forall>k. related root k \<longrightarrow> tree_get L k t' = map_of (fold (ip_entry L root) ps []) k)"
proof -
  have "\<forall>(ip, count) \<in> set ps. \<not> isValid (setAddr L count)"
    using assms(3) oid_library.number_not_addr [OF assms(1)] by fastforce
  from oid_library.ip_count_pairs [OF assms(1) this, of root "[name, status]" "[]"]
  have "ip_count_loop L root (name # status # pairs_msgs ps) 2 [] = Some (fold (ip_entry L root) ps [])"
    by (simp add: numeral_2_eq_2)
  then show ?thesis
    using oid_library.replace_effect [OF assms(1,2)] by (simp add: IPCountStatHandler_def)
qed

theorem ip_count_stores_pairs_witness:
  "\<exists>t'. IPCountStatHandler std_lib [9] (''connected_homers'' # ''OK'' # pairs_msgs [(''10.0.0.1'', ''3'')]) sample_tree =
      Some t' \<and>
    tree_get std_lib [9, 1, 3, 1, 4, 10, 0, 0, 1] t' = Some 3"
proof -
  have upd: "map_of (fold (ip_entry std_lib [9]) [(''10.0.0.1'', ''3'')] []) [9, 1, 3, 1, 4, 10, 0, 0, 1] = Some 3"
    by code_simp
  from ip_count_stores_pairs [OF std_lib.oid_library_axioms sample_tree_ok,
      of "[(''10.0.0.1'', ''3'')]" "[9]" "''connected_homers''" "''OK''"]
  show ?thesis using upd related_append [of "[9]" "[1, 3, 1, 4, 10, 0, 0, 1]"] by auto
qed

text \<open>
  A latency statistic of seven or more parts is stored as the five columns of its table row,
  average, variance, high water mark, low water mark and count, where the two marks change places;
  a shorter message empties the row.
\<close>

lemma accumulated_columns:
  assumes "oid_library L" and "tree_ok t" and "2 \<le> length msgs"
  shows "\<exists>t'. AccumulatedWithCountStatHandler L root msgs t = Some t' \<and>
    (\<forall>k. related root k \<longrightarrow> tree_get L k t' =
      (if length msgs < 7 then None
       else map_of [(root @ [1, 2], atoi (msgs ! 2)), (root @ [1, 3], atoi (msgs ! 3)),
                    (root @ [1, 4], atoi (msgs ! 5)), (root @ [1, 5], atoi (msgs ! 4)),
                    (root @ [1, 6], atoi (msgs ! 6))] k)) \<and>
    (\<forall>k. \<not> related root k \<longrightarrow> tree_get L k t' = tree_get L k t)"
proof -
  let ?upd = "[(root @ [1, 2], atoi (msgs ! 2)), (root @ [1, 3], atoi (msgs ! 3)), (root @ [1, 4], atoi (msgs ! 5)),
      (root @ [1, 5], atoi (msgs ! 4)), (root @ [1, 6], atoi (msgs ! 6))]"
  let ?m = "map_insert_range oid_less ?upd []"
  note facts = oid_library.OIDCompare_less [OF assms(1)] oid_library.append_string_suffix [OF assms(1)]
  have upd: "map_of ?m k = map_of ?upd k" for k
    using oid_map.find_insert_range [of "[]" k ?upd] oid_map.find_map_of [of ?m k]
    by (simp del: map_insert_range.simps)
  have below: "keys_below root ?m" by (rule keys_below_insert_range) simp_all
  show ?thesis
  proof (cases "length msgs < 7")
    case True
    then have "AccumulatedWithCountStatHandler L root msgs t = Some (tree_remove_subtree L root t)"
      by (simp add: AccumulatedWithCountStatHandler_def)
    then show ?thesis using True oid_library.get_remove_tree [OF assms(1,2), of root] by simp
  next
    case False
    then have "AccumulatedWithCountStatHandler L root msgs t = Some (tree_replace_subtree L root ?m t)"
      by (simp add: AccumulatedWithCountStatHandler_def facts del: map_insert_range.simps)
    then show ?thesis
      using False oid_library.replace_effect [OF assms(1,2), of root ?m] upd
        oid_library.replace_handled [OF assms(1,2) below]
      by (simp del: map_insert_range.simps)
  qed
qed

end
