(* ===== verification/Astaire.thy ===== *)
theory Astaire
  imports Stat_Handlers
begin

text \<open>
  The handlers of the Astaire statistics (\<open>src/astairedata.cpp\<close>): the global counters, and the
  list of connections with their buckets, which is parsed out of one flat message.  Positions in the
  message are mathematical integers (they never pass the size of the message); the number of buckets
  comes from the message, and the position where its buckets end is computed in 32-bit arithmetic,
  wrapping around where the C++ standard leaves signed overflow undefined.
\<close>

section \<open>The global counters\<close>

definition AstaireGlobalStatHandler :: "oid_lib \<Rightarrow> OID \<Rightarrow> string list \<Rightarrow> OIDTree \<Rightarrow> OIDTree option" where
  "AstaireGlobalStatHandler L root msgs t =
     (let buckets_needing_resync = OID_parent_string L root ''1.0'';
          buckets_resynchronized = OID_parent_string L root ''2.0'';
          entries_resynchronized = OID_parent_string L root ''3.0'';
          data_resynchronized = OID_parent_string L root ''4.0'';
          bandwidth = OID_parent_string L root ''5.1.2.1''
      in if 7 \<le> length msgs then
           (case (msg_int msgs 2, msg_int msgs 3, msg_int msgs 4, msg_int msgs 5, msg_int msgs 6) of
              (Some a, Some b, Some c, Some d, Some e) \<Rightarrow>
                Some (tree_set L bandwidth e (tree_set L data_resynchronized d
                  (tree_set L entries_resynchronized c (tree_set L buckets_resynchronized b
                    (tree_set L buckets_needing_resync a t)))))
            | _ \<Rightarrow> None)
         else
           Some (tree_remove L bandwidth (tree_remove L data_resynchronized
             (tree_remove L entries_resynchronized (tree_remove L buckets_resynchronized
               (tree_remove L buckets_needing_resync t))))))"

section \<open>The list of connections\<close>

definition wrap32 :: "int \<Rightarrow> int" where
  "wrap32 x = sint (word_of_int x :: i32)"

text \<open>\<open>(int)msgs.size()\<close>, and \<open>msgs[i]\<close> with \<^const>\<open>None\<close> past the end.\<close>

definition size_int :: "string list \<Rightarrow> int" where
  "size_int msgs = wrap32 (int (length msgs))"

definition msg_at :: "string list \<Rightarrow> int \<Rightarrow> string option" where
  "msg_at msgs i = (if 0 \<le> i then vec_at msgs (nat i) else None)"

definition msg_int_at :: "string list \<Rightarrow> int \<Rightarrow> i32 option" where
  "msg_int_at msgs i = map_option atoi (msg_at msgs i)"

record conn_trees =
  connection_tree :: OIDMap
  bucket_tree :: OIDMap
  bucket_bandwidth_tree :: OIDMap

text \<open>An identifier with a column and the indexes of a connection, to which \<open>append(int)\<close> adds.\<close>

definition conn_oid :: "oid_lib \<Rightarrow> OID \<Rightarrow> string \<Rightarrow> oid \<Rightarrow> OIDInetAddr \<Rightarrow> i32 \<Rightarrow> OID" where
  "conn_oid L root base column addr port =
     append_oid (oid_of_int port) (append_addr addr (OID_parent_sub (OID_parent_string L root base) column))"

text \<open>The body of the inner loop.\<close>

definition add_bucket ::
  "oid_lib \<Rightarrow> OID \<Rightarrow> OIDInetAddr \<Rightarrow> i32 \<Rightarrow> i32 \<times> i32 \<times> i32 \<times> i32 \<Rightarrow> conn_trees \<Rightarrow> conn_trees" where
  "add_bucket L root addr port bk T =
     (case bk of (bucket_id, entries, data, bandwidth) \<Rightarrow>
        T\<lparr>bucket_tree :=
            map_assign (OIDCompare L) (append_oid (oid_of_int bucket_id) (conn_oid L root ''7.1'' 6 addr port)) data
              (map_assign (OIDCompare L) (append_oid (oid_of_int bucket_id) (conn_oid L root ''7.1'' 5 addr port)) entries
                (bucket_tree T)),
          bucket_bandwidth_tree :=
            map_assign (OIDCompare L)
              (append_oid 1 (append_oid (oid_of_int bucket_id) (conn_oid L root ''8.1'' 6 addr port))) bandwidth
              (bucket_bandwidth_tree T)\<rparr>)"

function bucket_loop ::
  "oid_lib \<Rightarrow> OID \<Rightarrow> OIDInetAddr \<Rightarrow> i32 \<Rightarrow> string list \<Rightarrow> int \<Rightarrow> int \<Rightarrow> conn_trees \<Rightarrow> (int \<times> conn_trees) option" where
  "bucket_loop L root addr port msgs end_buckets ii T =
     (if ii < end_buckets then
        (case (msg_int_at msgs ii, msg_int_at msgs (ii + 1), msg_int_at msgs (ii + 2), msg_int_at msgs (ii + 3)) of
           (Some bucket_id, Some entries, Some data, Some bandwidth) \<Rightarrow>
             bucket_loop L root addr port msgs end_buckets (ii + 4)
               (add_bucket L root addr port (bucket_id, entries, data, bandwidth) T)
         | _ \<Rightarrow> None)
      else Some (ii, T))"
  by pat_completeness auto
termination
  by (relation "measure (\<lambda>(L, root, addr, port, msgs, end_buckets, ii, T). nat (end_buckets - ii))") auto

declare bucket_loop.simps [simp del]

lemma bucket_loop_forward: "bucket_loop L root addr port msgs end_buckets ii T = Some (ii', T') \<Longrightarrow> ii \<le> ii'"
proof (induction L root addr port msgs end_buckets ii T rule: bucket_loop.induct)
  case (1 L root addr port msgs end_buckets ii T)
  from 1(2) show ?case
    unfolding bucket_loop.simps [of L root addr port msgs end_buckets ii T]
    using 1(1) by (fastforce split: if_splits option.splits)
qed

definition add_connection ::
  "oid_lib \<Rightarrow> OID \<Rightarrow> OIDInetAddr \<Rightarrow> i32 \<Rightarrow> i32 \<Rightarrow> i32 \<Rightarrow> conn_trees \<Rightarrow> conn_trees" where
  "add_connection L root addr port needing resynchronized T =
     T\<lparr>connection_tree :=
         map_assign (OIDCompare L) (conn_oid L root ''6.1'' 5 addr port) resynchronized
           (map_assign (OIDCompare L) (conn_oid L root ''6.1'' 4 addr port) needing (connection_tree T))\<rparr>"

text \<open>The outer loop; every \<open>break\<close> keeps what has been collected so far.\<close>

function connection_loop :: "oid_lib \<Rightarrow> OID \<Rightarrow> string list \<Rightarrow> int \<Rightarrow> conn_trees \<Rightarrow> conn_trees option" where
  "connection_loop L root msgs ii T =
     (if ii < size_int msgs then
        (if size_int msgs \<ge> ii + 5 then
           (case (msg_at msgs ii, msg_int_at msgs (ii + 1)) of
              (Some ip, Some port) \<Rightarrow>
                (let addr = setAddr L ip
                 in if isValid addr then
                      (case (msg_int_at msgs (ii + 2), msg_int_at msgs (ii + 3), msg_int_at msgs (ii + 4)) of
                         (Some needing, Some resynchronized, Some num_buckets) \<Rightarrow>
                           (let T1 = add_connection L root addr port needing resynchronized T;
                                end_buckets = wrap32 (ii + 5 + wrap32 (sint num_buckets * 4))
                            in if size_int msgs \<ge> end_buckets then
                                 (case bucket_loop L root addr port msgs end_buckets (ii + 5) T1 of
                                    None \<Rightarrow> None
                                  | Some (ii', T2) \<Rightarrow> connection_loop L root msgs ii' T2)
                               else Some T1)
                       | _ \<Rightarrow> None)
                    else Some T)
            | _ \<Rightarrow> None)
         else Some T)
      else Some T)"
  by pat_completeness auto
termination
  by (relation "measure (\<lambda>(L, root, msgs, ii, T). nat (size_int msgs - ii))")
    (auto dest!: bucket_loop_forward)

declare connection_loop.simps [simp del]

definition AstaireConnectionStatHandler :: "oid_lib \<Rightarrow> OID \<Rightarrow> string list \<Rightarrow> OIDTree \<Rightarrow> OIDTree option" where
  "AstaireConnectionStatHandler L root msgs t =
     map_option (\<lambda>T.
       tree_replace_subtree L (OID_parent_string L root ''8.1'') (bucket_bandwidth_tree T)
         (tree_replace_subtree L (OID_parent_string L root ''7.1'') (bucket_tree T)
           (tree_replace_subtree L (OID_parent_string L root ''6.1'') (connection_tree T) t)))
       (connection_loop L root msgs 2 \<lparr>connection_tree = [], bucket_tree = [], bucket_bandwidth_tree = []\<rparr>)"

section \<open>Lemmas\<close>

lemma wrap32_mod: "wrap32 x = (x + 2 ^ 31) mod 2 ^ 32 - 2 ^ 31"
  by (simp add: wrap32_def sint_uint uint_word_of_int signed_take_bit_eq_take_bit_shift take_bit_eq_mod mod_simps)

lemma wrap32_dvd: "4 dvd wrap32 x - x"
proof -
  have "(x + 2 ^ 31) mod 2 ^ 32 - (x + 2 ^ 31) = - (2 ^ 32 * ((x + 2 ^ 31) div 2 ^ 32))"
    by (simp only: minus_div_mult_eq_mod [symmetric]) simp
  then have "wrap32 x - x = 4 * (- (2 ^ 30 * ((x + 2 ^ 31) div 2 ^ 32)))"
    by (simp add: wrap32_mod)
  then show ?thesis by (metis dvd_triv_left)
qed

lemma wrap32_id: "- (2 ^ 31) \<le> x \<Longrightarrow> x < 2 ^ 31 \<Longrightarrow> wrap32 x = x"
  by (simp add: wrap32_mod)

lemma size_int_length: "length msgs < 2 ^ 31 \<Longrightarrow> size_int msgs = int (length msgs)"
  by (simp add: size_int_def wrap32_id)

lemma size_int_le: "size_int msgs \<le> int (length msgs)"
  using zmod_le_nonneg_dividend [of "int (length msgs) + 2 ^ 31" "2 ^ 32"] by (simp add: size_int_def wrap32_mod)

lemma msg_at_Some [simp]: "0 \<le> i \<Longrightarrow> i < int (length msgs) \<Longrightarrow> msg_at msgs i = Some (msgs ! nat i)"
  by (simp add: msg_at_def vec_at_def nat_less_iff)

lemma msg_int_at_Some [simp]:
  "0 \<le> i \<Longrightarrow> i < int (length msgs) \<Longrightarrow> msg_int_at msgs i = Some (atoi (msgs ! nat i))"
  by (simp add: msg_int_at_def)

text \<open>The three updates stay on their branches.\<close>

definition trees_below :: "OID \<Rightarrow> conn_trees \<Rightarrow> bool" where
  "trees_below root T \<longleftrightarrow>
     keys_below (root @ [6, 1]) (connection_tree T) \<and> keys_below (root @ [7, 1]) (bucket_tree T) \<and>
     keys_below (root @ [8, 1]) (bucket_bandwidth_tree T)"

lemma related_append2: "related (root @ xs) k \<Longrightarrow> related root k"
proof -
  assume "related (root @ xs) k"
  then consider c where "k = root @ xs @ c" | c where "root @ xs = k @ c" by (auto simp: related_def)
  then show ?thesis
  proof cases
    case 2
    then show ?thesis by (auto simp: related_def append_eq_append_conv2)
  qed (auto simp: related_def)
qed

context oid_library
begin

lemma conn_oid_eq: "conn_oid L root base column addr port =
    root @ suffix_oid base @ column # map ucast (toOIDBytes addr) @ [oid_of_int port]"
  by (simp add: conn_oid_def append_oid_def append_addr_def)

lemma trees_below_bucket: "trees_below root T \<Longrightarrow> trees_below root (add_bucket L root addr port bk T)"
  using below_append(3) [of root "[7, 1]"] below_append(3) [of root "[8, 1]"]
  by (cases bk) (simp add: trees_below_def add_bucket_def conn_oid_eq append_oid_def)

lemma trees_below_connection:
  "trees_below root T \<Longrightarrow> trees_below root (add_connection L root addr port a b T)"
  using below_append(3) [of root "[6, 1]"]
  by (simp add: trees_below_def add_connection_def conn_oid_eq)

lemma bucket_loop_total:
  "0 \<le> ii \<Longrightarrow> 4 dvd e - ii \<Longrightarrow> e \<le> int (length msgs) \<Longrightarrow> trees_below root T \<Longrightarrow>
    \<exists>T'. bucket_loop L root addr port msgs e ii T = Some (max ii e, T') \<and> trees_below root T'"
proof (induction "nat (e - ii)" arbitrary: ii T rule: less_induct)
  case less
  show ?case
  proof (cases "ii < e")
    case False
    then show ?thesis using less.prems by (subst bucket_loop.simps) simp
  next
    case True
    then have "ii + 4 \<le> e" using less.prems(2) zdvd_imp_le [of 4 "e - ii"] by simp
    let ?bk = "(atoi (msgs ! nat ii), atoi (msgs ! nat (ii + 1)), atoi (msgs ! nat (ii + 2)), atoi (msgs ! nat (ii + 3)))"
    have step: "bucket_loop L root addr port msgs e ii T =
        bucket_loop L root addr port msgs e (ii + 4) (add_bucket L root addr port ?bk T)"
      using True \<open>ii + 4 \<le> e\<close> less.prems(1,3) by (subst bucket_loop.simps) simp
    have "4 dvd e - (ii + 4)" using dvd_diff [OF less.prems(2), of 4] by (simp add: algebra_simps)
    with less.hyps [of "ii + 4" "add_bucket L root addr port ?bk T"] True less.prems trees_below_bucket
      \<open>ii + 4 \<le> e\<close>
    show ?thesis unfolding step by (auto simp: max_def)
  qed
qed

text \<open>One round of the outer loop within the bounds of the message.\<close>

lemma connection_step:
  assumes "0 \<le> ii" and "ii + 5 \<le> size_int msgs"
  shows "connection_loop L root msgs ii T =
    (let addr = setAddr L (msgs ! nat ii); port = atoi (msgs ! nat (ii + 1));
         T1 = add_connection L root addr port (atoi (msgs ! nat (ii + 2))) (atoi (msgs ! nat (ii + 3))) T;
         e = wrap32 (ii + 5 + wrap32 (sint (atoi (msgs ! nat (ii + 4))) * 4))
     in if \<not> isValid addr then Some T
        else if size_int msgs < e then Some T1
        else (case bucket_loop L root addr port msgs e (ii + 5) T1 of
                None \<Rightarrow> None
              | Some (ii', T2) \<Rightarrow> connection_loop L root msgs ii' T2))"
  using assms size_int_le [of msgs] by (subst connection_loop.simps) (simp add: Let_def not_less)

lemma connection_end:
  assumes "size_int msgs < ii + 5"
  shows "connection_loop L root msgs ii T = Some T"
  using assms by (subst connection_loop.simps) simp

lemma connection_loop_total:
  "0 \<le> ii \<Longrightarrow> trees_below root T \<Longrightarrow>
    \<exists>T'. connection_loop L root msgs ii T = Some T' \<and> trees_below root T'"
proof (induction "nat (size_int msgs - ii)" arbitrary: ii T rule: less_induct)
  case less
  show ?case
  proof (cases "ii + 5 \<le> size_int msgs")
    case False
    then show ?thesis using connection_end less.prems by simp
  next
    case True
    define addr port T1 e where "addr = setAddr L (msgs ! nat ii)" and "port = atoi (msgs ! nat (ii + 1))"
      and "T1 = add_connection L root addr port (atoi (msgs ! nat (ii + 2))) (atoi (msgs ! nat (ii + 3))) T"
      and "e = wrap32 (ii + 5 + wrap32 (sint (atoi (msgs ! nat (ii + 4))) * 4))"
    have T1: "trees_below root T1" unfolding T1_def by (rule trees_below_connection [OF less.prems(2)])
    have dvd: "4 dvd e - (ii + 5)"
    proof -
      let ?n = "sint (atoi (msgs ! nat (ii + 4))) * 4"
      have "e - (ii + 5) = (e - (ii + 5 + wrap32 ?n)) + (wrap32 ?n - ?n) + ?n" by simp
      then show ?thesis
        unfolding e_def using wrap32_dvd [of "ii + 5 + wrap32 ?n"] wrap32_dvd [of ?n] by (metis dvd_add dvd_triv_right)
    qed
    have step: "connection_loop L root msgs ii T =
        (if \<not> isValid addr then Some T else if size_int msgs < e then Some T1
         else (case bucket_loop L root addr port msgs e (ii + 5) T1 of
                 None \<Rightarrow> None | Some (ii', T2) \<Rightarrow> connection_loop L root msgs ii' T2))"
      using connection_step [OF less.prems(1) True, of root T]
      by (simp add: addr_def port_def T1_def e_def Let_def)
    show ?thesis
    proof (cases "isValid addr \<and> e \<le> size_int msgs")
      case False
      then show ?thesis unfolding step using less.prems(2) T1 by auto
    next
      case ok: True
      obtain T2 where T2: "bucket_loop L root addr port msgs e (ii + 5) T1 = Some (max (ii + 5) e, T2)" "trees_below root T2"
        using bucket_loop_total [OF _ dvd _ T1, of msgs addr port] ok less.prems(1) size_int_le [of msgs] by auto
      have "\<exists>T'. connection_loop L root msgs (max (ii + 5) e) T2 = Some T' \<and> trees_below root T'"
        using less.hyps [OF _ _ T2(2), of "max (ii + 5) e"] less.prems(1) True by simp
      then show ?thesis unfolding step using ok T2(1) by simp
    qed
  qed
qed

end

section \<open>The handlers keep their contract\<close>

text \<open>The identifiers that each of the two handlers writes, below the root that they share.\<close>

definition global_branches :: "OID \<Rightarrow> OID list" where
  "global_branches root = [root @ [1, 0], root @ [2, 0], root @ [3, 0], root @ [4, 0], root @ [5, 1, 2, 1]]"

definition connection_branches :: "OID \<Rightarrow> OID list" where
  "connection_branches root = [root @ [6, 1], root @ [7, 1], root @ [8, 1]]"

context oid_library
begin

lemma global_handled:
  assumes "tree_ok t"
  shows "\<exists>t'. AstaireGlobalStatHandler L root msgs t = Some t' \<and> tree_ok t' \<and>
    (\<forall>k. (\<forall>b \<in> set (global_branches root). \<not> related b k) \<longrightarrow> tree_get L k t' = tree_get L k t)"
proof -
  note tree_laws = tree.inv_set tree.inv_remove tree.get_set tree.get_remove
  have "related b b" for b :: OID by (simp add: related_def)
  then show ?thesis
    using assms by (auto simp: AstaireGlobalStatHandler_def global_branches_def Let_def tree_laws)
qed

lemma connection_handled:
  assumes ok: "tree_ok t"
  shows "\<exists>t'. AstaireConnectionStatHandler L root msgs t = Some t' \<and> tree_ok t' \<and>
    (\<forall>k. (\<forall>b \<in> set (connection_branches root). \<not> related b k) \<longrightarrow> tree_get L k t' = tree_get L k t)"
proof -
  obtain T where T: "connection_loop L root msgs 2 \<lparr>connection_tree = [], bucket_tree = [], bucket_bandwidth_tree = []\<rparr> = Some T"
    and below: "trees_below root T"
    using connection_loop_total [of 2 root "\<lparr>connection_tree = [], bucket_tree = [], bucket_bandwidth_tree = []\<rparr>" msgs]
    by (auto simp: trees_below_def)
  let ?t1 = "tree_replace_subtree L (root @ [6, 1]) (connection_tree T) t"
  let ?t2 = "tree_replace_subtree L (root @ [7, 1]) (bucket_tree T) ?t1"
  have "tree_ok ?t1 \<and> (\<forall>k. \<not> related (root @ [6, 1]) k \<longrightarrow> tree_get L k ?t1 = tree_get L k t)"
    using replace_handled [OF ok] below by (simp add: trees_below_def)
  moreover from this have "tree_ok ?t2 \<and> (\<forall>k. \<not> related (root @ [7, 1]) k \<longrightarrow> tree_get L k ?t2 = tree_get L k ?t1)"
    using replace_handled [of ?t1] below by (simp add: trees_below_def)
  moreover from this have "tree_ok (tree_replace_subtree L (root @ [8, 1]) (bucket_bandwidth_tree T) ?t2) \<and>
      (\<forall>k. \<not> related (root @ [8, 1]) k \<longrightarrow>
        tree_get L k (tree_replace_subtree L (root @ [8, 1]) (bucket_bandwidth_tree T) ?t2) = tree_get L k ?t2)"
    using replace_handled [of ?t2] below by (simp add: trees_below_def)
  ultimately show ?thesis using T by (simp add: AstaireConnectionStatHandler_def connection_branches_def)
qed

lemma branches_unrelated:
  assumes "\<not> related root k"
  shows "\<forall>b \<in> set (global_branches root). \<not> related b k"
    and "\<forall>b \<in> set (connection_branches root). \<not> related b k"
proof -
  have "\<not> related (root @ xs) k" for xs using assms related_append2 by blast
  then show "\<forall>b \<in> set (global_branches root). \<not> related b k"
    and "\<forall>b \<in> set (connection_branches root). \<not> related b k"
    by (simp_all add: global_branches_def connection_branches_def)
qed

end

sublocale oid_library \<subseteq> astaire_global: stat_handler L root "AstaireGlobalStatHandler L root" for root
proof (rule handler_intro)
  fix msgs t
  assume "tree_ok t"
  from global_handled [OF this] show "\<exists>t'. AstaireGlobalStatHandler L root msgs t = Some t' \<and> tree_ok t' \<and>
      (\<forall>k. \<not> related root k \<longrightarrow> tree_get L k t' = tree_get L k t)"
    using branches_unrelated(1) by blast
qed

sublocale oid_library \<subseteq> astaire_connection: stat_handler L root "AstaireConnectionStatHandler L root" for root
proof (rule handler_intro)
  fix msgs t
  assume "tree_ok t"
  from connection_handled [OF this] show "\<exists>t'. AstaireConnectionStatHandler L root msgs t = Some t' \<and> tree_ok t' \<and>
      (\<forall>k. \<not> related root k \<longrightarrow> tree_get L k t' = tree_get L k t)"
    using branches_unrelated(2) by blast
qed

section \<open>Well-formed messages\<close>

text \<open>A connection as Astaire publishes it, and its parts in a message.\<close>

record connection =
  cn_ip :: string
  cn_port :: string
  cn_needing :: string
  cn_resynchronized :: string
  cn_buckets :: "(string \<times> string \<times> string \<times> string) list"

definition bucket_msgs :: "(string \<times> string \<times> string \<times> string) list \<Rightarrow> string list" where
  "bucket_msgs bs = concat (map (\<lambda>(i, e, d, w). [i, e, d, w]) bs)"

definition connection_msgs :: "connection \<Rightarrow> string list" where
  "connection_msgs c =
     [cn_ip c, cn_port c, cn_needing c, cn_resynchronized c, show_dec (length (cn_buckets c))] @
     bucket_msgs (cn_buckets c)"

text \<open>What a connection adds to the three updates.\<close>

definition bucket_values :: "string \<times> string \<times> string \<times> string \<Rightarrow> i32 \<times> i32 \<times> i32 \<times> i32" where
  "bucket_values b = (case b of (i, e, d, w) \<Rightarrow> (atoi i, atoi e, atoi d, atoi w))"

definition connection_entry :: "oid_lib \<Rightarrow> OID \<Rightarrow> connection \<Rightarrow> conn_trees \<Rightarrow> conn_trees" where
  "connection_entry L root c T =
     (let addr = setAddr L (cn_ip c); port = atoi (cn_port c)
      in fold (\<lambda>b. add_bucket L root addr port (bucket_values b)) (cn_buckets c)
           (add_connection L root addr port (atoi (cn_needing c)) (atoi (cn_resynchronized c)) T))"

lemma length_bucket_msgs [simp]: "length (bucket_msgs bs) = 4 * length bs"
  by (induction bs) (auto simp: bucket_msgs_def)

lemma bucket_msgs_Cons [simp]: "bucket_msgs ((i, e, d, w) # bs) = i # e # d # w # bucket_msgs bs"
  by (simp add: bucket_msgs_def)

lemma bucket_loop_msgs:
  "bucket_loop L root addr port (pre @ bucket_msgs bs @ post) (int (length pre + 4 * length bs)) (int (length pre)) T =
    Some (int (length pre + 4 * length bs), fold (\<lambda>b. add_bucket L root addr port (bucket_values b)) bs T)"
proof (induction bs arbitrary: pre T)
  case Nil
  then show ?case by (subst bucket_loop.simps) simp
next
  case (Cons b bs)
  obtain i e d w where b: "b = (i, e, d, w)" by (cases b)
  let ?msgs = "pre @ bucket_msgs (b # bs) @ post"
  have msgs: "?msgs = (pre @ [i, e, d, w]) @ bucket_msgs bs @ post" by (simp add: b)
  have nth: "?msgs ! nat (int (length pre)) = i" "?msgs ! nat (int (length pre) + 1) = e"
    "?msgs ! nat (int (length pre) + 2) = d" "?msgs ! nat (int (length pre) + 3) = w"
    by (simp_all add: msgs nth_append nat_add_distrib)
  have "bucket_loop L root addr port ?msgs (int (length pre + 4 * length (b # bs))) (int (length pre)) T =
      bucket_loop L root addr port ?msgs (int (length pre + 4 * length (b # bs))) (int (length pre) + 4)
        (add_bucket L root addr port (bucket_values b) T)"
    by (subst bucket_loop.simps) (simp add: nth, simp add: b bucket_values_def)
  with Cons.IH [of "pre @ [i, e, d, w]"] show ?case unfolding msgs by (simp add: algebra_simps)
qed

context oid_library
begin

lemma connection_loop_msgs:
  "length (pre @ concat (map connection_msgs cs)) < 2 ^ 31 \<Longrightarrow> \<forall>c \<in> set cs. isValid (setAddr L (cn_ip c)) \<Longrightarrow>
    connection_loop L root (pre @ concat (map connection_msgs cs)) (int (length pre)) T =
      Some (fold (connection_entry L root) cs T)"
proof (induction cs arbitrary: pre T)
  case Nil
  then show ?case by (simp add: connection_end size_int_length)
next
  case (Cons c cs)
  let ?n = "length (cn_buckets c)"
  let ?head = "[cn_ip c, cn_port c, cn_needing c, cn_resynchronized c, show_dec ?n]"
  let ?msgs = "pre @ concat (map connection_msgs (c # cs))"
  have msgs: "?msgs = (pre @ ?head) @ bucket_msgs (cn_buckets c) @ concat (map connection_msgs cs)"
    "?msgs = (pre @ connection_msgs c) @ concat (map connection_msgs cs)"
    by (simp_all add: connection_msgs_def)
  have "length pre + 5 + 4 * ?n \<le> length ?msgs" unfolding msgs(1) by simp
  note len = this Cons.prems(1)
  let ?ii = "int (length pre)"
  have nth: "?msgs ! nat ?ii = cn_ip c" "?msgs ! nat (?ii + 1) = cn_port c" "?msgs ! nat (?ii + 2) = cn_needing c"
    "?msgs ! nat (?ii + 3) = cn_resynchronized c" "?msgs ! nat (?ii + 4) = show_dec ?n"
    unfolding msgs(1) by (simp_all add: nth_append nat_add_distrib)
  have num: "sint (atoi (show_dec ?n)) = int ?n"
    using len by (simp add: atoi_show_dec sint_of_nat_i32)
  then have wrap: "wrap32 (?ii + 5 + wrap32 (sint (atoi (show_dec ?n)) * 4)) = ?ii + 5 + 4 * int ?n"
    using len by (simp add: wrap32_id)
  let ?addr = "setAddr L (cn_ip c)" and ?port = "atoi (cn_port c)"
  let ?T1 = "add_connection L root ?addr ?port (atoi (cn_needing c)) (atoi (cn_resynchronized c)) T"
  have "bucket_loop L root ?addr ?port ?msgs (?ii + 5 + 4 * int ?n) (?ii + 5) ?T1 =
      Some (?ii + 5 + 4 * int ?n, connection_entry L root c T)"
    using bucket_loop_msgs [of L root ?addr ?port "pre @ ?head" "cn_buckets c" "concat (map connection_msgs cs)" ?T1]
    unfolding msgs(1) by (simp add: connection_entry_def Let_def algebra_simps)
  then have "connection_loop L root ?msgs ?ii T =
      connection_loop L root ?msgs (?ii + 5 + 4 * int ?n) (connection_entry L root c T)"
    using connection_step [of ?ii ?msgs root T] len(1) Cons.prems(2)
    unfolding size_int_length [OF len(2)] nth wrap Let_def by simp
  also have "?ii + 5 + 4 * int ?n = int (length (pre @ connection_msgs c))" by (simp add: connection_msgs_def)
  finally show ?case
    using Cons.IH [of "pre @ connection_msgs c"] Cons.prems unfolding msgs(2) by simp
qed

lemma replace_get:
  assumes "tree_ok t" and "keys_below root m"
  shows "tree_ok (tree_replace_subtree L root m t)"
    and "tree_get L k (tree_replace_subtree L root m t) = (if related root k then map_of m k else tree_get L k t)"
  using replace_effect [OF assms(1), of root m k] replace_handled [OF assms] by auto

lemma connection_handler_get:
  assumes ok: "tree_ok t" and below: "trees_below root T"
    and loop: "connection_loop L root msgs 2 \<lparr>connection_tree = [], bucket_tree = [], bucket_bandwidth_tree = []\<rparr> = Some T"
  shows "\<exists>t'. AstaireConnectionStatHandler L root msgs t = Some t' \<and>
    (\<forall>c. tree_get L (root @ [6, 1] @ c) t' = map_of (connection_tree T) (root @ [6, 1] @ c) \<and>
         tree_get L (root @ [7, 1] @ c) t' = map_of (bucket_tree T) (root @ [7, 1] @ c) \<and>
         tree_get L (root @ [8, 1] @ c) t' = map_of (bucket_bandwidth_tree T) (root @ [8, 1] @ c))"
proof -
  have rel: "related (root @ [x, 1]) (root @ y # 1 # c) \<longleftrightarrow> x = y" for x y :: oid and c
    by (auto simp: related_def)
  let ?t1 = "tree_replace_subtree L (root @ [6, 1]) (connection_tree T) t"
  let ?t2 = "tree_replace_subtree L (root @ [7, 1]) (bucket_tree T) ?t1"
  have b6: "keys_below (root @ [6, 1]) (connection_tree T)" and b7: "keys_below (root @ [7, 1]) (bucket_tree T)"
    and b8: "keys_below (root @ [8, 1]) (bucket_bandwidth_tree T)" using below by (simp_all add: trees_below_def)
  note r1 = replace_get [OF ok b6] and r2 = replace_get [OF replace_get(1) [OF ok b6] b7]
  note r3 = replace_get(2) [OF r2(1) b8]
  show ?thesis using loop by (simp add: AstaireConnectionStatHandler_def r3 r2(2) r1(2) rel)
qed

end

section \<open>The entries of the three tables\<close>

text \<open>
  What the tables are to hold for a connection, column by column: the MIB indexes a connection by
  its address and port, a bucket by these and its identity, and a bandwidth by a last 1 as well.
\<close>

definition connection_index :: "oid_lib \<Rightarrow> connection \<Rightarrow> OID" where
  "connection_index L c = map ucast (toOIDBytes (setAddr L (cn_ip c))) @ [oid_of_int (atoi (cn_port c))]"

definition connection_entries :: "oid_lib \<Rightarrow> OID \<Rightarrow> connection \<Rightarrow> (OID \<times> i32) list" where
  "connection_entries L root c =
     [(root @ [6, 1, 4] @ connection_index L c, atoi (cn_needing c)),
      (root @ [6, 1, 5] @ connection_index L c, atoi (cn_resynchronized c))]"

definition bucket_entries :: "oid_lib \<Rightarrow> OID \<Rightarrow> connection \<Rightarrow> (OID \<times> i32) list" where
  "bucket_entries L root c =
     concat (map (\<lambda>(bucket, entries, data, bandwidth).
       [(root @ [7, 1, 5] @ connection_index L c @ [oid_of_int (atoi bucket)], atoi entries),
        (root @ [7, 1, 6] @ connection_index L c @ [oid_of_int (atoi bucket)], atoi data)]) (cn_buckets c))"

definition bandwidth_entries :: "oid_lib \<Rightarrow> OID \<Rightarrow> connection \<Rightarrow> (OID \<times> i32) list" where
  "bandwidth_entries L root c =
     map (\<lambda>(bucket, entries, data, bandwidth).
       (root @ [8, 1, 6] @ connection_index L c @ [oid_of_int (atoi bucket), 1], atoi bandwidth)) (cn_buckets c)"

text \<open>Of entries with one identifier the last one counts.\<close>

definition last_entry :: "(OID \<times> i32) list \<Rightarrow> OID \<Rightarrow> i32 option" where
  "last_entry es = map_of (rev es)"

lemma last_entry_append: "m ++ last_entry (es @ fs) = (m ++ last_entry es) ++ last_entry fs"
  by (simp add: last_entry_def)

lemma last_entry_Cons: "m ++ last_entry ((k, v) # es) = m(k \<mapsto> v) ++ last_entry es"
  by (simp add: last_entry_def)

lemma last_entry_Nil: "m ++ last_entry [] = m"
  by (simp add: last_entry_def)

lemmas last_entry_simps = last_entry_append last_entry_Cons last_entry_Nil

context oid_library
begin

lemma buckets_written:
  fixes root c T
  defines "T' bs \<equiv> fold (\<lambda>b. add_bucket L root (setAddr L (cn_ip c)) (atoi (cn_port c)) (bucket_values b)) bs T"
  shows "connection_tree (T' bs) = connection_tree T"
    and "map_of (bucket_tree (T' bs)) = map_of (bucket_tree T) ++ last_entry (bucket_entries L root (c\<lparr>cn_buckets := bs\<rparr>))"
    and "map_of (bucket_bandwidth_tree (T' bs)) =
      map_of (bucket_bandwidth_tree T) ++ last_entry (bandwidth_entries L root (c\<lparr>cn_buckets := bs\<rparr>))"
proof -
  have "connection_tree (T' bs) = connection_tree T \<and>
    map_of (bucket_tree (T' bs)) = map_of (bucket_tree T) ++ last_entry (bucket_entries L root (c\<lparr>cn_buckets := bs\<rparr>)) \<and>
    map_of (bucket_bandwidth_tree (T' bs)) =
      map_of (bucket_bandwidth_tree T) ++ last_entry (bandwidth_entries L root (c\<lparr>cn_buckets := bs\<rparr>))"
  proof (induction bs rule: rev_induct)
    case Nil
    then show ?case by (simp add: T'_def bucket_entries_def bandwidth_entries_def last_entry_Nil)
  next
    case (snoc b bs)
    obtain i e d w where b: "b = (i, e, d, w)" by (cases b)
    have "T' (bs @ [b]) = add_bucket L root (setAddr L (cn_ip c)) (atoi (cn_port c)) (bucket_values b) (T' bs)"
      by (simp add: T'_def)
    with snoc show ?case
      by (simp add: b bucket_values_def add_bucket_def oid_map.map_of_assign conn_oid_eq append_oid_def
          bucket_entries_def bandwidth_entries_def connection_index_def last_entry_simps)
  qed
  then show "connection_tree (T' bs) = connection_tree T"
    and "map_of (bucket_tree (T' bs)) = map_of (bucket_tree T) ++ last_entry (bucket_entries L root (c\<lparr>cn_buckets := bs\<rparr>))"
    and "map_of (bucket_bandwidth_tree (T' bs)) =
      map_of (bucket_bandwidth_tree T) ++ last_entry (bandwidth_entries L root (c\<lparr>cn_buckets := bs\<rparr>))" by simp_all
qed

lemma connection_written:
  "map_of (connection_tree (connection_entry L root c T)) =
     map_of (connection_tree T) ++ last_entry (connection_entries L root c)"
  "map_of (bucket_tree (connection_entry L root c T)) = map_of (bucket_tree T) ++ last_entry (bucket_entries L root c)"
  "map_of (bucket_bandwidth_tree (connection_entry L root c T)) =
     map_of (bucket_bandwidth_tree T) ++ last_entry (bandwidth_entries L root c)"
  using buckets_written [where root = root and c = c and bs = "cn_buckets c" and
      T = "add_connection L root (setAddr L (cn_ip c)) (atoi (cn_port c)) (atoi (cn_needing c)) (atoi (cn_resynchronized c)) T"]
  by (simp_all add: connection_entry_def Let_def add_connection_def oid_map.map_of_assign conn_oid_eq
      connection_entries_def connection_index_def last_entry_simps)

lemma connections_written:
  "map_of (connection_tree (fold (connection_entry L root) cs T)) =
     map_of (connection_tree T) ++ last_entry (concat (map (connection_entries L root) cs)) \<and>
   map_of (bucket_tree (fold (connection_entry L root) cs T)) =
     map_of (bucket_tree T) ++ last_entry (concat (map (bucket_entries L root) cs)) \<and>
   map_of (bucket_bandwidth_tree (fold (connection_entry L root) cs T)) =
     map_of (bucket_bandwidth_tree T) ++ last_entry (concat (map (bandwidth_entries L root) cs))"
  by (induction cs arbitrary: T) (simp_all add: connection_written last_entry_append last_entry_Nil)

end

section \<open>Properties\<close>

text \<open>
  C27. A well-formed message is stored completely: after a message that lists connections with valid
  addresses and their buckets, the connection table, the bucket table and the bandwidth table hold
  exactly the entries of these connections and buckets, each value in its column under the indexes
  of its row; of two entries with the same identifier the later one is held.
\<close>

theorem astaire_stores_connections:
  assumes "oid_library L" and "tree_ok t" and "\<forall>c \<in> set cs. isValid (setAddr L (cn_ip c))"
    and "length (concat (map connection_msgs cs)) + 2 < 2 ^ 31"
  shows "\<exists>t'. AstaireConnectionStatHandler L root (name # status # concat (map connection_msgs cs)) t = Some t' \<and>
    (\<forall>c. tree_get L (root @ [6, 1] @ c) t' =
           last_entry (concat (map (connection_entries L root) cs)) (root @ [6, 1] @ c) \<and>
         tree_get L (root @ [7, 1] @ c) t' =
           last_entry (concat (map (bucket_entries L root) cs)) (root @ [7, 1] @ c) \<and>
         tree_get L (root @ [8, 1] @ c) t' =
           last_entry (concat (map (bandwidth_entries L root) cs)) (root @ [8, 1] @ c))"
proof -
  let ?T0 = "\<lparr>connection_tree = [], bucket_tree = [], bucket_bandwidth_tree = []\<rparr>"
  let ?msgs = "name # status # concat (map connection_msgs cs)"
  have loop: "connection_loop L root ?msgs 2 ?T0 = Some (fold (connection_entry L root) cs ?T0)"
    using oid_library.connection_loop_msgs [OF assms(1), of "[name, status]" cs root ?T0] assms(3,4) by simp
  have "trees_below root (fold (connection_entry L root) cs ?T0)"
    using oid_library.connection_loop_total [OF assms(1), of 2 root ?T0 ?msgs] loop by (simp add: trees_below_def)
  note stored = oid_library.connection_handler_get [OF assms(1,2) this loop]
  have "map_of (connection_tree (fold (connection_entry L root) cs ?T0)) =
      last_entry (concat (map (connection_entries L root) cs))"
    "map_of (bucket_tree (fold (connection_entry L root) cs ?T0)) = last_entry (concat (map (bucket_entries L root) cs))"
    "map_of (bucket_bandwidth_tree (fold (connection_entry L root) cs ?T0)) =
      last_entry (concat (map (bandwidth_entries L root) cs))"
    using oid_library.connections_written [OF assms(1), of root cs ?T0] by simp_all
  with stored show ?thesis by simp
qed

definition sample_connection :: connection where
  "sample_connection =
     \<lparr>cn_ip = ''10.0.0.1'', cn_port = ''11211'', cn_needing = ''4'', cn_resynchronized = ''2'',
      cn_buckets = [(''17'', ''30'', ''900'', ''8'')]\<rparr>"

lemma sample_index: "connection_index std_lib sample_connection = [1, 4, 10, 0, 0, 1, 11211]"
  by code_simp

lemma sample_numbers: "atoi ''4'' = 4" "atoi ''2'' = 2" "atoi ''30'' = 30" "atoi ''900'' = 900" "atoi ''17'' = 17"
  by (simp_all add: atoi_def strtol_def take_sign_def isspace_def isdigit_def digits_value_def digit_value_def
      LONG_MAX_def LONG_MIN_def Let_def)

lemma sample_entries:
  "connection_entries std_lib [9] sample_connection =
    [([9, 6, 1, 4, 1, 4, 10, 0, 0, 1, 11211], 4), ([9, 6, 1, 5, 1, 4, 10, 0, 0, 1, 11211], 2)]"
  "bucket_entries std_lib [9] sample_connection =
    [([9, 7, 1, 5, 1, 4, 10, 0, 0, 1, 11211, 17], 30), ([9, 7, 1, 6, 1, 4, 10, 0, 0, 1, 11211, 17], 900)]"
  unfolding connection_entries_def bucket_entries_def sample_index
  by (simp_all add: sample_connection_def sample_numbers oid_of_int_def)

lemma sample_last_entries:
  "last_entry (concat (map (connection_entries std_lib [9]) [sample_connection]))
    ([9] @ [6, 1] @ [4, 1, 4, 10, 0, 0, 1, 11211]) = Some 4"
  "last_entry (concat (map (bucket_entries std_lib [9]) [sample_connection]))
    ([9] @ [7, 1] @ [6, 1, 4, 10, 0, 0, 1, 11211, 17]) = Some 900"
  by (simp_all add: sample_entries last_entry_def)

theorem astaire_stores_connections_witness:
  "\<exists>t'. AstaireConnectionStatHandler std_lib [9] (''c'' # ''OK'' # concat (map connection_msgs [sample_connection]))
      sample_tree = Some t' \<and>
    tree_get std_lib ([9] @ [6, 1] @ [4, 1, 4, 10, 0, 0, 1, 11211]) t' = Some 4 \<and>
    tree_get std_lib ([9] @ [7, 1] @ [6, 1, 4, 10, 0, 0, 1, 11211, 17]) t' = Some 900"
proof -
  have len: "length (concat (map connection_msgs [sample_connection])) + 2 < 2 ^ 31"
    by (simp add: connection_msgs_def sample_connection_def)
  have valid: "\<forall>c \<in> set [sample_connection]. isValid (setAddr std_lib (cn_ip c))" by code_simp
  from astaire_stores_connections [OF std_lib.oid_library_axioms sample_tree_ok valid len, of "[9]" "''c''" "''OK''"]
  obtain t' where t': "AstaireConnectionStatHandler std_lib [9]
      (''c'' # ''OK'' # concat (map connection_msgs [sample_connection])) sample_tree = Some t'"
    and get: "\<forall>c. tree_get std_lib ([9] @ [6, 1] @ c) t' =
        last_entry (concat (map (connection_entries std_lib [9]) [sample_connection])) ([9] @ [6, 1] @ c) \<and>
      tree_get std_lib ([9] @ [7, 1] @ c) t' =
        last_entry (concat (map (bucket_entries std_lib [9]) [sample_connection])) ([9] @ [7, 1] @ c) \<and>
      tree_get std_lib ([9] @ [8, 1] @ c) t' =
        last_entry (concat (map (bandwidth_entries std_lib [9]) [sample_connection])) ([9] @ [8, 1] @ c)"
    by (elim exE conjE) (rule that)
  note six = conjunct1 [OF spec [OF get, of "[4, 1, 4, 10, 0, 0, 1, 11211]"]]
  note seven = conjunct1 [OF conjunct2 [OF spec [OF get, of "[6, 1, 4, 10, 0, 0, 1, 11211, 17]"]]]
  show ?thesis
    by (rule exI [of _ t'])
      (rule conjI [OF t' conjI [OF trans [OF six sample_last_entries(1)] trans [OF seven sample_last_entries(2)]]])
qed

end
