(* ===== verification/Node_Data.thy ===== *)
theory Node_Data
  imports Astaire
begin

text \<open>
  The nodes whose statistics are served (\<open>include/nodedata.hpp\<close>): for each node its name, the
  root of its identifiers, the statistics it subscribes to and the handler of each
  (\<open>src/cdivdata.cpp\<close>, \<open>src/mementoasdata.cpp\<close>, \<open>src/mementodata.cpp\<close> and the end of
  \<open>src/astairedata.cpp\<close>).
\<close>

section \<open>Handlers and nodes\<close>

datatype ZMQMessageHandler =
    IPCountStat OID
  | BareStat OID
  | SingleNumberStat OID
  | SingleNumberWithScopeStat OID
  | AccumulatedWithCountStat OID
  | AstaireGlobalStat OID
  | AstaireConnectionStat OID

fun handler_root :: "ZMQMessageHandler \<Rightarrow> OID" where
  "handler_root (IPCountStat r) = r"
| "handler_root (BareStat r) = r"
| "handler_root (SingleNumberStat r) = r"
| "handler_root (SingleNumberWithScopeStat r) = r"
| "handler_root (AccumulatedWithCountStat r) = r"
| "handler_root (AstaireGlobalStat r) = r"
| "handler_root (AstaireConnectionStat r) = r"

text \<open>
  The branches that a handler writes to: that of its root, except for the two handlers of Astaire,
  which share one root and write to different parts below it.
\<close>

fun handler_branches :: "ZMQMessageHandler \<Rightarrow> OID list" where
  "handler_branches (AstaireGlobalStat r) = global_branches r"
| "handler_branches (AstaireConnectionStat r) = connection_branches r"
| "handler_branches h = [handler_root h]"

text \<open>The virtual call \<open>handler->handle(msgs)\<close>.\<close>

fun handle :: "oid_lib \<Rightarrow> ZMQMessageHandler \<Rightarrow> string list \<Rightarrow> OIDTree \<Rightarrow> OIDTree option" where
  "handle L (IPCountStat r) msgs t = IPCountStatHandler L r msgs t"
| "handle L (BareStat r) msgs t = BareStatHandler L r msgs t"
| "handle L (SingleNumberStat r) msgs t = SingleNumberStatHandler L r msgs t"
| "handle L (SingleNumberWithScopeStat r) msgs t = SingleNumberWithScopeStatHandler L r msgs t"
| "handle L (AccumulatedWithCountStat r) msgs t = AccumulatedWithCountStatHandler L r msgs t"
| "handle L (AstaireGlobalStat r) msgs t = AstaireGlobalStatHandler L r msgs t"
| "handle L (AstaireConnectionStat r) msgs t = AstaireConnectionStatHandler L r msgs t"

text \<open>\<open>std::less<std::string>\<close> compares character codes as unsigned numbers.\<close>

fun string_less :: "string \<Rightarrow> string \<Rightarrow> bool" where
  "string_less xs [] = False"
| "string_less [] (y # ys) = True"
| "string_less (x # xs) (y # ys) =
     ((of_char x :: nat) < of_char y \<or> (x = y \<and> string_less xs ys))"

record NodeData =
  nd_name :: string
  nd_root_oid :: OID
  nd_stats :: "string list"
  nd_stat_to_handler :: "(string, ZMQMessageHandler) std_map"

definition mk_NodeData ::
  "string \<Rightarrow> OID \<Rightarrow> string list \<Rightarrow> (string \<times> ZMQMessageHandler) list \<Rightarrow> NodeData" where
  "mk_NodeData name root stats handlers =
     \<lparr>nd_name = name, nd_root_oid = root, nd_stats = stats,
      nd_stat_to_handler = map_insert_range string_less handlers []\<rparr>"

section \<open>The nodes\<close>

definition astaire_node_data :: "oid_lib \<Rightarrow> NodeData" where
  "astaire_node_data L =
     mk_NodeData ''astaire'' (mk_OID L ''1.2.826.0.1.1578918.9.9'')
       [''astaire_global'', ''astaire_connections'']
       [(''astaire_global'', AstaireGlobalStat (mk_OID L ''1.2.826.0.1.1578918.9.9'')),
        (''astaire_connections'', AstaireConnectionStat (mk_OID L ''1.2.826.0.1.1578918.9.9''))]"

definition cdiv_node_data :: "oid_lib \<Rightarrow> NodeData" where
  "cdiv_node_data L =
     mk_NodeData ''sprout'' (mk_OID L ''1.2.826.0.1.1578918.9.7'')
       [''cdiv_total'', ''cdiv_unconditional'', ''cdiv_busy'', ''cdiv_not_registered'',
        ''cdiv_no_answer'', ''cdiv_not_reachable'']
       [(''cdiv_total'', BareStat (mk_OID L ''1.2.826.0.1.1578918.9.7.1.1.2'')),
        (''cdiv_unconditional'', BareStat (mk_OID L ''1.2.826.0.1.1578918.9.7.1.1.3'')),
        (''cdiv_busy'', BareStat (mk_OID L ''1.2.826.0.1.1578918.9.7.1.1.4'')),
        (''cdiv_not_registered'', BareStat (mk_OID L ''1.2.826.0.1.1578918.9.7.1.1.5'')),
        (''cdiv_no_answer'', BareStat (mk_OID L ''1.2.826.0.1.1578918.9.7.1.1.6'')),
        (''cdiv_not_reachable'', BareStat (mk_OID L ''1.2.826.0.1.1578918.9.7.1.1.7''))]"

definition memento_as_node_data :: "oid_lib \<Rightarrow> NodeData" where
  "memento_as_node_data L =
     mk_NodeData ''sprout'' (mk_OID L ''1.2.826.0.1.1578918.9.8.1'')
       [''memento_completed_calls'', ''memento_failed_calls'', ''memento_not_recorded_overload'',
        ''memento_cassandra_read_latency'', ''memento_cassandra_write_latency'']
       [(''memento_completed_calls'', BareStat (mk_OID L ''1.2.826.0.1.1578918.9.8.1.1.1.2'')),
        (''memento_failed_calls'', BareStat (mk_OID L ''1.2.826.0.1.1578918.9.8.1.1.1.3'')),
        (''memento_not_recorded_overload'', BareStat (mk_OID L ''1.2.826.0.1.1578918.9.8.1.1.1.4'')),
        (''memento_cassandra_read_latency'', AccumulatedWithCountStat (mk_OID L ''1.2.826.0.1.1578918.9.8.1.2'')),
        (''memento_cassandra_write_latency'', AccumulatedWithCountStat (mk_OID L ''1.2.826.0.1.1578918.9.8.1.3''))]"

definition memento_http_node_data :: "oid_lib \<Rightarrow> NodeData" where
  "memento_http_node_data L =
     mk_NodeData ''memento'' (mk_OID L ''1.2.826.0.1.1578918.9.8.2'')
       [''http_incoming_requests'', ''http_rejected_overload'', ''http_latency_us'',
        ''cassandra_read_latency'', ''record_size'', ''record_length'']
       [(''http_incoming_requests'', BareStat (mk_OID L ''1.2.826.0.1.1578918.9.8.2.1.1.2'')),
        (''http_rejected_overload'', BareStat (mk_OID L ''1.2.826.0.1.1578918.9.8.2.1.1.3'')),
        (''http_latency_us'', AccumulatedWithCountStat (mk_OID L ''1.2.826.0.1.1578918.9.8.2.2'')),
        (''cassandra_read_latency'', AccumulatedWithCountStat (mk_OID L ''1.2.826.0.1.1578918.9.8.2.3'')),
        (''record_size'', AccumulatedWithCountStat (mk_OID L ''1.2.826.0.1.1578918.9.8.2.4'')),
        (''record_length'', AccumulatedWithCountStat (mk_OID L ''1.2.826.0.1.1578918.9.8.2.5''))]"

definition memento_auth_node_data :: "oid_lib \<Rightarrow> NodeData" where
  "memento_auth_node_data L =
     mk_NodeData ''memento'' (mk_OID L ''1.2.826.0.1.1578918.9.8.3'')
       [''auth_challenges'', ''auth_attempts'', ''auth_successes'', ''auth_failures'', ''auth_stales'']
       [(''auth_challenges'', BareStat (mk_OID L ''1.2.826.0.1.1578918.9.8.3.2.1.2'')),
        (''auth_attempts'', BareStat (mk_OID L ''1.2.826.0.1.1578918.9.8.3.2.1.3'')),
        (''auth_successes'', BareStat (mk_OID L ''1.2.826.0.1.1578918.9.8.3.2.1.4'')),
        (''auth_failures'', BareStat (mk_OID L ''1.2.826.0.1.1578918.9.8.3.2.1.5'')),
        (''auth_stales'', BareStat (mk_OID L ''1.2.826.0.1.1578918.9.8.3.2.1.6''))]"

definition all_nodes :: "oid_lib \<Rightarrow> NodeData list" where
  "all_nodes L =
     [astaire_node_data L, cdiv_node_data L, memento_as_node_data L, memento_http_node_data L,
      memento_auth_node_data L]"

section \<open>Lemmas\<close>

interpretation string_map: map_compare string_less
proof unfold_locales
  have char_eq: "(of_char x :: nat) = of_char y \<longleftrightarrow> x = y" for x y :: char by simp
  fix a b c :: string
  show "\<not> string_less a a" by (induction a) auto
  show "string_less a b \<Longrightarrow> string_less b c \<Longrightarrow> string_less a c"
  proof (induction a arbitrary: b c)
    case Nil
    then show ?case by (cases b; cases c) auto
  next
    case (Cons x a)
    then show ?case by (cases b; cases c) auto
  qed
  show "a = b \<or> string_less a b \<or> string_less b a"
  proof (induction a arbitrary: b)
    case Nil
    then show ?case by (cases b) auto
  next
    case (Cons x a)
    show ?case
    proof (cases b)
      case (Cons y b')
      then show ?thesis
        using Cons.IH [of b'] char_eq [of x y] linorder_less_linear [of "of_char x :: nat" "of_char y"] by auto
    qed simp
  qed
qed

text \<open>Every handler keeps the contract on the branch of its root.\<close>

context oid_library
begin

lemma handler_cong: "stat_handler L root f \<Longrightarrow> (\<And>msgs t. g msgs t = f msgs t) \<Longrightarrow> stat_handler L root g"
  by (simp add: stat_handler_def)

lemma any_handler: "stat_handler L (handler_root h) (handle L h)"
proof (cases h)
  case (IPCountStat r)
  then show ?thesis using handler_cong [OF ip_count.stat_handler_axioms] by simp
next
  case (BareStat r)
  then show ?thesis using handler_cong [OF bare.stat_handler_axioms] by simp
next
  case (SingleNumberStat r)
  then show ?thesis using handler_cong [OF single.stat_handler_axioms] by (simp add: SingleNumberStatHandler_def)
next
  case (SingleNumberWithScopeStat r)
  then show ?thesis using handler_cong [OF single.stat_handler_axioms] by (simp add: SingleNumberWithScopeStatHandler_def)
next
  case (AccumulatedWithCountStat r)
  then show ?thesis using handler_cong [OF accumulated.stat_handler_axioms] by simp
next
  case (AstaireGlobalStat r)
  then show ?thesis using handler_cong [OF astaire_global.stat_handler_axioms] by simp
next
  case (AstaireConnectionStat r)
  then show ?thesis using handler_cong [OF astaire_connection.stat_handler_axioms] by simp
qed

end

sublocale oid_library \<subseteq> any: stat_handler L "handler_root h" "handle L h" for h
  by (rule any_handler)

context oid_library
begin

lemma mk_OID_std: "mk_OID L = mk_OID std_lib"
  by (simp add: fun_eq_iff mk_OID_def std_lib.append_string_suffix)

lemma all_nodes_std: "all_nodes L = all_nodes std_lib"
  unfolding all_nodes_def astaire_node_data_def cdiv_node_data_def memento_as_node_data_def
    memento_http_node_data_def memento_auth_node_data_def mk_OID_std ..

lemma any_handled:
  "2 \<le> length msgs \<Longrightarrow> tree_ok t \<Longrightarrow> \<exists>t'. handle L h msgs t = Some t' \<and> tree_ok t' \<and>
    (\<forall>k. \<not> related (handler_root h) k \<longrightarrow> tree_get L k t' = tree_get L k t)"
  by (rule any.handled)

lemma any_branches:
  assumes "2 \<le> length msgs" and "tree_ok t"
  shows "\<exists>t'. handle L h msgs t = Some t' \<and> tree_ok t' \<and>
    (\<forall>k. (\<forall>b \<in> set (handler_branches h). \<not> related b k) \<longrightarrow> tree_get L k t' = tree_get L k t)"
proof (cases h)
  case (AstaireGlobalStat r)
  with global_handled [OF assms(2)] show ?thesis by simp
next
  case (AstaireConnectionStat r)
  with connection_handled [OF assms(2)] show ?thesis by simp
qed (use any_handled [OF assms, of h] in simp_all)

end

section \<open>The identifiers of the nodes\<close>

lemma atoi_tokens:
  "atoi ''0'' = 0"
  "atoi ''1'' = 1"
  "atoi ''2'' = 2"
  "atoi ''3'' = 3"
  "atoi ''4'' = 4"
  "atoi ''5'' = 5"
  "atoi ''6'' = 6"
  "atoi ''7'' = 7"
  "atoi ''8'' = 8"
  "atoi ''9'' = 9"
  "atoi ''826'' = 826"
  "atoi ''1578918'' = 1578918"
  by (simp_all add: atoi_def strtol_def take_sign_def isspace_def isdigit_def digits_value_def digit_value_def
      LONG_MAX_def LONG_MIN_def Let_def)

lemma node_oids:
  "mk_OID std_lib ''1.2.826.0.1.1578918.9.7'' = [1, 2, 826, 0, 1, 1578918, 9, 7]"
  "mk_OID std_lib ''1.2.826.0.1.1578918.9.7.1.1.2'' = [1, 2, 826, 0, 1, 1578918, 9, 7, 1, 1, 2]"
  "mk_OID std_lib ''1.2.826.0.1.1578918.9.7.1.1.3'' = [1, 2, 826, 0, 1, 1578918, 9, 7, 1, 1, 3]"
  "mk_OID std_lib ''1.2.826.0.1.1578918.9.7.1.1.4'' = [1, 2, 826, 0, 1, 1578918, 9, 7, 1, 1, 4]"
  "mk_OID std_lib ''1.2.826.0.1.1578918.9.7.1.1.5'' = [1, 2, 826, 0, 1, 1578918, 9, 7, 1, 1, 5]"
  "mk_OID std_lib ''1.2.826.0.1.1578918.9.7.1.1.6'' = [1, 2, 826, 0, 1, 1578918, 9, 7, 1, 1, 6]"
  "mk_OID std_lib ''1.2.826.0.1.1578918.9.7.1.1.7'' = [1, 2, 826, 0, 1, 1578918, 9, 7, 1, 1, 7]"
  "mk_OID std_lib ''1.2.826.0.1.1578918.9.8.1'' = [1, 2, 826, 0, 1, 1578918, 9, 8, 1]"
  "mk_OID std_lib ''1.2.826.0.1.1578918.9.8.1.1.1.2'' = [1, 2, 826, 0, 1, 1578918, 9, 8, 1, 1, 1, 2]"
  "mk_OID std_lib ''1.2.826.0.1.1578918.9.8.1.1.1.3'' = [1, 2, 826, 0, 1, 1578918, 9, 8, 1, 1, 1, 3]"
  "mk_OID std_lib ''1.2.826.0.1.1578918.9.8.1.1.1.4'' = [1, 2, 826, 0, 1, 1578918, 9, 8, 1, 1, 1, 4]"
  "mk_OID std_lib ''1.2.826.0.1.1578918.9.8.1.2'' = [1, 2, 826, 0, 1, 1578918, 9, 8, 1, 2]"
  "mk_OID std_lib ''1.2.826.0.1.1578918.9.8.1.3'' = [1, 2, 826, 0, 1, 1578918, 9, 8, 1, 3]"
  "mk_OID std_lib ''1.2.826.0.1.1578918.9.8.2'' = [1, 2, 826, 0, 1, 1578918, 9, 8, 2]"
  "mk_OID std_lib ''1.2.826.0.1.1578918.9.8.2.1.1.2'' = [1, 2, 826, 0, 1, 1578918, 9, 8, 2, 1, 1, 2]"
  "mk_OID std_lib ''1.2.826.0.1.1578918.9.8.2.1.1.3'' = [1, 2, 826, 0, 1, 1578918, 9, 8, 2, 1, 1, 3]"
  "mk_OID std_lib ''1.2.826.0.1.1578918.9.8.2.2'' = [1, 2, 826, 0, 1, 1578918, 9, 8, 2, 2]"
  "mk_OID std_lib ''1.2.826.0.1.1578918.9.8.2.3'' = [1, 2, 826, 0, 1, 1578918, 9, 8, 2, 3]"
  "mk_OID std_lib ''1.2.826.0.1.1578918.9.8.2.4'' = [1, 2, 826, 0, 1, 1578918, 9, 8, 2, 4]"
  "mk_OID std_lib ''1.2.826.0.1.1578918.9.8.2.5'' = [1, 2, 826, 0, 1, 1578918, 9, 8, 2, 5]"
  "mk_OID std_lib ''1.2.826.0.1.1578918.9.8.3'' = [1, 2, 826, 0, 1, 1578918, 9, 8, 3]"
  "mk_OID std_lib ''1.2.826.0.1.1578918.9.8.3.2.1.2'' = [1, 2, 826, 0, 1, 1578918, 9, 8, 3, 2, 1, 2]"
  "mk_OID std_lib ''1.2.826.0.1.1578918.9.8.3.2.1.3'' = [1, 2, 826, 0, 1, 1578918, 9, 8, 3, 2, 1, 3]"
  "mk_OID std_lib ''1.2.826.0.1.1578918.9.8.3.2.1.4'' = [1, 2, 826, 0, 1, 1578918, 9, 8, 3, 2, 1, 4]"
  "mk_OID std_lib ''1.2.826.0.1.1578918.9.8.3.2.1.5'' = [1, 2, 826, 0, 1, 1578918, 9, 8, 3, 2, 1, 5]"
  "mk_OID std_lib ''1.2.826.0.1.1578918.9.8.3.2.1.6'' = [1, 2, 826, 0, 1, 1578918, 9, 8, 3, 2, 1, 6]"
  "mk_OID std_lib ''1.2.826.0.1.1578918.9.9'' = [1, 2, 826, 0, 1, 1578918, 9, 9]"
  by (simp_all add: mk_OID_def std_lib.append_string_suffix suffix_oid_def atoi_tokens oid_of_int_def)

text \<open>What makes a node's table right, as an executable test.\<close>

definition roots_apart :: "(string, ZMQMessageHandler) std_map \<Rightarrow> bool" where
  "roots_apart m \<longleftrightarrow>
     (\<forall>(s, h) \<in> set m. \<forall>(s', h') \<in> set m.
        s = s' \<or> handler_root h = handler_root h' \<or>
        \<not> (let n = min (length (handler_root h)) (length (handler_root h'))
            in take n (handler_root h) = take n (handler_root h')))"

definition node_fits :: "NodeData \<Rightarrow> bool" where
  "node_fits nd \<longleftrightarrow>
     (\<forall>s \<in> set (nd_stats nd). map_find string_less s (nd_stat_to_handler nd) \<noteq> None) \<and>
     (\<forall>(s, h) \<in> set (nd_stat_to_handler nd).
        take (length (nd_root_oid nd)) (handler_root h) = nd_root_oid nd) \<and>
     roots_apart (nd_stat_to_handler nd)"

lemma astaire_fits: "node_fits (astaire_node_data std_lib)"
  unfolding astaire_node_data_def node_oids by code_simp

lemma cdiv_fits: "node_fits (cdiv_node_data std_lib)"
  unfolding cdiv_node_data_def node_oids by code_simp

lemma memento_as_fits: "node_fits (memento_as_node_data std_lib)"
  unfolding memento_as_node_data_def node_oids by code_simp

lemma memento_http_fits: "node_fits (memento_http_node_data std_lib)"
  unfolding memento_http_node_data_def node_oids by code_simp

lemma memento_auth_fits: "node_fits (memento_auth_node_data std_lib)"
  unfolding memento_auth_node_data_def node_oids by code_simp

lemmas nodes_fit = astaire_fits cdiv_fits memento_as_fits memento_http_fits memento_auth_fits

lemma node_fits_all: "oid_library L \<Longrightarrow> nd \<in> set (all_nodes L) \<Longrightarrow> node_fits nd"
  using nodes_fit unfolding oid_library.all_nodes_std by (auto simp: all_nodes_def)

text \<open>Different statistics of a node are written to different branches, those of Astaire included.\<close>

definition branches_apart :: "(string, ZMQMessageHandler) std_map \<Rightarrow> bool" where
  "branches_apart m \<longleftrightarrow>
     (\<forall>(s, h) \<in> set m. \<forall>(s', h') \<in> set m.
        s = s' \<or>
        (\<forall>b \<in> set (handler_branches h). \<forall>b' \<in> set (handler_branches h').
           \<not> (let n = min (length b) (length b') in take n b = take n b')))"

lemma astaire_apart: "branches_apart (nd_stat_to_handler (astaire_node_data std_lib))"
  unfolding astaire_node_data_def node_oids by code_simp

lemma cdiv_apart: "branches_apart (nd_stat_to_handler (cdiv_node_data std_lib))"
  unfolding cdiv_node_data_def node_oids by code_simp

lemma memento_as_apart: "branches_apart (nd_stat_to_handler (memento_as_node_data std_lib))"
  unfolding memento_as_node_data_def node_oids by code_simp

lemma memento_http_apart: "branches_apart (nd_stat_to_handler (memento_http_node_data std_lib))"
  unfolding memento_http_node_data_def node_oids by code_simp

lemma memento_auth_apart: "branches_apart (nd_stat_to_handler (memento_auth_node_data std_lib))"
  unfolding memento_auth_node_data_def node_oids by code_simp

lemmas nodes_apart = astaire_apart cdiv_apart memento_as_apart memento_http_apart memento_auth_apart

lemma branches_apart_all:
  "oid_library L \<Longrightarrow> nd \<in> set (all_nodes L) \<Longrightarrow> branches_apart (nd_stat_to_handler nd)"
  using nodes_apart unfolding oid_library.all_nodes_std by (auto simp: all_nodes_def)

section \<open>Properties\<close>

text \<open>
  C10. Every statistics handler, on every message that starts with a name and a status, finishes
  without reading outside the message, keeps the tree in order and changes only statistics on the
  branch of its own root.  For the connections of Astaire this holds whatever numbers of buckets the
  message claims, also where the 32-bit arithmetic on them wraps around.
\<close>

theorem statistics_handler_contract:
  assumes "oid_library L" and "tree_ok t" and "2 \<le> length msgs"
  shows "\<exists>t'. handle L h msgs t = Some t' \<and> tree_ok t' \<and>
    (\<forall>k. \<not> related (handler_root h) k \<longrightarrow> tree_get L k t' = tree_get L k t)"
  using oid_library.any_handled [OF assms(1) assms(3,2)] .

theorem statistics_handler_contract_witness:
  "\<exists>t'. handle std_lib (AstaireConnectionStat [9])
      [''astaire_connections'', ''OK'', ''10.0.0.1'', ''11211'', ''1'', ''2'', ''1073741825''] sample_tree = Some t' \<and>
    tree_ok t'"
  using statistics_handler_contract [OF std_lib.oid_library_axioms sample_tree_ok,
      of "[''astaire_connections'', ''OK'', ''10.0.0.1'', ''11211'', ''1'', ''2'', ''1073741825'']"
         "AstaireConnectionStat [9]"] by auto

text \<open>
  C34. The tables of the five nodes fit together: every statistic that a node subscribes to has a
  handler, every handler writes below the identifier that is registered for its node, and the
  handlers of different statistics that share no root write to different branches.
\<close>

theorem node_tables_fit:
  assumes "oid_library L" and "nd \<in> set (all_nodes L)"
  shows "(\<forall>s \<in> set (nd_stats nd). map_find string_less s (nd_stat_to_handler nd) \<noteq> None) \<and>
    (\<forall>(s, h) \<in> set (nd_stat_to_handler nd).
       take (length (nd_root_oid nd)) (handler_root h) = nd_root_oid nd) \<and>
    roots_apart (nd_stat_to_handler nd)"
  using node_fits_all [OF assms] by (simp add: node_fits_def)

theorem node_tables_fit_witness:
  "map_find string_less ''http_latency_us'' (nd_stat_to_handler (memento_http_node_data std_lib)) \<noteq> None"
proof -
  have "memento_http_node_data std_lib \<in> set (all_nodes std_lib)" by (simp add: all_nodes_def)
  moreover have "''http_latency_us'' \<in> set (nd_stats (memento_http_node_data std_lib))"
    by (simp add: memento_http_node_data_def mk_NodeData_def)
  ultimately show ?thesis using node_tables_fit [OF std_lib.oid_library_axioms] by blast
qed

end
