(* ===== verification/Zmq_Listener.thy ===== *)
theory Zmq_Listener
  imports Node_Data
begin

text \<open>
  The listener of published statistics (\<open>include/zmq_listener.hpp\<close>,
  \<open>src/zmq_listener.cpp\<close>).  The results of the ZeroMQ calls are arguments: whether each of the
  calls that connect succeeds, and for every part of a message the attempts to receive it and to ask
  whether more parts follow.  The thread's end is a value: it blocks for more parts, it returns after
  an error, an exception leaves it, or a handler reads outside its message.
\<close>

section \<open>Connecting\<close>

datatype zmq_ptr = Uninitialised | Null | Valid

record ZMQListener =
  zl_ctx :: zmq_ptr
  zl_sck :: zmq_ptr
  zl_endpoint :: "string option"
  zl_subscribed :: "string list"

record zmq_connect_env =
  zc_ctx_new :: bool
  zc_socket :: bool
  zc_connect :: bool
  zc_subscribe :: "string \<Rightarrow> bool"

definition new_ZMQListener :: ZMQListener where
  "new_ZMQListener =
     \<lparr>zl_ctx = Uninitialised, zl_sck = Uninitialised, zl_endpoint = None, zl_subscribed = []\<rparr>"

fun subscribe_all :: "(string \<Rightarrow> bool) \<Rightarrow> string list \<Rightarrow> ZMQListener \<Rightarrow> bool \<times> ZMQListener" where
  "subscribe_all ok [] z = (True, z)"
| "subscribe_all ok (s # ss) z =
     (if ok s then subscribe_all ok ss (z\<lparr>zl_subscribed := zl_subscribed z @ [s]\<rparr>) else (False, z))"

definition connect_and_subscribe ::
  "zmq_connect_env \<Rightarrow> NodeData \<Rightarrow> ZMQListener \<Rightarrow> bool \<times> ZMQListener" where
  "connect_and_subscribe Z nd z =
     (if \<not> zc_ctx_new Z then (False, z\<lparr>zl_ctx := Null\<rparr>)
      else let z1 = z\<lparr>zl_ctx := Valid\<rparr>
           in if \<not> zc_socket Z then (False, z1\<lparr>zl_sck := Null\<rparr>)
              else let z2 = z1\<lparr>zl_sck := Valid\<rparr>
                   in if \<not> zc_connect Z then (False, z2)
                      else subscribe_all (zc_subscribe Z) (nd_stats nd)
                             (z2\<lparr>zl_endpoint := Some (''ipc:///var/run/clearwater/stats/'' @ nd_name nd)\<rparr>))"

text \<open>
  The destructor closes the socket and destroys the context; \<^const>\<open>None\<close> is the use of a
  pointer that was never set.
\<close>

definition delete_ZMQListener :: "ZMQListener \<Rightarrow> ZMQListener option" where
  "delete_ZMQListener z =
     (if zl_sck z = Uninitialised \<or> zl_ctx z = Uninitialised then None
      else Some (z\<lparr>zl_sck := Null, zl_ctx := Null\<rparr>))"

section \<open>Receiving\<close>

record zmq_part =
  zp_init :: bool
  zp_recv :: "string attempt list"
  zp_more :: "bool attempt list"
  zp_time :: int

record listener_state =
  ls_tree :: OIDTree
  ls_last_seen :: int

datatype listener_end = Blocked | Returned | Thrown | OutOfRange

text \<open>
  The end of a round: the time is recorded, and a message with status \<open>OK\<close> goes to its
  handler; \<open>stat_to_handler.at\<close> throws when the statistic has none.
\<close>

definition dispatch ::
  "oid_lib \<Rightarrow> NodeData \<Rightarrow> int \<Rightarrow> string list \<Rightarrow> listener_state \<Rightarrow> listener_end option \<times> listener_state" where
  "dispatch L nd now msgs s =
     (let s1 = s\<lparr>ls_last_seen := now\<rparr>
      in if 2 \<le> length msgs \<and> msgs ! 1 = ''OK'' then
           (case map_find string_less (msgs ! 0) (nd_stat_to_handler nd) of
              None \<Rightarrow> (Some Thrown, s1)
            | Some h \<Rightarrow>
                (case handle L h msgs (ls_tree s1) of
                   None \<Rightarrow> (Some OutOfRange, s1)
                 | Some t \<Rightarrow> (None, s1\<lparr>ls_tree := t\<rparr>)))
         else (None, s1))"

text \<open>The main loop on the parts that arrive; \<open>msgs\<close> are the parts of the current block.\<close>

fun handle_requests ::
  "oid_lib \<Rightarrow> NodeData \<Rightarrow> zmq_part list \<Rightarrow> string list \<Rightarrow> listener_state \<Rightarrow> listener_end \<times> listener_state" where
  "handle_requests L nd [] msgs s = (Blocked, s)"
| "handle_requests L nd (p # ps) msgs s =
     (if \<not> zp_init p then (Returned, s)
      else case retry (zp_recv p) of
             None \<Rightarrow> (Blocked, s)
           | Some Interrupted \<Rightarrow> (Blocked, s)
           | Some Failed \<Rightarrow> (Returned, s)
           | Some (Got d) \<Rightarrow>
               (case retry (zp_more p) of
                  None \<Rightarrow> (Blocked, s)
                | Some Interrupted \<Rightarrow> (Blocked, s)
                | Some Failed \<Rightarrow> (Returned, s)
                | Some (Got has_more) \<Rightarrow>
                    if has_more then handle_requests L nd ps (msgs @ [d]) s
                    else (case dispatch L nd (zp_time p) (msgs @ [d]) s of
                            (Some e, s') \<Rightarrow> (e, s')
                          | (None, s') \<Rightarrow> handle_requests L nd ps [] s')))"

definition handle_requests_forever ::
  "oid_lib \<Rightarrow> zmq_connect_env \<Rightarrow> NodeData \<Rightarrow> zmq_part list \<Rightarrow> listener_state \<Rightarrow>
   listener_end \<times> ZMQListener \<times> listener_state" where
  "handle_requests_forever L Z nd ps s =
     (case connect_and_subscribe Z nd new_ZMQListener of
        (False, z) \<Rightarrow> (Returned, z, s)
      | (True, z) \<Rightarrow> (case handle_requests L nd ps [] s of (e, s') \<Rightarrow> (e, z, s')))"

section \<open>Lemmas\<close>

text \<open>
  The first part of every block that is received whole names a statistic with a handler.
  \<open>first\<close> tells whether the next part starts a block.
\<close>

fun topics_handled :: "NodeData \<Rightarrow> zmq_part list \<Rightarrow> bool \<Rightarrow> bool" where
  "topics_handled nd [] first = True"
| "topics_handled nd (p # ps) first =
     (case (retry (zp_recv p), retry (zp_more p)) of
        (Some (Got d), Some (Got has_more)) \<Rightarrow>
          (first \<longrightarrow> map_find string_less d (nd_stat_to_handler nd) \<noteq> None) \<and> topics_handled nd ps (\<not> has_more)
      | _ \<Rightarrow> True)"

text \<open>Statistics outside the branches of the node's handlers are the same in both trees.\<close>

definition same_elsewhere :: "oid_lib \<Rightarrow> NodeData \<Rightarrow> OIDTree \<Rightarrow> OIDTree \<Rightarrow> bool" where
  "same_elsewhere L nd t t' \<longleftrightarrow>
     (\<forall>k. (\<forall>(s, h) \<in> set (nd_stat_to_handler nd). \<not> related (handler_root h) k) \<longrightarrow>
        tree_get L k t' = tree_get L k t)"

lemma find_handler_mem: "map_find lt k m = Some v \<Longrightarrow> v \<in> snd ` set m"
  by (induction m) (auto split: if_splits)

context oid_library
begin

lemma dispatch_ok:
  assumes ok: "tree_ok (ls_tree s)"
    and topic: "map_find string_less (msgs ! 0) (nd_stat_to_handler nd) \<noteq> None"
  shows "\<exists>s'. dispatch L nd now msgs s = (None, s') \<and> tree_ok (ls_tree s') \<and>
    same_elsewhere L nd (ls_tree s) (ls_tree s') \<and> ls_last_seen s' = now"
proof (cases "2 \<le> length msgs \<and> msgs ! 1 = ''OK''")
  case False
  then show ?thesis using ok by (auto simp: dispatch_def Let_def same_elsewhere_def)
next
  case True
  obtain h where h: "map_find string_less (msgs ! 0) (nd_stat_to_handler nd) = Some h" using topic by blast
  obtain t where t: "handle L h msgs (ls_tree s) = Some t" "tree_ok t"
    and frame: "\<forall>k. \<not> related (handler_root h) k \<longrightarrow> tree_get L k t = tree_get L k (ls_tree s)"
    using any_handled [OF _ ok, of msgs h] True by blast
  have "same_elsewhere L nd (ls_tree s) t"
    using frame find_handler_mem [OF h] by (fastforce simp: same_elsewhere_def)
  then show ?thesis using True h t by (simp add: dispatch_def Let_def)
qed

lemma same_elsewhere_trans:
  "same_elsewhere L nd t1 t2 \<Longrightarrow> same_elsewhere L nd t2 t3 \<Longrightarrow> same_elsewhere L nd t1 t3"
  by (simp add: same_elsewhere_def)

lemma handle_requests_ok:
  "tree_ok (ls_tree s) \<Longrightarrow> topics_handled nd ps (msgs = []) \<Longrightarrow>
    (msgs \<noteq> [] \<Longrightarrow> map_find string_less (msgs ! 0) (nd_stat_to_handler nd) \<noteq> None) \<Longrightarrow>
    \<exists>e s'. handle_requests L nd ps msgs s = (e, s') \<and> (e = Blocked \<or> e = Returned) \<and>
      tree_ok (ls_tree s') \<and> same_elsewhere L nd (ls_tree s) (ls_tree s')"
proof (induction ps arbitrary: msgs s)
  case Nil
  then show ?case by (simp add: same_elsewhere_def)
next
  case (Cons p ps)
  show ?case
  proof (cases "zp_init p \<and> (\<exists>d has_more. retry (zp_recv p) = Some (Got d) \<and> retry (zp_more p) = Some (Got has_more))")
    case False
    then show ?thesis
      using Cons.prems(1) by (auto simp: same_elsewhere_def split: option.splits attempt.splits)
  next
    case True
    then obtain d has_more where p: "zp_init p" "retry (zp_recv p) = Some (Got d)" "retry (zp_more p) = Some (Got has_more)"
      by blast
    have topic: "map_find string_less ((msgs @ [d]) ! 0) (nd_stat_to_handler nd) \<noteq> None"
      using Cons.prems(2,3) p by (cases msgs) auto
    have rest: "topics_handled nd ps (\<not> has_more)" using Cons.prems(2) p by simp
    show ?thesis
    proof (cases has_more)
      case True
      with Cons.IH [of s "msgs @ [d]"] Cons.prems(1) topic rest p show ?thesis by simp
    next
      case False
      obtain s1 where s1: "dispatch L nd (zp_time p) (msgs @ [d]) s = (None, s1)" "tree_ok (ls_tree s1)"
        "same_elsewhere L nd (ls_tree s) (ls_tree s1)"
        using dispatch_ok [OF Cons.prems(1) topic] by blast
      from Cons.IH [OF s1(2), of "[]"] rest False obtain e s' where
        "handle_requests L nd ps [] s1 = (e, s')" "e = Blocked \<or> e = Returned" "tree_ok (ls_tree s')"
        "same_elsewhere L nd (ls_tree s1) (ls_tree s')" by auto
      with p False s1 same_elsewhere_trans [OF s1(3)] show ?thesis by simp
    qed
  qed
qed

end

section \<open>Properties\<close>

text \<open>
  C15. The listener survives every sequence of messages whose first parts name statistics of its
  node, however the calls are interrupted and wherever one fails: it ends up waiting for the next part
  or returns after an error, no exception leaves it and no handler reads outside a message; the tree
  stays in order and only the branches of the node's handlers change.
\<close>

theorem listener_survives:
  assumes "oid_library L" and "tree_ok (ls_tree s)" and "topics_handled nd ps True"
  shows "\<exists>e z s'. handle_requests_forever L Z nd ps s = (e, z, s') \<and> (e = Blocked \<or> e = Returned) \<and>
    tree_ok (ls_tree s') \<and> same_elsewhere L nd (ls_tree s) (ls_tree s')"
proof -
  obtain e s' where run: "handle_requests L nd ps [] s = (e, s')" "e = Blocked \<or> e = Returned"
    "tree_ok (ls_tree s')" "same_elsewhere L nd (ls_tree s) (ls_tree s')"
    using oid_library.handle_requests_ok [OF assms(1,2), of nd ps "[]"] assms(3) by auto
  obtain ok z where "connect_and_subscribe Z nd new_ZMQListener = (ok, z)" by fastforce
  with run assms(2) show ?thesis
    by (cases ok) (auto simp: handle_requests_forever_def same_elsewhere_def)
qed

definition sample_parts :: "zmq_part list" where
  "sample_parts =
     [\<lparr>zp_init = True, zp_recv = [Interrupted, Got ''cdiv_total''], zp_more = [Got True], zp_time = 100\<rparr>,
      \<lparr>zp_init = True, zp_recv = [Got ''OK''], zp_more = [Got True], zp_time = 100\<rparr>,
      \<lparr>zp_init = True, zp_recv = [Got ''17''], zp_more = [Interrupted, Got False], zp_time = 100\<rparr>]"

theorem listener_survives_witness:
  "\<exists>e z s'. handle_requests_forever std_lib
      \<lparr>zc_ctx_new = True, zc_socket = True, zc_connect = True, zc_subscribe = (\<lambda>_. True)\<rparr>
      (cdiv_node_data std_lib) sample_parts \<lparr>ls_tree = sample_tree, ls_last_seen = 0\<rparr> = (e, z, s') \<and>
    (e = Blocked \<or> e = Returned) \<and> tree_ok (ls_tree s')"
proof -
  have "topics_handled (cdiv_node_data std_lib) sample_parts True"
    by (simp add: sample_parts_def cdiv_node_data_def mk_NodeData_def)
  moreover have "tree_ok (ls_tree \<lparr>ls_tree = sample_tree, ls_last_seen = 0\<rparr>)" by (simp add: sample_tree_ok)
  ultimately show ?thesis using listener_survives [OF std_lib.oid_library_axioms] by blast
qed

text \<open>
  C40. The destructor of a listener that failed to connect uses a pointer that was never set exactly
  when the ZeroMQ context could not be created.
\<close>

theorem destructor_uses_unset_pointer_iff:
  "delete_ZMQListener (snd (connect_and_subscribe Z nd new_ZMQListener)) = None \<longleftrightarrow> \<not> zc_ctx_new Z"
proof -
  have "zl_sck (snd (subscribe_all ok ss z)) = zl_sck z \<and> zl_ctx (snd (subscribe_all ok ss z)) = zl_ctx z"
    for ok ss and z :: ZMQListener
    by (induction ss arbitrary: z) auto
  then show ?thesis
    by (simp add: connect_and_subscribe_def delete_ZMQListener_def new_ZMQListener_def Let_def)
qed

end
