(* ===== verification/Custom_Handler.thy ===== *)
theory Custom_Handler
  imports Zmq_Listener
begin

text \<open>
  The SNMP side of the statistics (\<open>src/custom_handler.cpp\<close>): the registration of a node, the
  thread that listens for its statistics, and the handler that answers \<open>GET\<close> and
  \<open>GETNEXT\<close> requests from the tree.  The state holds the file-scope variables; whether
  net-snmp can register the handler, and the time, are arguments.
\<close>

section \<open>State and operations\<close>

record stats_agent =
  sa_tree :: OIDTree
  sa_last_seen_time :: int
  sa_thread_created :: bool
  sa_global_node_data :: "NodeData option"
  sa_registrations :: "(string \<times> OID) list"
  sa_threads :: "NodeData option list"

definition new_stats_agent :: stats_agent where
  "new_stats_agent =
     \<lparr>sa_tree = \<lparr>oidmap = []\<rparr>, sa_last_seen_time = 0, sa_thread_created = False,
      sa_global_node_data = None, sa_registrations = [], sa_threads = []\<rparr>"

definition TIMEOUT_THRESHOLD :: int where
  "TIMEOUT_THRESHOLD = 15"

definition initialize_handler :: "bool \<Rightarrow> NodeData \<Rightarrow> stats_agent \<Rightarrow> stats_agent" where
  "initialize_handler handler_ok nd a =
     (let a1 = a\<lparr>sa_thread_created := False, sa_last_seen_time := 0\<rparr>
      in if \<not> handler_ok then a1
         else a1\<lparr>sa_registrations := sa_registrations a1 @ [(nd_name nd, nd_root_oid nd)],
                 sa_global_node_data := Some nd\<rparr>)"

datatype snmp_mode = MODE_GET | MODE_GETNEXT | MODE_OTHER int

record snmp_request =
  rq_name :: OID
  rq_processed :: bool
  rq_value :: "asn_value option"

text \<open>An \<open>int\<close> result is served as an \<open>unsigned int\<close>.\<close>

definition answer :: "oid_lib \<Rightarrow> snmp_mode \<Rightarrow> OIDTree \<Rightarrow> snmp_request \<Rightarrow> snmp_request" where
  "answer L mode t rq =
     (if rq_processed rq then rq
      else let this_oid = OID_array (rq_name rq) (int (length (rq_name rq)))
           in case mode of
             MODE_GET \<Rightarrow>
               (case tree_get L this_oid t of
                  Some outval \<Rightarrow> rq\<lparr>rq_value := Some (ASN_UNSIGNED (uint outval))\<rparr>
                | None \<Rightarrow> rq)
           | MODE_GETNEXT \<Rightarrow>
               (case tree_get_next L this_oid t of
                  Some (outoid, outval) \<Rightarrow>
                    rq\<lparr>rq_name := outoid, rq_value := Some (ASN_UNSIGNED (uint outval))\<rparr>
                | None \<Rightarrow> rq)
           | MODE_OTHER _ \<Rightarrow> rq)"

text \<open>
  The part of the handler that starts the listening thread.  \<open>sa_threads\<close> has the threads that
  \<open>pthread_create\<close> was called for; the code does not look at the result of the call, and sets the
  flag before it, so that a call that fails is not repeated either.
\<close>

definition start_thread :: "stats_agent \<Rightarrow> stats_agent" where
  "start_thread a =
     (if sa_thread_created a then a
      else a\<lparr>sa_thread_created := True, sa_threads := sa_threads a @ [sa_global_node_data a]\<rparr>)"

definition clearwater_handler ::
  "oid_lib \<Rightarrow> int \<Rightarrow> snmp_mode \<Rightarrow> snmp_request list \<Rightarrow> stats_agent \<Rightarrow> snmp_request list \<times> stats_agent" where
  "clearwater_handler L now mode requests a =
     (let a1 = start_thread a
      in if now - sa_last_seen_time a1 < TIMEOUT_THRESHOLD
         then (map (answer L mode (sa_tree a1)) requests, a1)
         else (requests, a1))"

section \<open>The modules that snmpd loads\<close>

definition init_astaire_handler :: "oid_lib \<Rightarrow> bool \<Rightarrow> stats_agent \<Rightarrow> stats_agent" where
  "init_astaire_handler L ok a = initialize_handler ok (astaire_node_data L) a"

definition init_cdiv_handler :: "oid_lib \<Rightarrow> bool \<Rightarrow> stats_agent \<Rightarrow> stats_agent" where
  "init_cdiv_handler L ok a = initialize_handler ok (cdiv_node_data L) a"

definition init_memento_as_handler :: "oid_lib \<Rightarrow> bool \<Rightarrow> stats_agent \<Rightarrow> stats_agent" where
  "init_memento_as_handler L ok a = initialize_handler ok (memento_as_node_data L) a"

definition init_memento_handler :: "oid_lib \<Rightarrow> bool \<Rightarrow> bool \<Rightarrow> stats_agent \<Rightarrow> stats_agent" where
  "init_memento_handler L ok1 ok2 a =
     initialize_handler ok2 (memento_auth_node_data L) (initialize_handler ok1 (memento_http_node_data L) a)"

text \<open>A series of requests from the master agent: the time, the mode and the requests of each.\<close>

fun serve ::
  "oid_lib \<Rightarrow> (int \<times> snmp_mode \<times> snmp_request list) list \<Rightarrow> stats_agent \<Rightarrow> stats_agent" where
  "serve L [] a = a"
| "serve L ((now, mode, requests) # cs) a = serve L cs (snd (clearwater_handler L now mode requests a))"

section \<open>Lemmas\<close>

lemma answer_get:
  "answer L MODE_GET t rq =
     (if rq_processed rq then rq
      else case tree_get L (rq_name rq) t of
             Some v \<Rightarrow> rq\<lparr>rq_value := Some (ASN_UNSIGNED (uint v))\<rparr>
           | None \<Rightarrow> rq)"
  by (simp add: answer_def)

lemma answer_getnext:
  "answer L MODE_GETNEXT t rq =
     (if rq_processed rq then rq
      else case tree_get_next L (rq_name rq) t of
             Some (k, v) \<Rightarrow> rq\<lparr>rq_name := k, rq_value := Some (ASN_UNSIGNED (uint v))\<rparr>
           | None \<Rightarrow> rq)"
  by (simp add: answer_def)

lemma start_thread_created [simp]: "sa_thread_created (start_thread a)"
  by (simp add: start_thread_def)

lemma start_thread_idem: "sa_thread_created a \<Longrightarrow> start_thread a = a"
  by (simp add: start_thread_def)

lemma start_thread_fields [simp]:
  "sa_tree (start_thread a) = sa_tree a" "sa_last_seen_time (start_thread a) = sa_last_seen_time a"
  "sa_global_node_data (start_thread a) = sa_global_node_data a"
  by (simp_all add: start_thread_def)

lemma snd_clearwater_handler [simp]: "snd (clearwater_handler L now mode requests a) = start_thread a"
  by (simp add: clearwater_handler_def Let_def)

lemma serve_start: "serve L cs a = (if cs = [] then a else start_thread a)"
proof (induction cs arbitrary: a)
  case Nil
  then show ?case by simp
next
  case (Cons c cs)
  then show ?case by (cases c) (simp add: start_thread_idem)
qed

section \<open>Properties\<close>

text \<open>
  C30. Requests are answered from fresh data only: when the last publication is 15 seconds old or
  older, every request is left as it was; otherwise a \<open>GET\<close> of a statistic in the tree is
  answered with its value as an unsigned number, a \<open>GETNEXT\<close> with the smallest identifier that
  follows and the value of that statistic, and a request with no answer in the tree, one that is
  processed already and one of any other kind is left as it was.
\<close>

theorem requests_answered_when_fresh:
  assumes "oid_library L" and "tree_ok (sa_tree a)"
  shows "let rs' = fst (clearwater_handler L now mode rs a) in
    length rs' = length rs \<and>
    (now - sa_last_seen_time a \<ge> 15 \<longrightarrow> rs' = rs) \<and>
    (\<forall>n < length rs. now - sa_last_seen_time a < 15 \<and> \<not> rq_processed (rs ! n) \<longrightarrow>
      (\<forall>v. mode = MODE_GET \<and> tree_get L (rq_name (rs ! n)) (sa_tree a) = Some v \<longrightarrow>
        rs' ! n = (rs ! n)\<lparr>rq_value := Some (ASN_UNSIGNED (uint v))\<rparr>) \<and>
      (\<forall>k v. mode = MODE_GETNEXT \<and> oid_less (rq_name (rs ! n)) k \<and> tree_get L k (sa_tree a) = Some v \<and>
          (\<forall>j. oid_less (rq_name (rs ! n)) j \<and> tree_get L j (sa_tree a) \<noteq> None \<longrightarrow> j = k \<or> oid_less k j) \<longrightarrow>
        rs' ! n = (rs ! n)\<lparr>rq_name := k, rq_value := Some (ASN_UNSIGNED (uint v))\<rparr>)) \<and>
    (\<forall>n < length rs.
      rq_processed (rs ! n) \<or> mode \<noteq> MODE_GET \<and> mode \<noteq> MODE_GETNEXT \<or>
      mode = MODE_GET \<and> tree_get L (rq_name (rs ! n)) (sa_tree a) = None \<or>
      mode = MODE_GETNEXT \<and> (\<forall>j. oid_less (rq_name (rs ! n)) j \<longrightarrow> tree_get L j (sa_tree a) = None) \<longrightarrow>
      rs' ! n = rs ! n)"
proof -
  have get_next: "tree_get_next L q (sa_tree a) = Some (k, v)"
    if "oid_less q k" "tree_get L k (sa_tree a) = Some v"
      "\<forall>j. oid_less q j \<and> tree_get L j (sa_tree a) \<noteq> None \<longrightarrow> j = k \<or> oid_less k j" for q k v
    by (rule oid_library.least_is_next [OF assms that])
  have no_next: "tree_get_next L q (sa_tree a) = None"
    if "\<forall>j. oid_less q j \<longrightarrow> tree_get L j (sa_tree a) = None" for q
    by (rule oid_library.last_has_no_next [OF assms that])
  show ?thesis
    by (cases mode) (auto simp: clearwater_handler_def Let_def answer_def TIMEOUT_THRESHOLD_def get_next no_next)
qed

definition sample_agent :: stats_agent where
  "sample_agent = new_stats_agent\<lparr>sa_tree := sample_tree, sa_last_seen_time := 100\<rparr>"

theorem requests_answered_when_fresh_witness:
  "fst (clearwater_handler std_lib 110 MODE_GET
      [\<lparr>rq_name = [1, 3], rq_processed = False, rq_value = None\<rparr>] sample_agent) ! 0 =
    \<lparr>rq_name = [1, 3], rq_processed = False, rq_value = Some (ASN_UNSIGNED 5)\<rparr>"
proof -
  have ok: "tree_ok (sa_tree sample_agent)" by (simp add: sample_agent_def sample_tree_ok)
  have get: "tree_get std_lib [1, 3] (sa_tree sample_agent) = Some 5" by code_simp
  have fresh: "(110 :: int) - sa_last_seen_time sample_agent < 15" by (simp add: sample_agent_def)
  from requests_answered_when_fresh [OF std_lib.oid_library_axioms ok, of 110 MODE_GET
      "[\<lparr>rq_name = [1, 3], rq_processed = False, rq_value = None\<rparr>]"] get fresh
  show ?thesis by (simp add: Let_def)
qed

text \<open>
  C39. The statistics of the Memento HTTP server are never collected: its module registers two nodes,
  but the one listening thread, which the first request starts, gets the node that was registered
  last.  It subscribes to the authentication statistics only, while the identifiers of the HTTP
  statistics stay registered.
\<close>

theorem memento_http_never_collected:
  "let a = serve L (c # cs) (init_memento_handler L True True new_stats_agent);
       subscribed = zl_subscribed (snd (connect_and_subscribe Z (memento_auth_node_data L) new_ZMQListener))
   in sa_threads a = [Some (memento_auth_node_data L)] \<and>
      (''memento'', nd_root_oid (memento_http_node_data L)) \<in> set (sa_registrations a) \<and>
      set subscribed \<inter> set (nd_stats (memento_http_node_data L)) = {}"
proof -
  have sub: "set (zl_subscribed (snd (subscribe_all ok ss z))) \<subseteq> set (zl_subscribed z) \<union> set ss"
    for ok ss and z :: ZMQListener
  proof (induction ss arbitrary: z)
    case (Cons s ss)
    from Cons.IH [of "z\<lparr>zl_subscribed := zl_subscribed z @ [s]\<rparr>"] show ?case by auto
  qed simp
  have "set (zl_subscribed (snd (connect_and_subscribe Z (memento_auth_node_data L) new_ZMQListener))) \<subseteq>
      set (nd_stats (memento_auth_node_data L))"
    using sub [of "zc_subscribe Z" "nd_stats (memento_auth_node_data L)"
        "\<lparr>zl_ctx = Valid, zl_sck = Valid,
          zl_endpoint = Some (''ipc:///var/run/clearwater/stats/'' @ nd_name (memento_auth_node_data L)),
          zl_subscribed = []\<rparr>"]
    by (simp add: connect_and_subscribe_def new_ZMQListener_def Let_def)
  moreover have "set (nd_stats (memento_auth_node_data L)) \<inter> set (nd_stats (memento_http_node_data L)) = {}"
    by (simp add: memento_auth_node_data_def memento_http_node_data_def mk_NodeData_def)
  moreover have "nd_name (memento_http_node_data L) = ''memento''"
    by (simp add: memento_http_node_data_def mk_NodeData_def)
  ultimately show ?thesis
    by (auto simp: serve_start Let_def init_memento_handler_def initialize_handler_def start_thread_def new_stats_agent_def)
qed

end
