(* ===== verification/Stats_Service.thy ===== *)
theory Stats_Service
  imports Custom_Handler
begin

text \<open>
  The statistics side put together: the thread that \<open>clearwater_handler\<close> starts
  (\<open>start_stats\<close> in \<open>src/custom_handler.cpp\<close>) fills the tree that the handler answers from.
\<close>

section \<open>The thread\<close>

text \<open>
  The tree and the time of the last publication are shared with the handler.  The listener is
  destroyed when the thread returns; \<^const>\<open>None\<close> in the second component is the use of a pointer
  that was never set.
\<close>

definition start_stats ::
  "oid_lib \<Rightarrow> zmq_connect_env \<Rightarrow> NodeData \<Rightarrow> zmq_part list \<Rightarrow> stats_agent \<Rightarrow>
   listener_end \<times> ZMQListener option \<times> stats_agent" where
  "start_stats L Z nd ps a =
     (case handle_requests_forever L Z nd ps \<lparr>ls_tree = sa_tree a, ls_last_seen = sa_last_seen_time a\<rparr> of
        (e, z, s) \<Rightarrow>
          (e, if e = Returned then delete_ZMQListener z else Some z,
           a\<lparr>sa_tree := ls_tree s, sa_last_seen_time := ls_last_seen s\<rparr>))"

section \<open>Publications\<close>

text \<open>
  A publication is the time it arrives at and its message; \<open>k d\<close> is how often the two calls for
  the part \<open>d\<close> are interrupted by a signal.
\<close>

type_synonym publication = "int \<times> string list"

definition stat_part :: "(string \<Rightarrow> nat \<times> nat) \<Rightarrow> int \<Rightarrow> bool \<Rightarrow> string \<Rightarrow> zmq_part" where
  "stat_part k now has_more d =
     \<lparr>zp_init = True, zp_recv = replicate (fst (k d)) Interrupted @ [Got d],
      zp_more = replicate (snd (k d)) Interrupted @ [Got has_more], zp_time = now\<rparr>"

fun block_parts :: "(string \<Rightarrow> nat \<times> nat) \<Rightarrow> int \<Rightarrow> string list \<Rightarrow> zmq_part list" where
  "block_parts k now [] = []"
| "block_parts k now (d # ds) = stat_part k now (ds \<noteq> []) d # block_parts k now ds"

definition publish :: "(string \<Rightarrow> nat \<times> nat) \<Rightarrow> publication list \<Rightarrow> zmq_part list" where
  "publish k pubs = concat (map (\<lambda>(now, m). block_parts k now m) pubs)"

text \<open>Messages about a statistic of the node, and what they do to the tree and the time.\<close>

definition about_node :: "NodeData \<Rightarrow> publication \<Rightarrow> bool" where
  "about_node nd pub \<longleftrightarrow> snd pub \<noteq> [] \<and> map_find string_less (snd pub ! 0) (nd_stat_to_handler nd) \<noteq> None"

definition store :: "oid_lib \<Rightarrow> NodeData \<Rightarrow> publication \<Rightarrow> listener_state \<Rightarrow> listener_state" where
  "store L nd pub s = snd (dispatch L nd (fst pub) (snd pub) s)"

text \<open>The message is about another statistic.\<close>

definition about_other :: "string \<Rightarrow> publication \<Rightarrow> bool" where
  "about_other name pub \<longleftrightarrow> snd pub ! 0 \<noteq> name"

section \<open>Lemmas\<close>

lemma handle_block:
  "m \<noteq> [] \<Longrightarrow> handle_requests L nd (block_parts k now m @ rest) msgs s =
     (case dispatch L nd now (msgs @ m) s of
        (Some e, s') \<Rightarrow> (e, s')
      | (None, s') \<Rightarrow> handle_requests L nd rest [] s')"
proof (induction m arbitrary: msgs)
  case (Cons d ds)
  then show ?case by (cases "ds = []") (simp_all add: stat_part_def)
qed simp

lemma find_mem: "map_find string_less k m = Some v \<Longrightarrow> (k, v) \<in> set m"
proof (induction m)
  case (Cons p m)
  then show ?case using string_map.lt_total by (cases p) (auto split: if_splits)
qed simp

lemma related_take: "related a b \<Longrightarrow> let n = min (length a) (length b) in take n a = take n b"
  by (auto simp: related_def)

text \<open>In the table of a node, another statistic is on other branches.\<close>

lemma branches_apart_unrelated:
  assumes "branches_apart m" and "map_find string_less s m = Some h" and "map_find string_less s' m = Some h'"
    and "s' \<noteq> s" and "b \<in> set (handler_branches h)" and "b' \<in> set (handler_branches h')"
  shows "\<not> related b' (b @ c)"
proof -
  have "\<not> (let n = min (length b') (length b) in take n b' = take n b)"
    using bspec [OF bspec [OF assms(1) [unfolded branches_apart_def] find_mem [OF assms(3)], simplified]
        find_mem [OF assms(2)]] assms(4-6) by simp
  then have "\<not> related b' b" using related_take by blast
  moreover have "related a b" if "related a (b @ c)" for a b :: OID
    using that unfolding related_def append_eq_append_conv2 by auto
  ultimately show ?thesis by blast
qed

context oid_library
begin

lemma store_ok:
  assumes "tree_ok (ls_tree s)" and "about_node nd pub"
  shows "dispatch L nd (fst pub) (snd pub) s = (None, store L nd pub s)"
    and "tree_ok (ls_tree (store L nd pub s))" and "ls_last_seen (store L nd pub s) = fst pub"
  using dispatch_ok [OF assms(1), of "snd pub" nd "fst pub"] assms(2) by (auto simp: about_node_def store_def)

lemma handle_publications:
  "tree_ok (ls_tree s) \<Longrightarrow> list_all (about_node nd) pubs \<Longrightarrow>
    handle_requests L nd (publish k pubs) [] s = (Blocked, fold (store L nd) pubs s) \<and>
    tree_ok (ls_tree (fold (store L nd) pubs s))"
proof (induction pubs arbitrary: s)
  case Nil
  then show ?case by (simp add: publish_def)
next
  case (Cons pub pubs)
  then have "snd pub \<noteq> []" by (simp add: about_node_def)
  then have "handle_requests L nd (publish k (pub # pubs)) [] s =
      handle_requests L nd (publish k pubs) [] (store L nd pub s)"
    using store_ok(1) [of s nd pub] Cons.prems by (cases pub) (simp add: publish_def handle_block)
  then show ?case using Cons store_ok(2) [of s nd pub] by simp
qed

text \<open>A message leaves the branches of the other statistics of its node alone.\<close>

lemma store_other:
  assumes "tree_ok (ls_tree s)" and "about_node nd pub" and "branches_apart (nd_stat_to_handler nd)"
    and "map_find string_less name (nd_stat_to_handler nd) = Some h" and "about_other name pub"
    and "b \<in> set (handler_branches h)"
  shows "tree_get L (b @ c) (ls_tree (store L nd pub s)) = tree_get L (b @ c) (ls_tree s)"
proof -
  obtain h' where h': "map_find string_less (snd pub ! 0) (nd_stat_to_handler nd) = Some h'"
    using assms(2) by (auto simp: about_node_def)
  have apart: "\<forall>b' \<in> set (handler_branches h'). \<not> related b' (b @ c)"
    using branches_apart_unrelated [OF assms(3,4) h' _ assms(6)] assms(5) by (simp add: about_other_def)
  show ?thesis
  proof (cases "2 \<le> length (snd pub) \<and> snd pub ! 1 = ''OK''")
    case True
    with any_branches [OF _ assms(1), of "snd pub" h'] h' apart show ?thesis
      by (auto simp: store_def dispatch_def Let_def)
  qed (auto simp: store_def dispatch_def Let_def)
qed

lemma fold_store_other:
  "tree_ok (ls_tree s) \<Longrightarrow> list_all (about_node nd) pubs \<Longrightarrow> branches_apart (nd_stat_to_handler nd) \<Longrightarrow>
    map_find string_less name (nd_stat_to_handler nd) = Some h \<Longrightarrow> list_all (about_other name) pubs \<Longrightarrow>
    b \<in> set (handler_branches h) \<Longrightarrow>
    tree_get L (b @ c) (ls_tree (fold (store L nd) pubs s)) = tree_get L (b @ c) (ls_tree s)"
  by (induction pubs arbitrary: s) (simp_all add: store_other store_ok(2))

lemma fold_store_time:
  "tree_ok (ls_tree s) \<Longrightarrow> list_all (about_node nd) pubs \<Longrightarrow> pubs \<noteq> [] \<Longrightarrow>
    ls_last_seen (fold (store L nd) pubs s) = fst (last pubs)"
proof (induction pubs arbitrary: s)
  case (Cons pub pubs)
  then show ?case using store_ok(2,3) [of s nd pub] by (cases "pubs = []") auto
qed simp

end

lemma subscribe_all_ok: "\<forall>s \<in> set ss. ok s \<Longrightarrow> fst (subscribe_all ok ss z)"
  by (induction ss arbitrary: z) simp_all

lemma start_stats_publications:
  assumes "oid_library L" and "tree_ok (sa_tree a)" and "list_all (about_node nd) pubs"
    and "zc_ctx_new Z" and "zc_socket Z" and "zc_connect Z" and "\<forall>s \<in> set (nd_stats nd). zc_subscribe Z s"
  shows "\<exists>z. let s = fold (store L nd) pubs \<lparr>ls_tree = sa_tree a, ls_last_seen = sa_last_seen_time a\<rparr>
    in start_stats L Z nd (publish k pubs) a =
      (Blocked, Some z, a\<lparr>sa_tree := ls_tree s, sa_last_seen_time := ls_last_seen s\<rparr>)"
proof -
  obtain z where "connect_and_subscribe Z nd new_ZMQListener = (True, z)"
    using assms(4-6) subscribe_all_ok [OF assms(7)] by (fastforce simp: connect_and_subscribe_def prod_eq_iff)
  then show ?thesis
    using oid_library.handle_publications [OF assms(1) _ assms(3)] assms(2)
    by (simp add: start_stats_def handle_requests_forever_def)
qed

context oid_library
begin

text \<open>After a series of publications, the branches of a statistic are as its last message left them.\<close>

lemma last_publication:
  assumes "tree_ok (ls_tree s)" and "branches_apart (nd_stat_to_handler nd)"
    and "map_find string_less name (nd_stat_to_handler nd) = Some h"
    and "list_all (about_node nd) (before @ later)" and "list_all (about_other name) later"
  shows "\<exists>t'. handle L h (name # ''OK'' # vals) (ls_tree (fold (store L nd) before s)) = Some t' \<and>
    (\<forall>b c. b \<in> set (handler_branches h) \<longrightarrow>
      tree_get L (b @ c) (ls_tree (fold (store L nd) (before @ (time, name # ''OK'' # vals) # later) s)) =
      tree_get L (b @ c) t')"
proof -
  let ?pub = "(time, name # ''OK'' # vals)"
  define s1 where "s1 = fold (store L nd) before s"
  define s2 where "s2 = store L nd ?pub s1"
  have about: "about_node nd ?pub" using assms(3) by (simp add: about_node_def)
  have ok1: "tree_ok (ls_tree s1)"
    using handle_publications [OF assms(1), of nd before] assms(4) by (simp add: s1_def)
  have ok2: "tree_ok (ls_tree s2)" unfolding s2_def by (rule store_ok(2) [OF ok1 about])
  have "handle L h (name # ''OK'' # vals) (ls_tree s1) = Some (ls_tree s2)"
    using any_handled [OF _ ok1, of "name # ''OK'' # vals" h] assms(3) by (auto simp: s2_def store_def dispatch_def)
  moreover have "tree_get L (b @ c) (ls_tree (fold (store L nd) later s2)) = tree_get L (b @ c) (ls_tree s2)"
    if "b \<in> set (handler_branches h)" for b c
    using fold_store_other [OF ok2 _ assms(2,3,5) that] assms(4) by simp
  ultimately show ?thesis by (auto simp: s1_def s2_def)
qed

end

end
