(* ===== verification/Stats_Interleaving.thy ===== *)
theory Stats_Interleaving
  imports Stats_Service
begin

text \<open>
  The SNMP handler and the listening thread at the same time.  Both use the tree through its
  operations, each of which holds the lock of the tree (\<open>_map_lock\<close> in \<open>src/oidtree.cpp\<close>)
  from its begin to its end, so that operations never overlap; but the handling of one message can
  be several operations, and the handler looks up each request of a PDU separately.  This theory
  splits the messages into their operations and lets lookups come in between.
\<close>

section \<open>Operations on the tree\<close>

datatype tree_op =
    Set_Entry OID i32
  | Remove_Entry OID
  | Remove_Subtree OID
  | Replace_Subtree OID OIDMap

fun apply_op :: "oid_lib \<Rightarrow> tree_op \<Rightarrow> OIDTree \<Rightarrow> OIDTree" where
  "apply_op L (Set_Entry k v) t = tree_set L k v t"
| "apply_op L (Remove_Entry k) t = tree_remove L k t"
| "apply_op L (Remove_Subtree r) t = tree_remove_subtree L r t"
| "apply_op L (Replace_Subtree r m) t = tree_replace_subtree L r m t"

text \<open>The operations that each handler calls for a message, in the order of the calls.\<close>

definition single_number_ops :: "string \<Rightarrow> oid_lib \<Rightarrow> OID \<Rightarrow> string list \<Rightarrow> tree_op list option" where
  "single_number_ops suffix L root msgs =
     (if 3 \<le> length msgs then
        map_option (\<lambda>v. [Replace_Subtree root (map_assign (OIDCompare L) (append_string L suffix root) v [])])
          (msg_int msgs 2)
      else Some [Remove_Subtree root])"

definition accumulated_ops :: "oid_lib \<Rightarrow> OID \<Rightarrow> string list \<Rightarrow> tree_op list option" where
  "accumulated_ops L root msgs =
     (if 7 \<le> length msgs then
        (case (msg_int msgs 2, msg_int msgs 3, msg_int msgs 5, msg_int msgs 4, msg_int msgs 6) of
           (Some average, Some variance, Some hwm, Some lwm, Some count) \<Rightarrow>
             Some [Replace_Subtree root
               (map_insert_range (OIDCompare L)
                 [(append_string L ''1.2'' root, average), (append_string L ''1.3'' root, variance),
                  (append_string L ''1.4'' root, hwm), (append_string L ''1.5'' root, lwm),
                  (append_string L ''1.6'' root, count)] [])]
         | _ \<Rightarrow> None)
      else Some [Remove_Subtree root])"

definition astaire_global_oids :: "oid_lib \<Rightarrow> OID \<Rightarrow> OID list" where
  "astaire_global_oids L root =
     map (OID_parent_string L root) [''1.0'', ''2.0'', ''3.0'', ''4.0'', ''5.1.2.1'']"

definition astaire_global_ops :: "oid_lib \<Rightarrow> OID \<Rightarrow> string list \<Rightarrow> tree_op list option" where
  "astaire_global_ops L root msgs =
     (if 7 \<le> length msgs then
        (case (msg_int msgs 2, msg_int msgs 3, msg_int msgs 4, msg_int msgs 5, msg_int msgs 6) of
           (Some a, Some b, Some c, Some d, Some e) \<Rightarrow>
             Some (map2 Set_Entry (astaire_global_oids L root) [a, b, c, d, e])
         | _ \<Rightarrow> None)
      else Some (map Remove_Entry (astaire_global_oids L root)))"

definition astaire_connection_ops :: "oid_lib \<Rightarrow> OID \<Rightarrow> string list \<Rightarrow> tree_op list option" where
  "astaire_connection_ops L root msgs =
     map_option (\<lambda>T.
         [Replace_Subtree (OID_parent_string L root ''6.1'') (connection_tree T),
          Replace_Subtree (OID_parent_string L root ''7.1'') (bucket_tree T),
          Replace_Subtree (OID_parent_string L root ''8.1'') (bucket_bandwidth_tree T)])
       (connection_loop L root msgs 2 \<lparr>connection_tree = [], bucket_tree = [], bucket_bandwidth_tree = []\<rparr>)"

fun handler_ops :: "oid_lib \<Rightarrow> ZMQMessageHandler \<Rightarrow> string list \<Rightarrow> tree_op list option" where
  "handler_ops L (IPCountStat r) msgs =
     map_option (\<lambda>m. [Replace_Subtree r m]) (ip_count_loop L r msgs 2 [])"
| "handler_ops L (BareStat r) msgs =
     (if 3 \<le> length msgs then map_option (\<lambda>v. [Set_Entry r v]) (msg_int msgs 2) else Some [])"
| "handler_ops L (SingleNumberStat r) msgs = single_number_ops ''0'' L r msgs"
| "handler_ops L (SingleNumberWithScopeStat r) msgs = single_number_ops ''1.2'' L r msgs"
| "handler_ops L (AccumulatedWithCountStat r) msgs = accumulated_ops L r msgs"
| "handler_ops L (AstaireGlobalStat r) msgs = astaire_global_ops L r msgs"
| "handler_ops L (AstaireConnectionStat r) msgs = astaire_connection_ops L r msgs"

text \<open>Run without a break, the operations of a message are its handler.\<close>

lemma handle_ops:
  "handle L h msgs t = map_option (\<lambda>ops. fold (apply_op L) ops t) (handler_ops L h msgs)"
proof (cases h)
  case (IPCountStat r)
  then show ?thesis by (simp add: IPCountStatHandler_def option.map_comp comp_def)
next
  case (BareStat r)
  then show ?thesis by (simp add: BareStatHandler_def option.map_comp comp_def)
next
  case (SingleNumberStat r)
  then show ?thesis
    by (simp add: SingleNumberStatHandler_def single_number_def single_number_ops_def option.map_comp comp_def)
next
  case (SingleNumberWithScopeStat r)
  then show ?thesis
    by (simp add: SingleNumberWithScopeStatHandler_def single_number_def single_number_ops_def option.map_comp comp_def)
next
  case (AccumulatedWithCountStat r)
  then show ?thesis
    by (simp add: AccumulatedWithCountStatHandler_def accumulated_ops_def del: map_insert_range.simps split: option.split)
next
  case (AstaireGlobalStat r)
  then show ?thesis
    by (simp add: AstaireGlobalStatHandler_def astaire_global_ops_def astaire_global_oids_def Let_def split: option.split)
next
  case (AstaireConnectionStat r)
  then show ?thesis by (simp add: AstaireConnectionStatHandler_def astaire_connection_ops_def option.map_comp comp_def)
qed

section \<open>What a sequence of operations does to one entry\<close>

text \<open>What an operation leaves at an identifier, \<^const>\<open>None\<close> when it does not touch it.\<close>

fun written :: "tree_op \<Rightarrow> OID \<Rightarrow> i32 option option" where
  "written (Set_Entry k' v) k = (if k = k' then Some (Some v) else None)"
| "written (Remove_Entry k') k = (if k = k' then Some None else None)"
| "written (Remove_Subtree r) k = (if related r k then Some None else None)"
| "written (Replace_Subtree r m) k = (if related r k then Some (map_of m k) else None)"

fun op_below :: "tree_op \<Rightarrow> bool" where
  "op_below (Replace_Subtree r m) = keys_below r m"
| "op_below _ = True"

text \<open>All operations that touch an identifier leave the same there.\<close>

definition agreeing :: "tree_op list \<Rightarrow> bool" where
  "agreeing ops \<longleftrightarrow>
     (\<forall>x \<in> set ops. \<forall>y \<in> set ops. \<forall>k v w. written x k = Some v \<and> written y k = Some w \<longrightarrow> v = w)"

context oid_library
begin

lemma apply_op_ok: "tree_ok t \<Longrightarrow> tree_ok (apply_op L x t)"
  by (cases x) (simp_all add: tree.inv_set tree.inv_remove tree.inv_remove_subtree tree.inv_replace_subtree)

lemma get_apply_op:
  "tree_ok t \<Longrightarrow> op_below x \<Longrightarrow>
    tree_get L k (apply_op L x t) = (case written x k of None \<Rightarrow> tree_get L k t | Some w \<Rightarrow> w)"
  by (cases x) (simp_all add: tree.get_set tree.get_remove tree.get_remove_subtree replace_get(2))

lemma get_untouched:
  "tree_ok t \<Longrightarrow> list_all op_below ops \<Longrightarrow> \<forall>x \<in> set ops. written x k = None \<Longrightarrow>
    tree_get L k (fold (apply_op L) ops t) = tree_get L k t"
  by (induction ops arbitrary: t) (simp_all add: apply_op_ok get_apply_op)

lemma get_touched:
  "tree_ok t \<Longrightarrow> list_all op_below ops \<Longrightarrow> \<forall>x \<in> set ops. written x k \<in> {None, Some w} \<Longrightarrow>
    \<exists>x \<in> set ops. written x k = Some w \<Longrightarrow> tree_get L k (fold (apply_op L) ops t) = w"
proof (induction ops arbitrary: t)
  case (Cons x ops)
  show ?case
  proof (cases "\<exists>y \<in> set ops. written y k = Some w")
    case True
    with Cons show ?thesis by (simp add: apply_op_ok)
  next
    case False
    then have "written x k = Some w" "\<forall>y \<in> set ops. written y k = None" using Cons.prems(3,4) by auto
    with Cons.prems(1,2) get_untouched [of "apply_op L x t" ops k] show ?thesis
      by (simp add: apply_op_ok get_apply_op)
  qed
qed simp

text \<open>An interrupted sequence leaves each entry as it was before or as it is after the whole of it.\<close>

lemma before_or_after:
  assumes "tree_ok t" and "list_all op_below (xs @ ys)" and "agreeing (xs @ ys)"
  shows "tree_get L k (fold (apply_op L) xs t) \<in> {tree_get L k t, tree_get L k (fold (apply_op L) (xs @ ys) t)}"
proof (cases "\<exists>x \<in> set xs. written x k \<noteq> None")
  case False
  with assms(1,2) get_untouched [of t xs k] show ?thesis by simp
next
  case True
  then obtain x w where x: "x \<in> set xs" "written x k = Some w" by auto
  have all: "written y k \<in> {None, Some w}" if "y \<in> set (xs @ ys)" for y
  proof (cases "written y k")
    case (Some v)
    moreover have "x \<in> set (xs @ ys)" using x(1) by simp
    ultimately have "v = w" using assms(3) x(2) that unfolding agreeing_def by blast
    with Some show ?thesis by simp
  qed simp
  have "tree_get L k (fold (apply_op L) xs t) = w"
    using assms(2) x all by (intro get_touched [OF assms(1)]) auto
  moreover have "tree_get L k (fold (apply_op L) (xs @ ys) t) = w"
    using x all by (intro get_touched [OF assms(1,2)]) auto
  ultimately show ?thesis by simp
qed

lemma next_entry:
  "tree_ok t \<Longrightarrow> tree_get_next L q t = Some (k, v) \<Longrightarrow> oid_less q k \<and> tree_get L k t = Some v"
  using tree.next_Some by blast

lemma agreeing_short [simp]: "agreeing []" "agreeing [x]"
  by (auto simp: agreeing_def)

text \<open>Two different tables share no entries; what they have in common are the identifiers above both.\<close>

lemma above_both:
  assumes "related (root @ [i, 1]) k" and "related (root @ [j, 1]) k" and "i \<noteq> j" and "keys_below (root @ [i, 1]) m"
  shows "map_of m k = None"
proof -
  have "\<not> below (root @ [i, 1]) k" using assms(2,3) by (auto simp: below_def related_def)
  then show ?thesis using assms(4) by (auto simp: keys_below_def map_of_eq_None_iff)
qed

lemma agreeing_tables:
  assumes "trees_below root T"
  shows "agreeing
    [Replace_Subtree (root @ [6, 1]) (connection_tree T), Replace_Subtree (root @ [7, 1]) (bucket_tree T),
     Replace_Subtree (root @ [8, 1]) (bucket_bandwidth_tree T)]"
proof -
  note none = above_both [of root 6 _ 7] above_both [of root 6 _ 8] above_both [of root 7 _ 6]
    above_both [of root 7 _ 8] above_both [of root 8 _ 6] above_both [of root 8 _ 7]
  show ?thesis
    using assms by (auto simp: agreeing_def trees_below_def none split: if_splits)
qed

lemma handler_ops_good:
  assumes "2 \<le> length msgs" and "handler_ops L h msgs = Some ops"
  shows "list_all op_below ops \<and> agreeing ops"
proof (cases h)
  case (IPCountStat r)
  with assms ip_count_keys [of 2 msgs r "[]"] show ?thesis by auto
next
  case (BareStat r)
  with assms(2) show ?thesis by (auto split: if_splits)
next
  case (SingleNumberStat r)
  with assms(2) show ?thesis by (auto simp: single_number_ops_def split: if_splits)
next
  case (SingleNumberWithScopeStat r)
  with assms(2) show ?thesis by (auto simp: single_number_ops_def split: if_splits)
next
  case (AccumulatedWithCountStat r)
  have "keys_below r (map_insert_range oid_less
      [(r @ xs1, v1), (r @ xs2, v2), (r @ xs3, v3), (r @ xs4, v4), (r @ xs5, v5)] [])" for xs1 xs2 xs3 xs4 xs5 v1 v2 v3 v4 v5
    by (rule keys_below_insert_range) simp_all
  with AccumulatedWithCountStat assms(2) show ?thesis
    by (auto simp: accumulated_ops_def simp del: map_insert_range.simps split: if_splits option.splits)
next
  case (AstaireGlobalStat r)
  with assms(2) show ?thesis
    by (auto simp: astaire_global_ops_def astaire_global_oids_def agreeing_def split: if_splits option.splits)
next
  case (AstaireConnectionStat r)
  obtain T where "connection_loop L r msgs 2 \<lparr>connection_tree = [], bucket_tree = [], bucket_bandwidth_tree = []\<rparr> = Some T"
    and "trees_below r T"
    using connection_loop_total [of 2 r "\<lparr>connection_tree = [], bucket_tree = [], bucket_bandwidth_tree = []\<rparr>" msgs]
    by (auto simp: trees_below_def)
  with AstaireConnectionStat assms(2) agreeing_tables show ?thesis
    by (auto simp: astaire_connection_ops_def trees_below_def)
qed

end

section \<open>A PDU with operations in between\<close>

text \<open>The requests of a PDU, each with the operations that the listening thread makes before its lookup.\<close>

fun answer_pdu ::
  "oid_lib \<Rightarrow> snmp_mode \<Rightarrow> (tree_op list \<times> snmp_request) list \<Rightarrow> OIDTree \<Rightarrow> snmp_request list" where
  "answer_pdu L mode [] t = []"
| "answer_pdu L mode ((ops, rq) # gaps) t =
     (let t1 = fold (apply_op L) ops t in answer L mode t1 rq # answer_pdu L mode gaps t1)"

text \<open>With nothing in between this is the loop of the handler.\<close>

lemma answer_pdu_alone: "answer_pdu L mode (map (\<lambda>rq. ([], rq)) rs) t = map (answer L mode t) rs"
  by (induction rs) simp_all

lemma length_answer_pdu [simp]: "length (answer_pdu L mode gaps t) = length gaps"
  by (induction L mode gaps t rule: answer_pdu.induct) (simp_all add: Let_def)

lemma answer_pdu_nth:
  "n < length gaps \<Longrightarrow> answer_pdu L mode gaps t ! n =
    answer L mode (fold (apply_op L) (concat (map fst (take (Suc n) gaps))) t) (snd (gaps ! n))"
proof (induction L mode gaps t arbitrary: n rule: answer_pdu.induct)
  case (2 L mode ops rq gaps t)
  then show ?case by (cases n) (simp_all add: Let_def)
qed simp

section \<open>Properties\<close>

text \<open>
  C19. No request sees half a change: while a message is taken in, in however many operations on
  the tree and whatever of them come between two lookups of a PDU, each \<open>GET\<close> is answered as
  from the tree before the message or as from the tree after it, and each \<open>GETNEXT\<close> is left as
  it was or answered with an identifier that follows and a value that this identifier has before or
  after the message.
\<close>

theorem lookups_see_before_or_after:
  assumes "oid_library L" and "tree_ok t" and "2 \<le> length msgs"
    and "handler_ops L h msgs = Some ops" and "ops = concat (map fst gaps) @ rest"
  shows "\<exists>t'. handle L h msgs t = Some t' \<and>
    (\<forall>n < length gaps.
       answer_pdu L MODE_GET gaps t ! n \<in>
         {answer L MODE_GET t (snd (gaps ! n)), answer L MODE_GET t' (snd (gaps ! n))} \<and>
       (answer_pdu L MODE_GETNEXT gaps t ! n = snd (gaps ! n) \<or>
        (\<exists>k v. oid_less (rq_name (snd (gaps ! n))) k \<and> (tree_get L k t = Some v \<or> tree_get L k t' = Some v) \<and>
           answer_pdu L MODE_GETNEXT gaps t ! n =
             (snd (gaps ! n))\<lparr>rq_name := k, rq_value := Some (ASN_UNSIGNED (uint v))\<rparr>)))"
proof -
  let ?t' = "fold (apply_op L) ops t"
  have good: "list_all op_below ops" "agreeing ops"
    using oid_library.handler_ops_good [OF assms(1,3,4)] by auto
  define u where "u n = fold (apply_op L) (concat (map fst (take (Suc n) gaps))) t" for n
  have ok: "tree_ok (fold (apply_op L) xs t)" for xs
    using assms(2) oid_library.apply_op_ok [OF assms(1)] by (induction xs arbitrary: t) auto
  have seen: "tree_get L k (u n) = tree_get L k t \<or> tree_get L k (u n) = tree_get L k ?t'" for n k
  proof -
    have "ops = concat (map fst (take (Suc n) gaps)) @ (concat (map fst (drop (Suc n) gaps)) @ rest)"
      unfolding assms(5) by (simp flip: concat_append map_append)
    with oid_library.before_or_after [OF assms(1,2), of "concat (map fst (take (Suc n) gaps))"
        "concat (map fst (drop (Suc n) gaps)) @ rest" k] good show ?thesis by (auto simp: u_def)
  qed
  have next_seen: "oid_less q k \<and> tree_get L k (u n) = Some v" if "tree_get_next L q (u n) = Some (k, v)" for q k v n
    using oid_library.next_entry [OF assms(1) _ that] ok by (simp add: u_def)
  have "handle L h msgs t = Some ?t'" using handle_ops [of L h msgs t] assms(4) by simp
  moreover have "answer L MODE_GET (u n) rq \<in> {answer L MODE_GET t rq, answer L MODE_GET ?t' rq}" for n rq
    using seen [of "rq_name rq" n] by (auto simp: answer_get)
  moreover have "answer L MODE_GETNEXT (u n) rq = rq \<or>
      (\<exists>k v. oid_less (rq_name rq) k \<and> (tree_get L k t = Some v \<or> tree_get L k ?t' = Some v) \<and>
        answer L MODE_GETNEXT (u n) rq = rq\<lparr>rq_name := k, rq_value := Some (ASN_UNSIGNED (uint v))\<rparr>)" for n rq
    using next_seen [of "rq_name rq" n] seen [of _ n] by (auto simp: answer_getnext split: option.split) metis
  ultimately show ?thesis by (auto simp: answer_pdu_nth u_def)
qed

text \<open>An Astaire message of which two of the five operations have been made when the request is looked up.\<close>

definition sample_global :: "string list" where
  "sample_global = [''astaire_global'', ''OK'', ''7'', ''8'', ''9'', ''10'', ''11'']"

theorem lookups_see_before_or_after_witness:
  "let ops = the (handler_ops std_lib (AstaireGlobalStat [1]) sample_global);
       rq = \<lparr>rq_name = [1, 2, 0], rq_processed = False, rq_value = None\<rparr>;
       gaps = [(take 2 ops, rq)]
   in answer_pdu std_lib MODE_GET gaps sample_tree ! 0 \<in>
     {answer std_lib MODE_GET sample_tree rq,
      answer std_lib MODE_GET (the (handle std_lib (AstaireGlobalStat [1]) sample_global sample_tree)) rq}"
proof -
  let ?h = "AstaireGlobalStat [1]"
  obtain ops where ops: "handler_ops std_lib ?h sample_global = Some ops"
    by (simp add: astaire_global_ops_def sample_global_def)
  have "2 \<le> length sample_global" by (simp add: sample_global_def)
  from lookups_see_before_or_after [OF std_lib.oid_library_axioms sample_tree_ok this ops,
      of "[(take 2 ops, \<lparr>rq_name = [1, 2, 0], rq_processed = False, rq_value = None\<rparr>)]" "drop 2 ops"]
  show ?thesis by (auto simp: ops Let_def simp del: handler_ops.simps handle.simps)
qed

end
