(* ===== verification/Thread_Creation.thy ===== *)
theory Thread_Creation
  imports Custom_Handler
begin

text \<open>
  How concurrent requests start the listening thread (\<open>src/custom_handler.cpp\<close>,
  \<open>clearwater_handler\<close>).  \<open>thread_created\<close> is an atomic variable that is read once without
  and once with \<open>thread_creation_lock\<close>.  Any number of handlers run this code at once; a step of
  the relation below is one access to the shared variables by one handler.  The sequential
  \<^const>\<open>start_thread\<close> is what every interleaving amounts to.
\<close>

section \<open>Handlers as step relations\<close>

text \<open>Where a handler is: the next access to the shared variables that it makes.\<close>

datatype handler_pc =
    FirstLoad | Lock | SecondLoad | Store | Create | Unlock | Answering

record creation =
  cr_agent :: stats_agent
  cr_lock :: "nat option"
  cr_pc :: "nat \<Rightarrow> handler_pc"


definition goto :: "nat \<Rightarrow> handler_pc \<Rightarrow> creation \<Rightarrow> creation" where
  "goto i pc c = c\<lparr>cr_pc := (cr_pc c)(i := pc)\<rparr>"





section \<open>The invariant\<close>




lemma goto_simps [simp]:
  "cr_agent (goto i pc c) = cr_agent c" "cr_lock (goto i pc c) = cr_lock c"
  "cr_pc (goto i pc c) = (cr_pc c)(i := pc)"
  by (simp_all add: goto_def)










section \<open>Properties\<close>




end
