(* ===== verification/Table_Walk.thy ===== *)
theory Table_Walk
  imports Active_Table OID_Tree "HOL-Library.AList"
begin

text \<open>
  The alarm active table as a management station sees it.  A walk of a table lists the instances
  that net-snmp serves in the order of their identifiers, column by column and row by row.  The
  reference here is a plain list of the raised alarms in the order of their row numbers; the table
  of \<open>src/alarm_active_table.cpp\<close>, with its allocated rows, its pointers and its container,
  implements it.
\<close>

section \<open>What net-snmp serves\<close>

text \<open>
  A container whose rows can be enumerated, as net-snmp's table helper does to answer a request
  for the next instance.  The enumeration may come in any order.
\<close>

locale iterable_container = netsnmp_container C
  for C :: "('r, 'c) container_ops" +
  fixes rows :: "'c \<Rightarrow> (oid list \<times> 'r) list"
  assumes rows_iff: "(k, r) \<in> set (rows c) \<longleftrightarrow> c_find C k c = Some r"

text \<open>A list of rows, the newest first, is such a container.\<close>

definition list_container :: "('r, (oid list \<times> 'r) list) container_ops" where
  "list_container =
     \<lparr>c_new = [],
      c_insert = (\<lambda>k r c. case map_of c k of None \<Rightarrow> (k, r) # c | Some _ \<Rightarrow> c),
      c_remove = AList.delete,
      c_find = (\<lambda>k c. map_of c k)\<rparr>"

interpretation list_container: iterable_container list_container AList.clearjunk
proof unfold_locales
  fix k :: "oid list" and r :: 'r and c :: "(oid list \<times> 'r) list"
  show "(k, r) \<in> set (AList.clearjunk c) \<longleftrightarrow> c_find list_container k c = Some r"
    by (simp add: list_container_def AList.map_of_clearjunk flip: map_of_eq_Some_iff [OF distinct_clearjunk])
qed (auto simp: list_container_def delete_conv' split: option.splits)

text \<open>The instances of a registered table: below the entry node 1, the column and the row's index.\<close>

type_synonym mib = "(oid list \<times> asn_value) list"

definition row_instances ::
  "table_reg \<Rightarrow> ('d \<Rightarrow> nat \<Rightarrow> get_result) \<Rightarrow> oid list \<times> 'd \<Rightarrow> nat \<Rightarrow> mib" where
  "row_instances reg get_value row col =
     (case get_value (snd row) col of
        GotValue v \<Rightarrow> [(reg_oid reg @ [1, of_nat col] @ fst row, v)]
      | _ \<Rightarrow> [])"

definition table_instances ::
  "table_reg \<Rightarrow> ('d \<Rightarrow> nat \<Rightarrow> get_result) \<Rightarrow> (oid list \<times> 'd) list \<Rightarrow> mib" where
  "table_instances reg get_value rs =
     concat (map (\<lambda>row. concat (map (row_instances reg get_value row)
       [min_column reg..<Suc (max_column reg)])) rs)"

text \<open>The rows of the active table that the container leads to, and their instances.\<close>

definition active_rows :: "('c \<Rightarrow> (oid list \<times> nat) list) \<Rightarrow> 'c active_table \<Rightarrow> (oid list \<times> AlarmTableDef) list" where
  "active_rows rows st =
     (case container st of
        None \<Rightarrow> []
      | Some c \<Rightarrow> List.map_filter (\<lambda>(k, a). map_option (\<lambda>ctx. (k, ac_def ctx)) (row_store st a)) (rows c))"

definition active_instances :: "('c \<Rightarrow> (oid list \<times> nat) list) \<Rightarrow> 'c active_table \<Rightarrow> mib" where
  "active_instances rows st =
     table_instances alarmActiveTable_reg (alarmActiveTable_get_value (local_ip st)) (active_rows rows st)"

text \<open>A walk: the instances below a node, in the order of the identifiers.\<close>

definition walk :: "oid list \<Rightarrow> mib \<Rightarrow> mib" where
  "walk root m = map_insert_range oid_less (filter (\<lambda>(k, _). take (length root) k = root) m) []"

lemma walk_sorted [simp]: "map_ok oid_less (walk root m)"
  by (simp add: walk_def)

lemma map_of_functional:
  assumes "(k, v) \<in> set m" and "\<And>w. (k, w) \<in> set m \<Longrightarrow> w = v"
  shows "map_of m k = Some v"
proof -
  obtain w where "map_of m k = Some w" using weak_map_of_SomeI [OF assms(1)] by blast
  with assms(2) [OF map_of_SomeD] show ?thesis by simp
qed

lemma walk_set:
  assumes "\<And>k v w. (k, v) \<in> set m \<Longrightarrow> (k, w) \<in> set m \<Longrightarrow> v = w"
    and "\<And>k v. (k, v) \<in> set m \<Longrightarrow> take (length root) k = root"
  shows "set (walk root m) = set m"
proof -
  have all: "filter (\<lambda>(k, _). take (length root) k = root) m = m"
    using assms(2) by (auto intro!: filter_True)
  have "(k, v) \<in> set (walk root m) \<longleftrightarrow> map_of m k = Some v" for k v
    unfolding oid_map.find_Some_iff [OF walk_sorted, symmetric]
    by (simp add: walk_def all oid_map.find_insert_range)
  moreover have "map_of m k = Some v \<longleftrightarrow> (k, v) \<in> set m" for k v
    using map_of_functional [of k v m] map_of_SomeD [of m k v] assms(1) by blast
  ultimately show ?thesis by auto
qed

text \<open>A strictly ordered list is determined by its elements.\<close>

lemma map_ok_unique:
  fixes xs ys :: mib
  assumes "map_ok oid_less xs" and "map_ok oid_less ys" and "set xs = set ys"
  shows "xs = ys"
  using assms
proof (induction xs arbitrary: ys)
  case Nil
  then show ?case by simp
next
  case (Cons p xs)
  then obtain q ys' where ys: "ys = q # ys'" by (cases ys) auto
  have before: "oid_less (fst r) (fst s)" if "map_ok oid_less (r # rs)" "s \<in> set rs" for r s :: "oid list \<times> asn_value" and rs
    using that by (cases r) (auto simp: map_ok_def)
  have "p = q"
  proof (rule ccontr)
    assume "p \<noteq> q"
    then have "q \<in> set xs" "p \<in> set ys'" using Cons.prems(3) ys by auto
    then show False
      using before [of p xs q] before [of q ys' p] Cons.prems(1,2) ys oid_map.lt_asym by auto
  qed
  moreover have "p \<notin> set xs" "q \<notin> set ys'"
    using before [of p xs p] before [of q ys' q] Cons.prems(1,2) ys oid_less_irrefl by auto
  ultimately show ?case
    using Cons ys by (cases p) (auto simp: insert_ident)
qed

section \<open>The reference: a list of raised alarms\<close>

text \<open>
  An alarm is raised with the next row number and the time; raising it again at the same severity
  changes nothing, at another severity it moves to the end under a new number, and clearing
  removes it.
\<close>

record raised_alarm =
  ra_serial :: u64
  ra_time :: local_time
  ra_def :: AlarmTableDef

type_synonym alarm_list = "u64 \<times> raised_alarm list"

fun notify :: "local_time \<times> AlarmTableDef \<Rightarrow> alarm_list \<Rightarrow> alarm_list" where
  "notify (lt, d) (n, rs) =
     (let others = filter (\<lambda>r. alarm_index (ra_def r) \<noteq> alarm_index d) rs
      in if severity d = CLEARED then (n, others)
         else if \<exists>r \<in> set rs. alarm_index (ra_def r) = alarm_index d \<and> severity (ra_def r) = severity d then (n, rs)
         else (n + 1, others @ [\<lparr>ra_serial = n + 1, ra_time = lt, ra_def = d\<rparr>]))"

definition row_of :: "raised_alarm \<Rightarrow> active_context" where
  "row_of r = \<lparr>ac_index = active_row_key (ra_time r) (ra_serial r), ac_def = ra_def r\<rparr>"

text \<open>The order of rows in a walk: by time of issue, then by row number.\<close>

definition time_key :: "local_time \<Rightarrow> oid list" where
  "time_key lt = map (\<lambda>b. of_nat (unat b)) (datetime_octets (alarm_time_issued lt))"

abbreviation not_later :: "local_time \<Rightarrow> local_time \<Rightarrow> bool" where
  "not_later lt lt' \<equiv> \<not> oid_less (time_key lt') (time_key lt)"

definition row_before :: "raised_alarm \<Rightarrow> raised_alarm \<Rightarrow> bool" where
  "row_before r r' \<longleftrightarrow> not_later (ra_time r) (ra_time r') \<and> ra_serial r < ra_serial r'"

text \<open>The table of the code is in the state of the reference.\<close>

definition tracks :: "(nat, 'c) container_ops \<Rightarrow> 'c active_table \<Rightarrow> alarm_list \<Rightarrow> bool" where
  "tracks C st R \<longleftrightarrow>
     rows_ok st \<and> container_ok C st \<and> my_handler st \<noteq> None \<and> alarm_counter st = fst R \<and>
     ran (row_store st) = row_of ` set (snd R) \<and> sorted_wrt row_before (snd R) \<and>
     (\<forall>r \<in> set (snd R). ra_serial r \<le> fst R)"

lemma oid_less_append_same_length:
  "length xs = length ys \<Longrightarrow>
    oid_less (xs @ us) (ys @ vs) \<longleftrightarrow> oid_less xs ys \<or> (xs = ys \<and> oid_less us vs)"
  by (induction xs ys rule: list_induct2) (auto simp: oid_less_irrefl)

lemma length_time_key [simp]: "length (time_key lt) = 11"
  by (simp add: time_key_def)

lemma row_key_time: "active_row_key lt n = [0, 11] @ time_key lt @ [n]"
  by (simp add: active_row_key_def time_key_def)

lemma row_before_key:
  assumes "row_before r r'"
  shows "oid_less (active_row_key (ra_time r) (ra_serial r)) (active_row_key (ra_time r') (ra_serial r'))"
  using assms oid_less_total [of "time_key (ra_time r)" "time_key (ra_time r')"]
  by (auto simp: row_before_def row_key_time oid_less_append_same_length)

lemma rows_live_unique:
  assumes "rows_ok st" and "row_store st a = Some ctx" and "row_store st b = Some ctx'"
    and "alarm_index (ac_def ctx) = alarm_index (ac_def ctx')"
  shows "a = b"
  using rows_ok_address [OF assms(1,2)] rows_ok_address [OF assms(1,3)] assms(4) by simp

lemma tracks_malloc:
  assumes "tracks C st R"
  shows "finite (dom (row_store st)) \<and> card (dom (row_store st)) \<le> length (snd R)"
proof -
  let ?f = "\<lambda>r. the (alarm_indexes_to_rows st (ucast (alarm_index (ra_def r))))"
  have "dom (row_store st) \<subseteq> ?f ` set (snd R)"
  proof
    fix a assume "a \<in> dom (row_store st)"
    then obtain ctx where ctx: "row_store st a = Some ctx" by blast
    then have "ctx \<in> row_of ` set (snd R)" using assms ranI [of "row_store st"] by (simp add: tracks_def)
    then obtain r where "r \<in> set (snd R)" "ctx = row_of r" by blast
    with ctx assms show "a \<in> ?f ` set (snd R)"
      using rows_ok_address [of st a ctx] by (force simp: tracks_def row_of_def)
  qed
  moreover have "card (?f ` set (snd R)) \<le> length (snd R)"
    by (meson card_image_le card_length le_trans finite_set)
  ultimately show ?thesis by (meson card_mono finite_imageI finite_set finite_subset le_trans)
qed

text \<open>What a row that goes leaves, and what a row that comes adds.\<close>

lemma ran_delete_row:
  assumes "rows_ok st" and "alarm_indexes_to_rows st (ucast (alarm_index d)) = Some a"
    and "alarmActiveTable_delete_row E d st = Some st'"
  shows "ran (row_store st') = {ctx \<in> ran (row_store st). alarm_index (ac_def ctx) \<noteq> alarm_index d}"
    and "alarm_counter st' = alarm_counter st"
proof -
  obtain ctx where ctx: "row_store st a = Some ctx" "alarm_index (ac_def ctx) = alarm_index d"
    and st': "row_store st' = (row_store st)(a := None)" "alarm_counter st' = alarm_counter st"
    by (rule delete_row_Some [OF assms(1,2), of E]) (use assms(3) in simp)
  show "alarm_counter st' = alarm_counter st" by (fact st'(2))
  have "alarm_index (ac_def ctx') = alarm_index d \<longleftrightarrow> b = a" if "row_store st b = Some ctx'" for b ctx'
    using that ctx rows_live_unique [OF assms(1) that ctx(1)] by auto
  then show "ran (row_store st') = {ctx \<in> ran (row_store st). alarm_index (ac_def ctx) \<noteq> alarm_index d}"
    unfolding st'(1) ran_def by (auto split: if_splits)
qed

lemma ran_create_row:
  assumes "malloc_fresh (ae_malloc E)" and "ae_malloc E (row_store st) \<noteq> None"
    and "build_oid_spec (ae_build_oid E)" and "alarm_counter st + 1 \<noteq> UINT_MAX"
  shows "ran (row_store (alarmActiveTable_create_row E lt d st)) =
      insert (row_of \<lparr>ra_serial = alarm_counter st + 1, ra_time = lt, ra_def = d\<rparr>) (ran (row_store st))"
    and "alarm_counter (alarmActiveTable_create_row E lt d st) = alarm_counter st + 1"
proof -
  note key = index_to_oid_key [OF assms(3), of lt "alarm_counter st + 1"]
  from assms(1,2) obtain a where a: "ae_malloc E (row_store st) = Some a" "row_store st a = None"
    by (auto simp: malloc_fresh_def)
  then show "ran (row_store (alarmActiveTable_create_row E lt d st)) =
      insert (row_of \<lparr>ra_serial = alarm_counter st + 1, ra_time = lt, ra_def = d\<rparr>) (ran (row_store st))"
    by (simp add: alarmActiveTable_create_row_def key Let_def row_of_def)
  show "alarm_counter (alarmActiveTable_create_row E lt d st) = alarm_counter st + 1"
    using a assms(4) by (simp add: alarmActiveTable_create_row_def key Let_def)
qed

text \<open>The rows of the reference with and without an alarm index.\<close>

lemma row_of_others:
  "row_of ` set (filter (\<lambda>r. alarm_index (ra_def r) \<noteq> i) rs) = {ctx \<in> row_of ` set rs. alarm_index (ac_def ctx) \<noteq> i}"
  by (auto simp: row_of_def)

lemma tracks_present:
  assumes "tracks C st R"
  shows "(\<exists>r \<in> set (snd R). alarm_index (ra_def r) = i \<and> severity (ra_def r) = s) \<longleftrightarrow> active_severity st i = Some s"
proof -
  have ok: "rows_ok st" and ran: "ran (row_store st) = row_of ` set (snd R)"
    using assms by (simp_all add: tracks_def)
  have "active_severity st i = Some s \<longleftrightarrow>
      (\<exists>ctx \<in> ran (row_store st). alarm_index (ac_def ctx) = i \<and> severity (ac_def ctx) = s)" (is "_ \<longleftrightarrow> ?R")
  proof
    assume "active_severity st i = Some s"
    then obtain a ctx where a: "alarm_indexes_to_rows st (ucast i) = Some a" "row_store st a = Some ctx"
      "severity (ac_def ctx) = s"
      by (auto simp: active_severity_def split: option.splits)
    with rows_ok_index [OF ok a(1,2)] ranI [of "row_store st" a ctx] show ?R by auto
  next
    assume ?R
    then obtain a ctx where "row_store st a = Some ctx" "alarm_index (ac_def ctx) = i" "severity (ac_def ctx) = s"
      by (auto simp: ran_def)
    with rows_ok_address [OF ok] show "active_severity st i = Some s" by (auto simp: active_severity_def)
  qed
  then show ?thesis by (auto simp: ran row_of_def)
qed

lemma counter_up: "n < UINT_MAX \<Longrightarrow> n < n + 1"
  by (simp add: UINT_MAX_def word_less_nat_alt unat_word_ariths)

lemma notify_sorted:
  assumes "sorted_wrt row_before (snd R)" and "\<forall>r \<in> set (snd R). ra_serial r \<le> fst R"
    and "\<forall>r \<in> set (snd R). not_later (ra_time r) lt" and "fst R < UINT_MAX"
  shows "sorted_wrt row_before (snd (notify (lt, d) R)) \<and>
    (\<forall>r \<in> set (snd (notify (lt, d) R)). ra_serial r \<le> fst (notify (lt, d) R))"
proof -
  obtain n rs where R: "R = (n, rs)" by (cases R)
  have up: "n < n + 1" using assms(4) counter_up R by simp
  then have "x \<le> n \<Longrightarrow> x < n + 1" for x by simp
  with assms R up show ?thesis
    by (auto simp: Let_def sorted_wrt_append sorted_wrt_filter row_before_def) (meson le_less_trans less_imp_le)+
qed

lemma notify_times:
  assumes "r \<in> set (snd (notify (lt, d) R))"
  shows "r \<in> set (snd R) \<or> ra_time r = lt"
  using assms by (cases R) (auto simp: Let_def split: if_splits)

lemma notify_length: "length (snd (notify t R)) \<le> Suc (length (snd R))"
  by (cases t; cases R) (simp add: Let_def le_SucI)

lemma notify_counter: "fst (notify t R) = fst R \<or> fst (notify t R) = fst R + 1"
  by (cases t; cases R) (simp add: Let_def)

lemma trap_handler_rows:
  assumes tr: "tracks (ae_container E) st R" and fresh: "malloc_fresh (ae_malloc E)"
    and serves: "malloc_serves n (ae_malloc E)" and bo: "build_oid_spec (ae_build_oid E)"
    and room: "length (snd R) < n" and bound: "fst R + 1 < UINT_MAX"
    and step: "alarmActiveTable_trap_handler E lt d st = Some st'"
  shows "alarm_counter st' = fst (notify (lt, d) R) \<and> ran (row_store st') = row_of ` set (snd (notify (lt, d) R))"
proof -
  obtain m rs where R: "R = (m, rs)" by (cases R)
  let ?i = "alarm_index d"
  have ok: "rows_ok st" and reg: "my_handler st \<noteq> None" and m: "alarm_counter st = m"
    and ran: "ran (row_store st) = row_of ` set rs"
    using tr by (simp_all add: tracks_def R)
  have room_st: "ae_malloc E (row_store st) \<noteq> None"
    using tracks_malloc [OF tr] serves room by (simp add: malloc_serves_def)
  note present = tracks_present [OF tr, of ?i, unfolded R snd_conv]
  show ?thesis
  proof (cases "alarm_indexes_to_rows st (ucast ?i)")
    case None
    then have "active_severity st ?i = None" by (simp add: active_severity_def)
    then have absent: "alarm_index (ra_def r) \<noteq> ?i" if "r \<in> set rs" for r
      using present [of "severity (ra_def r)"] that by auto
    then have "filter (\<lambda>r. alarm_index (ra_def r) \<noteq> ?i) rs = rs" by (simp add: filter_id_conv)
    with absent None reg step R m ran bound show ?thesis
      using ran_create_row [OF fresh room_st bo, of lt d]
      by (auto simp: alarmActiveTable_trap_handler_def Let_def split: if_splits)
  next
    case (Some a)
    from ok Some obtain ctx where ctx: "row_store st a = Some ctx" by (fastforce simp: rows_ok_def)
    then have sev: "active_severity st ?i = Some (severity (ac_def ctx))"
      using Some by (simp add: active_severity_def)
    obtain u where u: "alarmActiveTable_delete_row E d st = Some u"
      using rows_ok_delete_row [OF ok Some, of E] by blast
    note del = ran_delete_row [OF ok Some u]
    have others: "ran (row_store u) = row_of ` set (filter (\<lambda>r. alarm_index (ra_def r) \<noteq> ?i) rs)"
      by (simp only: del(1) ran row_of_others)
    have room_u: "ae_malloc E (row_store u) \<noteq> None"
      using rows_ok_finite [OF _ u] tracks_malloc [OF tr] serves room by (auto simp: malloc_serves_def)
    have same: "(\<exists>r \<in> set rs. alarm_index (ra_def r) = ?i \<and> severity (ra_def r) = severity d) \<longleftrightarrow>
        severity (ac_def ctx) = severity d"
      using present [of "severity d"] sev by simp
    from ran_create_row [OF fresh room_u bo, of lt d] del(2) m bound R
    have new: "ran (row_store (alarmActiveTable_create_row E lt d u)) =
        insert (row_of \<lparr>ra_serial = m + 1, ra_time = lt, ra_def = d\<rparr>) (ran (row_store u))"
      "alarm_counter (alarmActiveTable_create_row E lt d u) = m + 1"
      by auto
    show ?thesis
      using Some ctx u reg step m del(2) ran others new same
      by (auto simp: alarmActiveTable_trap_handler_def R Let_def simp del: set_filter split: if_splits)
  qed
qed

lemma local_ip_create_row [simp]: "local_ip (alarmActiveTable_create_row E lt d st) = local_ip st"
  by (simp add: alarmActiveTable_create_row_def Let_def split: option.split)

lemma local_ip_trap_handler: "alarmActiveTable_trap_handler E lt d st = Some st' \<Longrightarrow> local_ip st' = local_ip st"
  by (auto simp: alarmActiveTable_trap_handler_def alarmActiveTable_delete_row_def split: if_splits option.splits)

section \<open>The table implements the reference\<close>

text \<open>
  What the table relies on: net-snmp's container and \<open>build_oid\<close>, and an allocator with room for
  \<open>n\<close> rows.
\<close>

locale table_host = iterable_container "ae_container E" rows
  for E :: "'c active_env" and rows :: "'c \<Rightarrow> (oid list \<times> nat) list" +
  fixes n :: nat
  assumes build_oid: "build_oid_spec (ae_build_oid E)"
    and fresh: "malloc_fresh (ae_malloc E)"
    and serves: "malloc_serves n (ae_malloc E)"
begin

lemma trap_handler_tracks:
  assumes "tracks (ae_container E) st R" and "length (snd R) < n" and "fst R + 1 < UINT_MAX"
    and "\<forall>r \<in> set (snd R). not_later (ra_time r) lt"
  shows "\<exists>st'. alarmActiveTable_trap_handler E lt d st = Some st' \<and>
    tracks (ae_container E) st' (notify (lt, d) R) \<and> local_ip st' = local_ip st"
proof -
  have ok: "rows_ok st" "container_ok (ae_container E) st" "my_handler st \<noteq> None" "alarm_counter st = fst R"
    using assms(1) by (simp_all add: tracks_def)
  obtain st' where st': "alarmActiveTable_trap_handler E lt d st = Some st'" "rows_ok st'"
    "my_handler st' = my_handler st"
    using trap_handler_rows_ok [OF ok(1) fresh, of lt d] by blast
  have "container_ok (ae_container E) st'"
    using container_ok_trap_handler [OF netsnmp_container_axioms build_oid fresh ok(2) _ st'(1)] assms(3) ok(4) by simp
  moreover have "fst R < UINT_MAX" using ok(2,4) by (simp add: container_ok_def)
  then have "sorted_wrt row_before (snd (notify (lt, d) R)) \<and>
      (\<forall>r \<in> set (snd (notify (lt, d) R)). ra_serial r \<le> fst (notify (lt, d) R))"
    using assms(1,4) by (intro notify_sorted) (simp_all add: tracks_def)
  moreover note trap_handler_rows [OF assms(1) fresh serves build_oid assms(2,3) st'(1)]
  ultimately show ?thesis
    using st' ok(3) local_ip_trap_handler [OF st'(1)] by (auto simp: tracks_def simp del: notify.simps)
qed

lemma run_traps_tracks:
  "tracks (ae_container E) st R \<Longrightarrow> length (snd R) + length ts \<le> n \<Longrightarrow>
   unat (fst R) + length ts < unat UINT_MAX \<Longrightarrow> sorted_wrt not_later (map fst ts) \<Longrightarrow>
   \<forall>r \<in> set (snd R). \<forall>t \<in> set ts. not_later (ra_time r) (fst t) \<Longrightarrow>
   \<exists>st'. run_traps E ts st = Some st' \<and> tracks (ae_container E) st' (fold notify ts R) \<and> local_ip st' = local_ip st"
proof (induction ts arbitrary: st R)
  case Nil
  then show ?case by simp
next
  case (Cons t ts)
  obtain lt d where t: "t = (lt, d)" by (cases t)
  have next_counter: "unat (fst R + 1) = Suc (unat (fst R))"
    using Cons.prems(3) by (simp add: unat_word_ariths UINT_MAX_def)
  then have "fst R + 1 < UINT_MAX" using Cons.prems(3) by (simp add: word_less_nat_alt)
  with trap_handler_tracks [OF Cons.prems(1), of lt d] Cons.prems(2,5) t obtain st1
    where st1: "alarmActiveTable_trap_handler E lt d st = Some st1"
      "tracks (ae_container E) st1 (notify (lt, d) R)" "local_ip st1 = local_ip st"
    by auto
  have "unat (fst (notify (lt, d) R)) + length ts < unat UINT_MAX"
    using notify_counter [of "(lt, d)" R] next_counter Cons.prems(3) by auto
  moreover have "length (snd (notify (lt, d) R)) + length ts \<le> n"
    using notify_length [of "(lt, d)" R] Cons.prems(2) by simp
  moreover have "\<forall>r \<in> set (snd (notify (lt, d) R)). \<forall>t \<in> set ts. not_later (ra_time r) (fst t)"
    using notify_times [of _ lt d R] Cons.prems(4,5) t by fastforce
  ultimately obtain st' where "run_traps E ts st1 = Some st'"
    "tracks (ae_container E) st' (fold notify ts (notify (lt, d) R))" "local_ip st' = local_ip st1"
    using Cons.IH [OF st1(2)] Cons.prems(4) by (auto simp del: notify.simps)
  with st1 t show ?case by (simp del: notify.simps)
qed

end

section \<open>The walk of the reference\<close>

text \<open>The columns one after the other, and in each the rows in the order of the list.\<close>

definition alarm_instance :: "string \<Rightarrow> nat \<Rightarrow> raised_alarm \<Rightarrow> mib" where
  "alarm_instance ip col r =
     row_instances alarmActiveTable_reg (alarmActiveTable_get_value ip)
       (active_row_key (ra_time r) (ra_serial r), ra_def r) col"

definition walk_of_list :: "string \<Rightarrow> raised_alarm list \<Rightarrow> mib" where
  "walk_of_list ip rs = concat (map (\<lambda>col. concat (map (alarm_instance ip col) rs)) [4..<15])"

lemma alarm_instance_key:
  "(k, v) \<in> set (alarm_instance ip col r) \<Longrightarrow>
    k = alarmActiveTable_oid @ [1, of_nat col] @ active_row_key (ra_time r) (ra_serial r)"
  by (auto simp: alarm_instance_def row_instances_def alarmActiveTable_reg_def split: get_result.splits)

lemma sorted_wrt_concat_map:
  "\<forall>x \<in> set xs. sorted_wrt P (f x) \<Longrightarrow>
   sorted_wrt (\<lambda>x y. \<forall>a \<in> set (f x). \<forall>b \<in> set (f y). P a b) xs \<Longrightarrow> sorted_wrt P (concat (map f xs))"
  by (induction xs) (auto simp: sorted_wrt_append)

lemma walk_of_list_sorted:
  assumes "sorted_wrt row_before rs"
  shows "map_ok oid_less (walk_of_list ip rs)"
  unfolding map_ok_def sorted_wrt_map walk_of_list_def
proof (intro sorted_wrt_concat_map ballI)
  fix col assume "col \<in> set [4..<15]"
  show "sorted_wrt (\<lambda>x y. oid_less (fst x) (fst y)) (alarm_instance ip col r)" for r
    by (simp add: alarm_instance_def row_instances_def split: get_result.split)
  have "oid_less (fst a) (fst b)" if "row_before r r'" "a \<in> set (alarm_instance ip col r)"
    "b \<in> set (alarm_instance ip col r')" for r r' a b
    using that row_before_key [OF that(1)]
    by (cases a; cases b) (auto dest!: alarm_instance_key simp: oid_less_append)
  then show "sorted_wrt (\<lambda>r r'. \<forall>a \<in> set (alarm_instance ip col r). \<forall>b \<in> set (alarm_instance ip col r').
      oid_less (fst a) (fst b)) rs"
    by (intro sorted_wrt_mono_rel [OF _ assms]) auto
next
  have less: "(of_nat x :: u64) < of_nat y" if "x < y" "y < 15" for x y :: nat
    using that by (simp add: word_of_nat_less_iff take_bit_nat_eq_self)
  have "oid_less (fst a) (fst b)" if "x < y" "y < 15" "a \<in> set (alarm_instance ip x r)"
    "b \<in> set (alarm_instance ip y r')" for x y r r' a b
    using that less [OF that(1,2)]
    by (cases a; cases b) (auto dest!: alarm_instance_key simp: oid_less_append)
  then have "\<forall>a \<in> set (concat (map (alarm_instance ip x) rs)).
      \<forall>b \<in> set (concat (map (alarm_instance ip y) rs)). oid_less (fst a) (fst b)" if "x < y" "y < 15" for x y
    using that by auto
  then show "sorted_wrt (\<lambda>x y. \<forall>a \<in> set (concat (map (alarm_instance ip x) rs)).
      \<forall>b \<in> set (concat (map (alarm_instance ip y) rs)). oid_less (fst a) (fst b)) [4..<15]"
    by (intro sorted_wrt_mono_rel [OF _ sorted_wrt_upt]) (simp only: set_upt atLeastLessThan_iff, blast)
qed

context table_host
begin

lemma active_rows_set:
  assumes "container_ok (ae_container E) st"
  shows "(k, d) \<in> set (active_rows rows st) \<longleftrightarrow> \<lparr>ac_index = k, ac_def = d\<rparr> \<in> ran (row_store st)"
proof -
  obtain c where c: "container st = Some c"
    and found: "\<And>k a. c_find (ae_container E) k c = Some a \<longleftrightarrow> (\<exists>ctx. row_store st a = Some ctx \<and> ac_index ctx = k)"
    using assms by (auto simp: container_ok_def)
  have row: "ac_index ctx = k \<and> ac_def ctx = d \<longleftrightarrow> ctx = \<lparr>ac_index = k, ac_def = d\<rparr>" for ctx
    by (cases ctx) auto
  have "(k, d) \<in> set (active_rows rows st) \<longleftrightarrow>
      (\<exists>a ctx. row_store st a = Some ctx \<and> ac_index ctx = k \<and> ac_def ctx = d)"
    by (force simp: active_rows_def c List.map_filter_def rows_iff found image_iff)
  also have "\<dots> \<longleftrightarrow> \<lparr>ac_index = k, ac_def = d\<rparr> \<in> ran (row_store st)"
    by (simp add: row ran_def)
  finally show ?thesis .
qed

lemma active_instances_set:
  assumes "tracks (ae_container E) st R"
  shows "set (active_instances rows st) = set (walk_of_list (local_ip st) (snd R))"
proof -
  have ok: "container_ok (ae_container E) st" and ran: "ran (row_store st) = row_of ` set (snd R)"
    using assms by (simp_all add: tracks_def)
  have "set (active_rows rows st) =
      (\<lambda>r. (active_row_key (ra_time r) (ra_serial r), ra_def r)) ` set (snd R)"
    using active_rows_set [OF ok] by (auto simp: ran row_of_def)
  then show ?thesis
    by (auto simp: active_instances_def table_instances_def walk_of_list_def alarm_instance_def
        alarmActiveTable_reg_def alarmActiveTable_COL_MIN_def alarmActiveTable_COL_MAX_def)
qed

lemma walk_tracks:
  assumes "tracks (ae_container E) st R"
  shows "walk alarmActiveTable_oid (active_instances rows st) = walk_of_list (local_ip st) (snd R)"
proof (rule map_ok_unique [OF walk_sorted])
  let ?m = "active_instances rows st"
  show sorted: "map_ok oid_less (walk_of_list (local_ip st) (snd R))"
    using assms by (intro walk_of_list_sorted) (simp add: tracks_def)
  note same = active_instances_set [OF assms]
  have "v = w" if "(k, v) \<in> set ?m" "(k, w) \<in> set ?m" for k v w
    using that same oid_map.find_Some_iff [OF sorted, of k] by (metis option.inject)
  moreover have "take (length alarmActiveTable_oid) k = alarmActiveTable_oid" if "(k, v) \<in> set ?m" for k v
    using that same by (auto simp: walk_of_list_def dest!: alarm_instance_key)
  ultimately have "set (walk alarmActiveTable_oid ?m) = set ?m" by (rule walk_set)
  then show "set (walk alarmActiveTable_oid ?m) = set (walk_of_list (local_ip st) (snd R))"
    by (simp only: same)
qed

end

text \<open>The length of the walk and of its identifiers.\<close>

lemma length_alarm_instance:
  assumes "4 \<le> col" and "col < 15"
  shows "length (alarm_instance ip col r) = 1"
proof -
  from assms have "\<exists>v. alarmActiveTable_get_value ip (ra_def r) col = GotValue v"
    using active_table.served [of col ip "ra_def r"]
    by (simp add: alarmActiveTable_reg_def alarmActiveTable_COL_MIN_def alarmActiveTable_COL_MAX_def)
  then show ?thesis by (auto simp: alarm_instance_def row_instances_def)
qed

lemma length_walk_of_list: "length (walk_of_list ip rs) = 11 * length rs"
proof -
  have row: "(\<Sum>r \<leftarrow> rs. length (alarm_instance ip col r)) = length rs" if "4 \<le> col" "col < 15" for col
    by (induction rs) (simp_all add: length_alarm_instance [OF that, simplified])
  have "length (walk_of_list ip rs) = sum_list (map (\<lambda>col. length rs) [4..<15])"
    unfolding walk_of_list_def length_concat map_map comp_def
    by (intro arg_cong [where f = sum_list] map_cong refl row) (simp_all only: set_upt atLeastLessThan_iff)
  then show ?thesis by simp
qed

lemma walk_of_list_oid_length: "(k, v) \<in> set (walk_of_list ip rs) \<Longrightarrow> length k = 26"
  by (auto simp: walk_of_list_def row_key_time alarmActiveTable_oid_def simp del: upt_rec_numeral
      dest!: alarm_instance_key)

section \<open>Properties\<close>

definition walk_env :: "nat \<Rightarrow> (oid list \<times> nat) list active_env" where
  "walk_env n = \<lparr>ae_container = list_container, ae_build_oid = encode_index, ae_malloc = first_free n\<rparr>"

interpretation walk_host: table_host "walk_env n" AList.clearjunk n for n
  by unfold_locales
    (simp_all add: walk_env_def list_container.find_insert list_container.find_remove list_container.rows_iff
      build_oid_spec_encode malloc_fresh_first_free malloc_serves_first_free)

lemma tracks_init:
  "tracks (ae_container E) (snd (init_alarmActiveTable E True True ip fresh_active)) (0, [])"
  if "netsnmp_container (ae_container E)"
  using netsnmp_container.find_new [OF that]
  by (simp add: tracks_def init_alarmActiveTable_def register_table_def fresh_active_def rows_ok_def
      container_ok_def UINT_MAX_def)

text \<open>
  C12. What a walk of the active table shows.  After any sequence of notifications whose times of
  issue do not go back, the handler has followed no null or freed pointer, and the walk is that of
  the plain list of raised alarms: the eleven columns 4 to 14 one after the other, and in each of
  them one instance per raised alarm, in the order in which the alarms were raised at their present
  severity, with rising row numbers, the identifiers all 26 subidentifiers long.  This holds while
  memory lasts and the 32-bit row number has not come round.
\<close>

theorem active_table_walk:
  assumes "table_host E rows n" and "length ts \<le> n" and "length ts < unat UINT_MAX"
    and "sorted_wrt not_later (map fst ts)"
  shows "\<exists>st. run_traps E ts (snd (init_alarmActiveTable E True True ip fresh_active)) = Some st \<and>
    (let raised = snd (fold notify ts (0, []));
         shown = walk alarmActiveTable_oid (active_instances rows st)
     in shown = walk_of_list ip raised \<and> length shown = 11 * length raised \<and>
        sorted_wrt (\<lambda>r r'. ra_serial r < ra_serial r') raised \<and> (\<forall>(k, v) \<in> set shown. length k = 26))"
proof -
  let ?st = "snd (init_alarmActiveTable E True True ip fresh_active)"
  have "netsnmp_container (ae_container E)"
    using assms(1) by (simp add: table_host_def iterable_container_def)
  from table_host.run_traps_tracks [OF assms(1) tracks_init [OF this, of ip], of ts] assms(2-4)
  obtain st where st: "run_traps E ts ?st = Some st"
    "tracks (ae_container E) st (fold notify ts (0, []))" "local_ip st = local_ip ?st"
    by auto
  have "local_ip ?st = ip"
    by (simp add: init_alarmActiveTable_def register_table_def fresh_active_def)
  with table_host.walk_tracks [OF assms(1) st(2)] st(3)
  have "walk alarmActiveTable_oid (active_instances rows st) = walk_of_list ip (snd (fold notify ts (0, [])))"
    by simp
  moreover have "sorted_wrt (\<lambda>r r'. ra_serial r < ra_serial r') (snd (fold notify ts (0, [])))"
    using st(2) by (auto simp: tracks_def row_before_def intro: sorted_wrt_mono_rel [rotated])
  ultimately show ?thesis
    using st(1) walk_of_list_oid_length [of _ _ ip] by (auto simp: Let_def length_walk_of_list)
qed

theorem active_table_walk_witness:
  "\<exists>st. run_traps (walk_env 4)
      [(sample_time, sample_def 1000 CRITICAL), (sample_time, sample_def 1001 MINOR),
       (sample_time, sample_def 1000 MINOR)]
      (snd (init_alarmActiveTable (walk_env 4) True True ''10.0.0.1'' fresh_active)) = Some st \<and>
    map (last \<circ> fst) (walk alarmActiveTable_oid (active_instances AList.clearjunk st)) =
      concat (replicate 11 [2, 3])"
proof -
  let ?ts = "[(sample_time, sample_def 1000 CRITICAL), (sample_time, sample_def 1001 MINOR),
       (sample_time, sample_def 1000 MINOR)]"
  have "unat UINT_MAX = 4294967295" by (simp add: UINT_MAX_def)
  then have "length ?ts < unat UINT_MAX" by simp
  moreover have "sorted_wrt not_later (map fst ?ts)" by (simp add: oid_less_irrefl)
  moreover have raised: "snd (fold notify ?ts (0, [])) =
      [\<lparr>ra_serial = 2, ra_time = sample_time, ra_def = sample_def 1001 MINOR\<rparr>,
       \<lparr>ra_serial = 3, ra_time = sample_time, ra_def = sample_def 1000 MINOR\<rparr>]"
    by (simp add: sample_simps alarm_index_def severity_def mk_AlarmTableDef_def)
  moreover have "map (last \<circ> fst) (walk_of_list ''10.0.0.1''
      [\<lparr>ra_serial = 2, ra_time = sample_time, ra_def = sample_def 1001 MINOR\<rparr>,
       \<lparr>ra_serial = 3, ra_time = sample_time, ra_def = sample_def 1000 MINOR\<rparr>]) = concat (replicate 11 [2, 3])"
    by (simp add: walk_of_list_def alarm_instance_def row_instances_def column_consts upt_rec_numeral
        alarmActiveTable_get_value_def active_row_key_def eval_nat_numeral)
  ultimately show ?thesis
    using active_table_walk [OF walk_host.table_host_axioms, of ?ts 4 "''10.0.0.1''"]
    by (auto simp: Let_def simp del: fold_simps notify.simps)
qed

end
