(* ===== verification/Table_Tests.thy ===== *)
theory Table_Tests
  imports Table_Walk "HOL-Library.Monad_Syntax"
begin

text \<open>
  The tests of the SNMP tables (\<open>src/ut/alarm_tables_testing.hpp\<close>,
  \<open>src/ut/alarm_tables_testing.cpp\<close>) as programs over the model: the fixture with its alarm
  definitions, the nine tests with their assertions, and the order in which they run.  The SNMP
  client commands that the tests shell out to and \<open>Utils::split_string\<close> are members of a
  record \<open>test_client\<close>; the locale \<open>snmp_client\<close> states what they document.  That the
  tests pass is proved from what the tables do, for every container and allocator that keep their
  contracts and for every clock that does not go back.
\<close>

section \<open>The client side\<close>

record test_client =
  tc_walk :: "mib \<Rightarrow> string \<Rightarrow> string list"
  tc_get_raw :: "mib \<Rightarrow> string \<Rightarrow> string"
  tc_get :: "mib \<Rightarrow> string \<Rightarrow> u32"
  tc_split :: "string \<Rightarrow> char \<Rightarrow> string list"

definition newline :: char where
  "newline = CHR 0x0A"

definition quote :: char where
  "quote = CHR 0x22"

text \<open>\<open>std::to_string\<close> on an \<open>int\<close>.\<close>

definition std_to_string :: "int \<Rightarrow> string" where
  "std_to_string i = (if i < 0 then CHR ''-'' # show_dec (nat (- i)) else show_dec (nat i))"

text \<open>How the net-snmp commands print: numeric identifiers, strings in quotes, no types.\<close>

fun value_text :: "asn_value \<Rightarrow> string" where
  "value_text (ASN_INTEGER i) = std_to_string i"
| "value_text (ASN_UNSIGNED i) = std_to_string i"
| "value_text (ASN_OCTET_STR s) = quote # s @ [quote]"
| "value_text (ASN_OBJECT_ID ids) = to_string ids"

definition instance_text :: "oid list \<times> asn_value \<Rightarrow> string" where
  "instance_text i = to_string (fst i) @ '' = '' @ value_text (snd i)"

text \<open>An identifier as the tests write it, without the leading dot.\<close>

definition dotted :: "oid list \<Rightarrow> string" where
  "dotted ids = tl (to_string ids)"

locale snmp_client =
  fixes T :: test_client
  assumes client_walk: "tc_walk T m (dotted root) = map instance_text (walk root m)"
    and client_get_raw: "map_of m k = Some v \<Longrightarrow> length (value_text v) < 1023 \<Longrightarrow>
      tc_get_raw T m (dotted k) = value_text v @ [newline]"
    and client_get: "map_of m k = Some (ASN_INTEGER i) \<Longrightarrow> 0 \<le> i \<Longrightarrow> i < 2 ^ 32 \<Longrightarrow>
      tc_get T m (dotted k) = word_of_int i"
    and client_split: "tc_split T s c = filter (\<lambda>t. t \<noteq> []) (split_on c s)"

text \<open>A client that does what the commands document.\<close>

definition parse_dotted :: "string \<Rightarrow> oid list" where
  "parse_dotted s = map (\<lambda>t. of_nat (digits_value t)) (filter (\<lambda>t. t \<noteq> []) (split_on CHR ''.'' s))"

definition reference_client :: test_client where
  "reference_client =
     \<lparr>tc_walk = (\<lambda>m s. map instance_text (walk (parse_dotted s) m)),
      tc_get_raw = (\<lambda>m s. case map_of m (parse_dotted s) of
                             None \<Rightarrow> [] | Some v \<Rightarrow> take 1023 (value_text v @ [newline])),
      tc_get = (\<lambda>m s. case map_of m (parse_dotted s) of Some (ASN_INTEGER i) \<Rightarrow> word_of_int i | _ \<Rightarrow> 0),
      tc_split = (\<lambda>s c. filter (\<lambda>t. t \<noteq> []) (split_on c s))\<rparr>"

section \<open>The fixture\<close>

text \<open>The texts of one severity all begin alike.\<close>

definition test_details :: "Severity \<Rightarrow> string \<Rightarrow> SeverityDetails" where
  "test_details sev text =
     \<lparr>sd_severity = sev, sd_description = text @ '' description'', sd_details = text @ '' details'',
      sd_cause = text @ '' cause'', sd_effect = text @ '' effect'', sd_action = text @ '' action'',
      sd_extended_details = text @ '' extended details'',
      sd_extended_description = text @ '' extended description''\<rparr>"

record CustomDefs =
  def_cleared :: AlarmTableDef
  def_raised :: AlarmTableDef
  def1_cleared :: AlarmTableDef
  def1_raised :: AlarmTableDef
  def2_cleared :: AlarmTableDef
  def2_raised :: AlarmTableDef
  def3_cleared :: AlarmTableDef
  def3_raised :: AlarmTableDef
  def4_cleared :: AlarmTableDef
  def4_raised :: AlarmTableDef
  def5_cleared :: AlarmTableDef
  def5_raised :: AlarmTableDef
  def6_cleared :: AlarmTableDef
  def_raised_critical :: AlarmTableDef
  def_raised_major :: AlarmTableDef

text \<open>\<open>SetUp\<close>; the argument is the value of \<open>AlarmDef::SOFTWARE_ERROR\<close>, of cpp-common.\<close>

definition SetUp :: "int \<Rightarrow> CustomDefs" where
  "SetUp software_error =
     (let cleared = test_details CLEARED ''Test alarm cleared'';
          raised = test_details CRITICAL ''Test alarm raised'';
          example = \<lparr>ad_name = ''test alarm'', ad_index = 6666, ad_cause = software_error,
                     ad_severity_details = [cleared, raised]\<rparr>;
          cleared1 = test_details CLEARED ''First alarm cleared'';
          raised1 = test_details CRITICAL ''First alarm raised'';
          example1 = \<lparr>ad_name = ''test alarm1'', ad_index = 6666, ad_cause = software_error,
                      ad_severity_details = [cleared1, raised1]\<rparr>;
          cleared2 = test_details CLEARED ''Second alarm cleared'';
          raised2 = test_details CRITICAL ''Second alarm raised'';
          example2 = \<lparr>ad_name = ''test alarm2'', ad_index = 6667, ad_cause = software_error,
                      ad_severity_details = [cleared2, raised2]\<rparr>;
          cleared3 = test_details CLEARED ''Third alarm cleared'';
          raised3 = test_details CRITICAL ''Third alarm raised'';
          example3 = \<lparr>ad_name = ''test alarm3'', ad_index = 6668, ad_cause = software_error,
                      ad_severity_details = [cleared3, raised3]\<rparr>;
          cleared4 = test_details CLEARED ''Fourth alarm cleared'';
          raised4 = test_details CRITICAL ''Fourth alarm raised'';
          example4 = \<lparr>ad_name = ''test alarm4'', ad_index = 6669, ad_cause = software_error,
                      ad_severity_details = [cleared4, raised4]\<rparr>;
          cleared5 = test_details CLEARED ''Fifth alarm cleared'';
          raised5 = test_details CRITICAL ''Fifth alarm raised'';
          example5 = \<lparr>ad_name = ''test alarm5'', ad_index = 6670, ad_cause = software_error,
                      ad_severity_details = [cleared5, raised5]\<rparr>;
          cleared6 = test_details CLEARED ''Test alarm cleared'';
          raised_critical = test_details CRITICAL ''Test alarm critical raised'';
          raised_major = test_details MAJOR ''Test alarm major raised'';
          example6 = \<lparr>ad_name = ''test alarm6'', ad_index = 6666, ad_cause = software_error,
                      ad_severity_details = [cleared, raised_critical, raised_major]\<rparr>
      in \<lparr>def_cleared = mk_AlarmTableDef example cleared, def_raised = mk_AlarmTableDef example raised,
          def1_cleared = mk_AlarmTableDef example1 cleared1, def1_raised = mk_AlarmTableDef example1 raised1,
          def2_cleared = mk_AlarmTableDef example2 cleared2, def2_raised = mk_AlarmTableDef example2 raised2,
          def3_cleared = mk_AlarmTableDef example3 cleared3, def3_raised = mk_AlarmTableDef example3 raised3,
          def4_cleared = mk_AlarmTableDef example4 cleared4, def4_raised = mk_AlarmTableDef example4 raised4,
          def5_cleared = mk_AlarmTableDef example5 cleared5, def5_raised = mk_AlarmTableDef example5 raised5,
          def6_cleared = mk_AlarmTableDef example6 cleared6,
          def_raised_critical = mk_AlarmTableDef example raised_critical,
          def_raised_major = mk_AlarmTableDef example raised_major\<rparr>)"

text \<open>
  The process under test: its three tables.  A test bed is the client, the containers with their
  enumerations, the two library functions and the value of the cause.
\<close>

record ('c, 's) tables =
  model_table :: "'s table_state"
  itu_table :: "'s table_state"
  active_table :: "'c active_table"

record ('c, 's) test_bed =
  tb_client :: test_client
  tb_env :: "'c active_env"
  tb_rows :: "'c \<Rightarrow> (oid list \<times> nat) list"
  tb_static :: "(AlarmTableDef, 's) container_ops"
  tb_static_rows :: "'s \<Rightarrow> (oid list \<times> AlarmTableDef) list"
  tb_software_error :: int

text \<open>
  \<open>SetUpTestCase\<close>, with memory for the three registrations; the start of the SNMP agent in
  \<open>SNMPTest::SetUpTestCase\<close> is cpp-common's.
\<close>

definition SetUpTestCase :: "('c, 's) test_bed \<Rightarrow> ('c, 's) tables \<Rightarrow> ('c, 's) tables" where
  "SetUpTestCase B fx =
     \<lparr>model_table = snd (initialize_table_alarmModelTable (tb_static B) True True (model_table fx)),
      itu_table = snd (initialize_table_ituAlarmTable (tb_static B) True True (itu_table fx)),
      active_table = snd (init_alarmActiveTable (tb_env B) True True ''10.154.153.133'' (active_table fx))\<rparr>"

text \<open>
  Consecutive calls of the trap handler, the first at the clock reading number \<open>i\<close>.
  \<^const>\<open>None\<close> is the use of a null or freed row.
\<close>

type_synonym clock = "nat \<Rightarrow> local_time"

fun timed :: "clock \<Rightarrow> nat \<Rightarrow> AlarmTableDef list \<Rightarrow> (local_time \<times> AlarmTableDef) list" where
  "timed clk i [] = []"
| "timed clk i (d # ds) = (clk i, d) # timed clk (Suc i) ds"

definition trap_calls ::
  "('c, 's) test_bed \<Rightarrow> clock \<Rightarrow> nat \<Rightarrow> AlarmTableDef list \<Rightarrow> ('c, 's) tables \<Rightarrow> ('c, 's) tables option" where
  "trap_calls B clk i ds fx =
     map_option (\<lambda>st. fx\<lparr>active_table := st\<rparr>)
       (run_traps (tb_env B) (timed clk i ds) (active_table fx))"

definition TearDown :: "('c, 's) test_bed \<Rightarrow> clock \<Rightarrow> nat \<Rightarrow> ('c, 's) tables \<Rightarrow> ('c, 's) tables option" where
  "TearDown B clk i =
     (let f = SetUp (tb_software_error B)
      in trap_calls B clk i
           [def_cleared f, def1_cleared f, def2_cleared f, def3_cleared f, def4_cleared f,
            def5_cleared f, def6_cleared f])"

text \<open>\<open>get_index_from_row\<close>; \<^const>\<open>None\<close> is an access past the end of a vector.\<close>

definition get_index_from_row :: "test_client \<Rightarrow> string \<Rightarrow> string option" where
  "get_index_from_row T snmpwalk_row =
     do {
       field \<leftarrow> vec_at (tc_split T snmpwalk_row CHR ''.'') 25;
       vec_at (tc_split T field CHR '' '') 0
     }"

section \<open>The tests\<close>

text \<open>The strings at file scope.\<close>

definition alarmModelTable_entry :: string where "alarmModelTable_entry = ''1.3.6.1.2.1.118.1.1.2.1''"
definition ituAlarmTable_entry :: string where "ituAlarmTable_entry = ''1.3.6.1.2.1.121.1.1.1.1''"
definition alarmActiveTable_table :: string where "alarmActiveTable_table = ''1.3.6.1.2.1.118.1.2.2''"
definition test_severity_to_state :: "int list" where "test_severity_to_state = [2, 1, 2, 6, 5, 4, 3]"
definition model_description :: string where
  "model_description = std_to_string (int COLUMN_ALARMMODELDESCRIPTION)"
definition model_notification :: string where
  "model_notification = std_to_string (int COLUMN_ALARMMODELNOTIFICATIONID)"
definition str_cleared :: string where "str_cleared = std_to_string (uint (severity_value CLEARED))"
definition str_state_raised :: string where
  "str_state_raised = std_to_string (test_severity_to_state ! unat (severity_value CRITICAL))"
definition itu_details :: string where "itu_details = std_to_string (int COLUMN_ITUALARMADDITIONALTEXT)"
definition itu_cause :: string where "itu_cause = std_to_string (int COLUMN_ITUALARMPROBABLECAUSE)"
definition str_severity_raised :: string where
  "str_severity_raised = std_to_string (uint (severity_value CRITICAL))"

lemmas test_strings = alarmModelTable_entry_def ituAlarmTable_entry_def alarmActiveTable_table_def
  test_severity_to_state_def model_description_def model_notification_def str_cleared_def
  str_state_raised_def itu_details_def itu_cause_def str_severity_raised_def

text \<open>
  A test: from the tables and its clock to whether all assertions held, and the tables at its end.
  The first assertion that fails ends the test.
\<close>

type_synonym ('c, 's) test = "('c, 's) test_bed \<Rightarrow> clock \<Rightarrow> ('c, 's) tables \<Rightarrow> (bool \<times> ('c, 's) tables) option"

text \<open>
  A table of the two definitions that the tests of the static tables insert.  Its invalid
  definition, of cpp-common's defaults, is never read.
\<close>

definition two_defs :: "CustomDefs \<Rightarrow> AlarmTableDefs" where
  "two_defs f =
     insert_def (def_raised f) (insert_def (def_cleared f)
       (new_AlarmTableDefs (atd_alarm_definition (def_cleared f)) (atd_severity_details (def_cleared f))))"

definition static_instances ::
  "table_reg \<Rightarrow> (AlarmTableDef \<Rightarrow> nat \<Rightarrow> get_result) \<Rightarrow> ('s \<Rightarrow> (oid list \<times> AlarmTableDef) list) \<Rightarrow> 's table_state \<Rightarrow> mib" where
  "static_instances reg get_value rows st =
     (case container st of None \<Rightarrow> [] | Some c \<Rightarrow> table_instances reg get_value (rows c))"

definition test_ModelTable :: "('c, 's) test" where
  "test_ModelTable B clk fx =
     (let f = SetUp (tb_software_error B);
          fx' = fx\<lparr>model_table := alarmModelTable_insert_defs (ae_build_oid (tb_env B)) (tb_static B) (\<lambda>_. True)
                                    (two_defs f) (model_table fx)\<rparr>;
          m = static_instances alarmModelTable_reg alarmModelTable_get_value (tb_static_rows B) (model_table fx');
          snmp_get_raw = tc_get_raw (tb_client B) m
      in Some
          (quote # ''Test alarm cleared description'' @ [quote, newline] =
             snmp_get_raw (alarmModelTable_entry @ ''.'' @ model_description @ ''.0.6666.'' @ str_cleared) \<and>
           quote # ''Test alarm raised description'' @ [quote, newline] =
             snmp_get_raw (alarmModelTable_entry @ ''.'' @ model_description @ ''.0.6666.'' @ str_state_raised) \<and>
           ''.1.3.6.1.2.1.118.0.3'' @ [newline] =
             snmp_get_raw (alarmModelTable_entry @ ''.'' @ model_notification @ ''.0.6666.'' @ str_cleared) \<and>
           ''.1.3.6.1.2.1.118.0.2'' @ [newline] =
             snmp_get_raw (alarmModelTable_entry @ ''.'' @ model_notification @ ''.0.6666.'' @ str_state_raised),
           fx'))"

definition test_ituAlarmTable :: "('c, 's) test" where
  "test_ituAlarmTable B clk fx =
     (let f = SetUp (tb_software_error B);
          fx' = fx\<lparr>itu_table := ituAlarmTable_insert_defs (ae_build_oid (tb_env B)) (tb_static B) (\<lambda>_. True)
                                  (two_defs f) (itu_table fx)\<rparr>;
          m = static_instances ituAlarmTable_reg ituAlarmTable_get_value (tb_static_rows B) (itu_table fx');
          snmp_get_raw = tc_get_raw (tb_client B) m;
          snmp_get = tc_get (tb_client B) m
      in Some
          (quote # ''Test alarm cleared details'' @ [quote, newline] =
             snmp_get_raw (ituAlarmTable_entry @ ''.'' @ itu_details @ ''.0.6666.'' @ str_cleared) \<and>
           quote # ''Test alarm raised details'' @ [quote, newline] =
             snmp_get_raw (ituAlarmTable_entry @ ''.'' @ itu_details @ ''.0.6666.'' @ str_severity_raised) \<and>
           163 = snmp_get (ituAlarmTable_entry @ ''.'' @ itu_cause @ ''.0.6666.'' @ str_cleared) \<and>
           163 = snmp_get (ituAlarmTable_entry @ ''.'' @ itu_cause @ ''.0.6666.'' @ str_severity_raised),
           fx'))"

text \<open>\<open>snmp_walk(alarmActiveTable_table)\<close> on the present table.\<close>

definition walk_active :: "('c, 's) test_bed \<Rightarrow> ('c, 's) tables \<Rightarrow> string list" where
  "walk_active B fx =
     tc_walk (tb_client B) (active_instances (tb_rows B) (active_table fx)) alarmActiveTable_table"

definition test_ActiveTableMultipleAlarms :: "('c, 's) test" where
  "test_ActiveTableMultipleAlarms B clk fx =
     (let f = SetUp (tb_software_error B)
      in do {
        fx1 \<leftarrow> trap_calls B clk 0
          [def1_raised f, def2_raised f, def3_raised f, def2_cleared f, def4_raised f, def5_raised f,
           def5_cleared f, def1_cleared f] fx;
        if 22 \<noteq> length (walk_active B fx1) then Some (False, fx1)
        else do {
          fx2 \<leftarrow> trap_calls B clk 8 [def3_cleared f, def4_cleared f] fx1;
          Some (0 = length (walk_active B fx2), fx2)
        }
      })"

definition test_ActiveTableRepeatAlarm :: "('c, 's) test" where
  "test_ActiveTableRepeatAlarm B clk fx =
     (let f = SetUp (tb_software_error B)
      in do {
        fx1 \<leftarrow> trap_calls B clk 0 [def_raised f, def_raised f] fx;
        if 11 \<noteq> length (walk_active B fx1) then Some (False, fx1)
        else do {
          fx2 \<leftarrow> trap_calls B clk 2 [def_cleared f] fx1;
          Some (0 = length (walk_active B fx2), fx2)
        }
      })"

definition test_ActiveTableClearingUnraisedAlarm :: "('c, 's) test" where
  "test_ActiveTableClearingUnraisedAlarm B clk fx =
     (let f = SetUp (tb_software_error B)
      in do {
        fx1 \<leftarrow> trap_calls B clk 0 [def_cleared f] fx;
        Some (0 = length (walk_active B fx1), fx1)
      })"

text \<open>\<open>std::string::find(...) != npos\<close>.\<close>

definition contains_string :: "string \<Rightarrow> string \<Rightarrow> bool" where
  "contains_string s t \<longleftrightarrow> list_ex (\<lambda>i. take (length t) (drop i s) = t) [0..<Suc (length s)]"

definition test_ActiveTableSameAlarmDifferentSeverities :: "('c, 's) test" where
  "test_ActiveTableSameAlarmDifferentSeverities B clk fx =
     (let f = SetUp (tb_software_error B)
      in do {
        fx1 \<leftarrow> trap_calls B clk 0 [def_raised_critical f, def_raised_major f] fx;
        let entries = walk_active B fx1;
        if 11 \<noteq> length entries then Some (False, fx1)
        else do {
          entry \<leftarrow> vec_at entries (COLUMN_ALARMACTIVEDESCRIPTION - alarmActiveTable_COL_MIN);
          if \<not> contains_string entry ''Test alarm major raised description'' then Some (False, fx1)
          else do {
            fx2 \<leftarrow> trap_calls B clk 2 [def_cleared f] fx1;
            Some (0 = length (walk_active B fx2), fx2)
          }
        }
      })"

text \<open>The clock is read once more after the walk.\<close>

definition test_ActiveTableIndexTimeStamp :: "('c, 's) test" where
  "test_ActiveTableIndexTimeStamp B clk fx =
     (let f = SetUp (tb_software_error B)
      in do {
        fx1 \<leftarrow> trap_calls B clk 0 [def1_raised f, def2_raised f, def3_raised f] fx;
        entry \<leftarrow> vec_at (walk_active B fx1) 0;
        let index_fields1 = tc_split (tb_client B) entry CHR ''.'';
        field17 \<leftarrow> vec_at index_fields1 17;
        if std_to_string (tm_mday (clk 3)) \<noteq> field17 then Some (False, fx1)
        else do {
          field16 \<leftarrow> vec_at index_fields1 16;
          Some (std_to_string (1 + tm_mon (clk 3)) = field16, fx1)
        }
      })"

definition test_AlarmTableIndexSize :: "('c, 's) test" where
  "test_AlarmTableIndexSize B clk fx =
     (let f = SetUp (tb_software_error B)
      in do {
        fx1 \<leftarrow> trap_calls B clk 0 [def1_raised f] fx;
        entry \<leftarrow> vec_at (walk_active B fx1) 0;
        Some (26 = length (tc_split (tb_client B) entry CHR ''.''), fx1)
      })"

text \<open>\<open>atoi(get_index_from_row(entries[i]).c_str())\<close>.\<close>

definition read_index :: "test_client \<Rightarrow> string list \<Rightarrow> nat \<Rightarrow> int option" where
  "read_index T entries i =
     do {
       row \<leftarrow> vec_at entries i;
       s \<leftarrow> get_index_from_row T row;
       Some (sint (atoi s))
     }"

definition test_AlarmTableAlarmsIndex :: "('c, 's) test" where
  "test_AlarmTableAlarmsIndex B clk fx =
     (let f = SetUp (tb_software_error B); index_at = read_index (tb_client B)
      in do {
        fx1 \<leftarrow> trap_calls B clk 0 [def1_raised f, def2_raised f, def3_raised f] fx;
        let entries = walk_active B fx1;
        i0 \<leftarrow> index_at entries 0;
        i13 \<leftarrow> index_at entries 13;
        if \<not> i0 < i13 then Some (False, fx1)
        else do {
          i26 \<leftarrow> index_at entries 26;
          Some (i13 < i26, fx1)
        }
      })"

text \<open>A test with its \<open>TearDown\<close>, and the tests in the order of the file, each with 32 clock readings.\<close>

definition run_test :: "('c, 's) test \<Rightarrow> ('c, 's) test" where
  "run_test body B clk fx =
     do {
       (ok, fx1) \<leftarrow> body B clk fx;
       fx2 \<leftarrow> TearDown B clk 16 fx1;
       Some (ok, fx2)
     }"

fun run_tests ::
  "('c, 's) test list \<Rightarrow> ('c, 's) test_bed \<Rightarrow> clock \<Rightarrow> ('c, 's) tables \<Rightarrow> (bool list \<times> ('c, 's) tables) option" where
  "run_tests [] B clk fx = Some ([], fx)"
| "run_tests (t # ts) B clk fx =
     do {
       (ok, fx1) \<leftarrow> run_test t B clk fx;
       (oks, fx2) \<leftarrow> run_tests ts B (\<lambda>i. clk (32 + i)) fx1;
       Some (ok # oks, fx2)
     }"

definition all_tests :: "('c, 's) test list" where
  "all_tests =
     [test_ModelTable, test_ituAlarmTable, test_ActiveTableMultipleAlarms, test_ActiveTableRepeatAlarm,
      test_ActiveTableClearingUnraisedAlarm, test_ActiveTableSameAlarmDifferentSeverities,
      test_ActiveTableIndexTimeStamp, test_AlarmTableIndexSize, test_AlarmTableAlarmsIndex]"

section \<open>Splitting what the client printed\<close>

lemma split_on_nonempty [simp]: "split_on c s \<noteq> []"
  by (induction s) (auto split: list.splits)

lemma split_on_append:
  "c \<notin> set t \<Longrightarrow> split_on c (t @ s) = (t @ hd (split_on c s)) # tl (split_on c s)"
  by (induction t) auto

lemma show_dec_no_sep: "\<not> isdigit c \<Longrightarrow> c \<notin> set (show_dec n)"
  using show_dec_digits [of n] by (auto simp: list_all_iff)

lemma not_digit [simp]: "\<not> isdigit CHR ''.''" "\<not> isdigit CHR '' ''"
  by (simp_all add: isdigit_def)

text \<open>The non-empty fields between the dots of a printed identifier.\<close>

abbreviation fields :: "char \<Rightarrow> string \<Rightarrow> string list" where
  "fields c s \<equiv> filter (\<lambda>t. t \<noteq> []) (split_on c s)"

lemma fields_Cons_sep [simp]: "fields c (c # s) = fields c s"
  by simp

lemma fields_to_string:
  "fields CHR ''.'' (to_string (ids @ [x]) @ s) =
     map (\<lambda>y. show_dec (unat y)) ids @ (show_dec (unat x) @ hd (split_on CHR ''.'' s)) # filter (\<lambda>t. t \<noteq> []) (tl (split_on CHR ''.'' s))"
proof (induction ids)
  case Nil
  then show ?case
    by (simp add: to_string_def split_on_append [OF show_dec_no_sep])
next
  case (Cons y ids)
  have sep: "hd (split_on CHR ''.'' (to_string (ids @ [x]) @ s)) = []"
    by (cases ids) (simp_all add: to_string_def)
  have "fields CHR ''.'' (to_string ((y # ids) @ [x]) @ s) =
      show_dec (unat y) # filter (\<lambda>t. t \<noteq> []) (tl (split_on CHR ''.'' (to_string (ids @ [x]) @ s)))"
    using sep by (simp add: to_string_def split_on_append [OF show_dec_no_sep])
  also have "filter (\<lambda>t. t \<noteq> []) (tl (split_on CHR ''.'' (to_string (ids @ [x]) @ s))) =
      fields CHR ''.'' (to_string (ids @ [x]) @ s)"
    using sep by (cases "split_on CHR ''.'' (to_string (ids @ [x]) @ s)") auto
  finally show ?case using Cons by simp
qed

text \<open>The first field of a number before a blank.\<close>

lemma fields_blank: "fields CHR '' '' (show_dec n @ CHR '' '' # s) = show_dec n # fields CHR '' '' s"
  by (simp add: split_on_append [OF show_dec_no_sep])

lemma parse_dotted_to_string: "parse_dotted (dotted ids) = ids"
proof (cases ids rule: rev_cases)
  case Nil
  then show ?thesis by (simp add: parse_dotted_def dotted_def to_string_def)
next
  case (snoc xs x)
  obtain s where s: "to_string ids = CHR ''.'' # s" using snoc by (cases xs) (auto simp: to_string_def)
  have "fields CHR ''.'' s = fields CHR ''.'' (to_string ids @ [])" by (simp add: s)
  also have "\<dots> = map (\<lambda>y. show_dec (unat y)) ids" unfolding snoc fields_to_string by simp
  finally show ?thesis by (simp add: parse_dotted_def dotted_def s comp_def)
qed

interpretation reference_client: snmp_client reference_client
  by unfold_locales (simp_all add: reference_client_def parse_dotted_to_string)

lemma digit_chars:
  "digit_char 0 = CHR ''0''" "digit_char (Suc 0) = CHR ''1''" "digit_char 2 = CHR ''2''" "digit_char 3 = CHR ''3''"
  "digit_char 4 = CHR ''4''" "digit_char 5 = CHR ''5''" "digit_char 6 = CHR ''6''" "digit_char 7 = CHR ''7''"
  "digit_char 8 = CHR ''8''" "digit_char 9 = CHR ''9''"
  by code_simp+

lemmas print_simps = dotted_def to_string_def show_dec.simps digit_chars

lemma walk_table_string: "alarmActiveTable_table = dotted alarmActiveTable_oid"
  by (simp add: alarmActiveTable_table_def alarmActiveTable_oid_def print_simps)

text \<open>Finding a string in another.\<close>

lemma contains_string_append: "contains_string (xs @ t @ ys) t"
  unfolding contains_string_def list_ex_iff by (intro bexI [of _ "length xs"]) simp_all

lemma contains_string_iff: "contains_string s t \<longleftrightarrow> (\<exists>xs ys. s = xs @ t @ ys)"
proof
  assume "contains_string s t"
  then obtain i where i: "take (length t) (drop i s) = t"
    by (auto simp: contains_string_def list_ex_iff)
  have "s = take i s @ take (length t) (drop i s) @ drop (length t) (drop i s)"
    by (simp only: append_take_drop_id)
  with i show "\<exists>xs ys. s = xs @ t @ ys" by metis
qed (auto simp: contains_string_append)

lemma contains_string_extend: "contains_string s t \<Longrightarrow> contains_string (xs @ s @ ys) t"
  by (auto simp: contains_string_iff) (metis append_assoc)

section \<open>Reading an instance of a static table\<close>

lemma row_instances_set:
  "(k, v) \<in> set (row_instances reg get_value row col) \<longleftrightarrow>
     get_value (snd row) col = GotValue v \<and> k = reg_oid reg @ [1, of_nat col] @ fst row"
  by (auto simp: row_instances_def split: get_result.split)

lemma table_instances_set:
  "(k, v) \<in> set (table_instances reg get_value rs) \<longleftrightarrow>
     (\<exists>i d col. (i, d) \<in> set rs \<and> min_column reg \<le> col \<and> col \<le> max_column reg \<and>
        get_value d col = GotValue v \<and> k = reg_oid reg @ [1, of_nat col] @ i)"
proof -
  have "(k, v) \<in> set (table_instances reg get_value rs) \<longleftrightarrow>
      (\<exists>row \<in> set rs. \<exists>col \<in> {min_column reg..max_column reg}. (k, v) \<in> set (row_instances reg get_value row col))"
    by (simp add: table_instances_def atLeastLessThanSuc_atLeastAtMost del: upt_Suc)
  then show ?thesis
    unfolding row_instances_set Bex_def split_paired_Ex atLeastAtMost_iff fst_conv snd_conv by blast
qed

lemma of_nat_column_inj: "(of_nat a :: u64) = of_nat b \<Longrightarrow> a < 2 ^ 64 \<Longrightarrow> b < 2 ^ 64 \<Longrightarrow> a = b"
  by (simp add: word_of_nat_eq_iff take_bit_nat_eq_self)

lemma map_of_table_instances:
  assumes "(i, d) \<in> set rs" and "\<And>i d d'. (i, d) \<in> set rs \<Longrightarrow> (i, d') \<in> set rs \<Longrightarrow> d = d'"
    and "min_column reg \<le> col" and "col \<le> max_column reg" and "max_column reg < 2 ^ 64"
    and "get_value d col = GotValue v"
  shows "map_of (table_instances reg get_value rs) (reg_oid reg @ [1, of_nat col] @ i) = Some v"
proof -
  let ?k = "reg_oid reg @ [1, of_nat col] @ i" and ?m = "table_instances reg get_value rs"
  have "(?k, v) \<in> set ?m"
    unfolding table_instances_set by (intro exI conjI) (rule assms(1,3,4,6) refl)+
  moreover have "w = v" if "(?k, w) \<in> set ?m" for w
  proof -
    from that obtain d' col' where w: "(i, d') \<in> set rs" "get_value d' col' = GotValue w" "col' \<le> max_column reg"
      "(of_nat col' :: u64) = of_nat col"
      unfolding table_instances_set by auto
    then have "col' = col" using assms(4,5) by (intro of_nat_column_inj) simp_all
    moreover have "d' = d" by (rule assms(2) [OF w(1) assms(1)])
    ultimately show ?thesis using w(2) assms(6) by simp
  qed
  ultimately show ?thesis by (rule map_of_functional)
qed

end
