(* ===== verification/Table_Tests_Pass.thy ===== *)
theory Table_Tests_Pass
  imports Table_Tests
begin

text \<open>
  The nine tests of \<open>src/ut/alarm_tables_testing.cpp\<close> pass: each is followed through the
  reference list of raised alarms of \<open>Table_Walk\<close>, from an empty active table to its
  \<open>TearDown\<close>.
\<close>

section \<open>The tests pass\<close>

text \<open>The alarms of the fixture: index, severity and the texts that the tests look for.\<close>

lemmas setup_select = SetUp_def Let_def CustomDefs.select_convs mk_AlarmTableDef_simps

lemma setup_index [simp]:
  "alarm_index (def_cleared (SetUp e)) = 6666"
  "alarm_index (def_raised (SetUp e)) = 6666"
  "alarm_index (def1_cleared (SetUp e)) = 6666"
  "alarm_index (def1_raised (SetUp e)) = 6666"
  "alarm_index (def2_cleared (SetUp e)) = 6667"
  "alarm_index (def2_raised (SetUp e)) = 6667"
  "alarm_index (def3_cleared (SetUp e)) = 6668"
  "alarm_index (def3_raised (SetUp e)) = 6668"
  "alarm_index (def4_cleared (SetUp e)) = 6669"
  "alarm_index (def4_raised (SetUp e)) = 6669"
  "alarm_index (def5_cleared (SetUp e)) = 6670"
  "alarm_index (def5_raised (SetUp e)) = 6670"
  "alarm_index (def6_cleared (SetUp e)) = 6666"
  "alarm_index (def_raised_critical (SetUp e)) = 6666"
  "alarm_index (def_raised_major (SetUp e)) = 6666"
  by (simp_all only: setup_select AlarmDefinition.select_convs)

lemma setup_severity [simp]:
  "severity (def_cleared (SetUp e)) = CLEARED"
  "severity (def_raised (SetUp e)) = CRITICAL"
  "severity (def1_cleared (SetUp e)) = CLEARED"
  "severity (def1_raised (SetUp e)) = CRITICAL"
  "severity (def2_cleared (SetUp e)) = CLEARED"
  "severity (def2_raised (SetUp e)) = CRITICAL"
  "severity (def3_cleared (SetUp e)) = CLEARED"
  "severity (def3_raised (SetUp e)) = CRITICAL"
  "severity (def4_cleared (SetUp e)) = CLEARED"
  "severity (def4_raised (SetUp e)) = CRITICAL"
  "severity (def5_cleared (SetUp e)) = CLEARED"
  "severity (def5_raised (SetUp e)) = CRITICAL"
  "severity (def6_cleared (SetUp e)) = CLEARED"
  "severity (def_raised_critical (SetUp e)) = CRITICAL"
  "severity (def_raised_major (SetUp e)) = MAJOR"
  by (simp_all only: setup_select SeverityDetails.select_convs test_details_def)

lemma setup_texts [simp]:
  "description (def_cleared (SetUp e)) = ''Test alarm cleared description''"
  "description (def_raised (SetUp e)) = ''Test alarm raised description''"
  "description (def_raised_major (SetUp e)) = ''Test alarm major raised description''"
  "details (def_cleared (SetUp e)) = ''Test alarm cleared details''"
  "details (def_raised (SetUp e)) = ''Test alarm raised details''"
  "alarm_cause (def_cleared (SetUp e)) = e" "alarm_cause (def_raised (SetUp e)) = e"
  by (simp_all only: SetUp_def Let_def CustomDefs.select_convs mk_AlarmTableDef_def description_def details_def alarm_cause_def
      AlarmTableDef.select_convs AlarmDefinition.select_convs SeverityDetails.select_convs test_details_def append.simps)

lemma two_defs_enumerated:
  "all_definitions (two_defs (SetUp e)) = [def_cleared (SetUp e), def_raised (SetUp e)]"
  by (simp add: all_definitions_def two_defs_def new_AlarmTableDefs_def insert_def_def def_key_def
      AlarmTableDefKey_less_def)

text \<open>The identifiers that the tests of the static tables ask for.\<close>

lemma model_queries:
  "alarmModelTable_entry @ ''.'' @ model_description @ ''.0.6666.'' @ str_cleared =
     dotted (reg_oid alarmModelTable_reg @ [1, of_nat 6] @ [0, 6666, 1])"
  "alarmModelTable_entry @ ''.'' @ model_description @ ''.0.6666.'' @ str_state_raised =
     dotted (reg_oid alarmModelTable_reg @ [1, of_nat 6] @ [0, 6666, 6])"
  "alarmModelTable_entry @ ''.'' @ model_notification @ ''.0.6666.'' @ str_cleared =
     dotted (reg_oid alarmModelTable_reg @ [1, of_nat 3] @ [0, 6666, 1])"
  "alarmModelTable_entry @ ''.'' @ model_notification @ ''.0.6666.'' @ str_state_raised =
     dotted (reg_oid alarmModelTable_reg @ [1, of_nat 3] @ [0, 6666, 6])"
  by (simp_all add: test_strings print_simps std_to_string_def alarmModelTable_reg_def alarmModelTable_oid_def column_consts)

lemma itu_queries:
  "ituAlarmTable_entry @ ''.'' @ itu_details @ ''.0.6666.'' @ str_cleared =
     dotted (reg_oid ituAlarmTable_reg @ [1, of_nat 4] @ [0, 6666, 1])"
  "ituAlarmTable_entry @ ''.'' @ itu_details @ ''.0.6666.'' @ str_severity_raised =
     dotted (reg_oid ituAlarmTable_reg @ [1, of_nat 4] @ [0, 6666, 3])"
  "ituAlarmTable_entry @ ''.'' @ itu_cause @ ''.0.6666.'' @ str_cleared =
     dotted (reg_oid ituAlarmTable_reg @ [1, of_nat 3] @ [0, 6666, 1])"
  "ituAlarmTable_entry @ ''.'' @ itu_cause @ ''.0.6666.'' @ str_severity_raised =
     dotted (reg_oid ituAlarmTable_reg @ [1, of_nat 3] @ [0, 6666, 3])"
  by (simp_all add: test_strings print_simps std_to_string_def ituAlarmTable_reg_def ituAlarmTable_oid_def column_consts)

locale table_test_bed = table_host "tb_env B" "tb_rows B" n
  for B :: "('c, 's) test_bed" and n :: nat +
  assumes static_rows: "iterable_container (tb_static B) (tb_static_rows B)"
    and client: "snmp_client (tb_client B)"
    and software_error: "tb_software_error B = 163"
    and room: "10 \<le> n"
begin

lemma static_get:
  assumes "container st = Some c" and "c_find (tb_static B) i c = Some d"
    and "min_column reg \<le> col" and "col \<le> max_column reg" and "max_column reg < 2 ^ 64"
    and "get_value d col = GotValue v"
  shows "map_of (static_instances reg get_value (tb_static_rows B) st) (reg_oid reg @ [1, of_nat col] @ i) = Some v"
proof -
  note rows = iterable_container.rows_iff [OF static_rows]
  have "map_of (table_instances reg get_value (tb_static_rows B c)) (reg_oid reg @ [1, of_nat col] @ i) = Some v"
    using assms(2-6) by (intro map_of_table_instances) (simp_all add: rows)
  with assms(1) show ?thesis by (simp add: static_instances_def)
qed

lemmas container_laws =
  netsnmp_container.find_insert [OF iterable_container.axioms(1) [OF static_rows]]
  netsnmp_container.find_new [OF iterable_container.axioms(1) [OF static_rows]]

lemma model_rows:
  assumes "container st = Some (c_new (tb_static B))"
  defines "f \<equiv> SetUp 163"
  obtains c where "container (alarmModelTable_insert_defs (ae_build_oid (tb_env B)) (tb_static B) (\<lambda>_. True) (two_defs f) st) = Some c"
    and "c_find (tb_static B) [0, 6666, 1] c = Some (def_cleared f)"
    and "c_find (tb_static B) [0, 6666, 6] c = Some (def_raised f)"
proof -
  have defs: "all_definitions (two_defs f) = [def_cleared f, def_raised f]"
    by (simp only: f_def two_defs_enumerated)
  have "model_row_key (def_cleared f) = [0, 6666, 1]" "model_row_key (def_raised f) = [0, 6666, 6]"
    by (simp_all add: model_row_key_def state_cases f_def)
  then show thesis
    using that assms(1)
    by (simp add: alarmModelTable_insert_defs_def model_create_row [OF build_oid] defs container_laws)
qed

lemma itu_rows:
  assumes "container st = Some (c_new (tb_static B))"
  defines "f \<equiv> SetUp 163"
  obtains c where "container (ituAlarmTable_insert_defs (ae_build_oid (tb_env B)) (tb_static B) (\<lambda>_. True) (two_defs f) st) = Some c"
    and "c_find (tb_static B) [0, 6666, 1] c = Some (def_cleared f)"
    and "c_find (tb_static B) [0, 6666, 3] c = Some (def_raised f)"
proof -
  have defs: "all_definitions (two_defs f) = [def_cleared f, def_raised f]"
    by (simp only: f_def two_defs_enumerated)
  have "itu_row_key (def_cleared f) = [0, 6666, 1]" "itu_row_key (def_raised f) = [0, 6666, 3]"
    by (simp_all add: itu_row_key_def f_def)
  then show thesis
    using that assms(1)
    by (simp add: ituAlarmTable_insert_defs_def itu_create_row [OF build_oid] defs container_laws)
qed

lemma model_test_passes:
  assumes "container (model_table fx) = Some (c_new (tb_static B))"
  shows "\<exists>fx'. test_ModelTable B clk fx = Some (True, fx') \<and>
    itu_table fx' = itu_table fx \<and> active_table fx' = active_table fx"
proof -
  let ?f = "SetUp 163"
  let ?st = "alarmModelTable_insert_defs (ae_build_oid (tb_env B)) (tb_static B) (\<lambda>_. True) (two_defs ?f) (model_table fx)"
  let ?m = "static_instances alarmModelTable_reg alarmModelTable_get_value (tb_static_rows B) ?st"
  obtain c where c: "container ?st = Some c" "c_find (tb_static B) [0, 6666, 1] c = Some (def_cleared ?f)"
    "c_find (tb_static B) [0, 6666, 6] c = Some (def_raised ?f)"
    by (rule model_rows [OF assms])
  have get: "tc_get_raw (tb_client B) ?m (dotted (reg_oid alarmModelTable_reg @ [1, of_nat col] @ i)) = value_text v @ [newline]"
    if "c_find (tb_static B) i c = Some d" "alarmModelTable_get_value d col = GotValue v" "3 \<le> col" "col \<le> 10"
      "length (value_text v) < 1023" for i d col v
    by (rule snmp_client.client_get_raw [OF client static_get [OF c(1) that(1)]])
      (use that in \<open>simp_all add: alarmModelTable_reg_def column_consts\<close>)
  note cleared = get [OF c(2)] and raised = get [OF c(3)]
  have "alarmModelTable_get_value (def_cleared ?f) 6 = GotValue (ASN_OCTET_STR ''Test alarm cleared description'')"
    "alarmModelTable_get_value (def_raised ?f) 6 = GotValue (ASN_OCTET_STR ''Test alarm raised description'')"
    "alarmModelTable_get_value (def_cleared ?f) 3 = GotValue (ASN_OBJECT_ID alarm_clear_state_oid)"
    "alarmModelTable_get_value (def_raised ?f) 3 = GotValue (ASN_OBJECT_ID alarm_active_state_oid)"
    by (simp_all add: alarmModelTable_get_value_def column_consts)
  with cleared [of 6] raised [of 6] cleared [of 3] raised [of 3] show ?thesis
    unfolding test_ModelTable_def Let_def software_error model_queries
    by (simp add: oid_consts to_string_def show_dec.simps digit_chars)
qed

lemma itu_test_passes:
  assumes "container (itu_table fx) = Some (c_new (tb_static B))"
  shows "\<exists>fx'. test_ituAlarmTable B clk fx = Some (True, fx') \<and> active_table fx' = active_table fx"
proof -
  let ?f = "SetUp 163"
  let ?st = "ituAlarmTable_insert_defs (ae_build_oid (tb_env B)) (tb_static B) (\<lambda>_. True) (two_defs ?f) (itu_table fx)"
  let ?m = "static_instances ituAlarmTable_reg ituAlarmTable_get_value (tb_static_rows B) ?st"
  obtain c where c: "container ?st = Some c" "c_find (tb_static B) [0, 6666, 1] c = Some (def_cleared ?f)"
    "c_find (tb_static B) [0, 6666, 3] c = Some (def_raised ?f)"
    by (rule itu_rows [OF assms])
  have served: "map_of ?m (reg_oid ituAlarmTable_reg @ [1, of_nat col] @ i) = Some v"
    if "c_find (tb_static B) i c = Some d" "ituAlarmTable_get_value d col = GotValue v" "2 \<le> col" "col \<le> 5" for i d col v
    using that by (intro static_get [OF c(1)]) (simp_all add: ituAlarmTable_reg_def column_consts)
  have details_column: "ituAlarmTable_get_value d 4 = GotValue (ASN_OCTET_STR (details d))"
    and cause_column: "ituAlarmTable_get_value d 3 = GotValue (ASN_INTEGER (alarm_cause d))" for d
    by (simp_all add: ituAlarmTable_get_value_def column_consts)
  note get_raw = snmp_client.client_get_raw [OF client served [OF _ details_column]]
    and get = snmp_client.client_get [OF client served [OF _ cause_column]]
  show ?thesis
    using get_raw [OF c(2)] get_raw [OF c(3)] get [OF c(2)] get [OF c(3)]
    unfolding test_ituAlarmTable_def Let_def software_error itu_queries by simp
qed

end

text \<open>The active table after calls of the trap handler, the last of them before the clock reading \<open>i\<close>.\<close>

definition clock_monotone :: "clock \<Rightarrow> bool" where
  "clock_monotone clk \<longleftrightarrow> (\<forall>i j. i \<le> j \<longrightarrow> not_later (clk i) (clk j))"

definition tracked :: "('c, 's) test_bed \<Rightarrow> clock \<Rightarrow> nat \<Rightarrow> alarm_list \<Rightarrow> ('c, 's) tables \<Rightarrow> bool" where
  "tracked B clk i R fx \<longleftrightarrow>
     tracks (ae_container (tb_env B)) (active_table fx) R \<and> local_ip (active_table fx) = ''10.154.153.133'' \<and>
     (\<forall>r \<in> set (snd R). ra_time r \<in> clk ` {..<i})"

lemma timed_times: "t \<in> set (timed clk i ds) \<Longrightarrow> fst t \<in> clk ` {i..<i + length ds}"
  by (induction ds arbitrary: i) (force intro: image_eqI [where x = i])+

lemma length_timed [simp]: "length (timed clk i ds) = length ds"
  by (induction ds arbitrary: i) simp_all

lemma timed_sorted: "clock_monotone clk \<Longrightarrow> sorted_wrt not_later (map fst (timed clk i ds))"
proof (induction ds arbitrary: i)
  case Nil
  then show ?case by simp
next
  case (Cons d ds)
  have "not_later (clk i) (fst t)" if "t \<in> set (timed clk (Suc i) ds)" for t
    using timed_times [OF that] Cons.prems by (auto simp: clock_monotone_def)
  with Cons show ?case by auto
qed

lemma fold_notify_times:
  "r \<in> set (snd (fold notify ts R)) \<Longrightarrow> r \<in> set (snd R) \<or> ra_time r \<in> fst ` set ts"
proof (induction ts arbitrary: R)
  case Nil
  then show ?case by simp
next
  case (Cons t ts)
  obtain lt d where t: "t = (lt, d)" by (cases t)
  show ?case using Cons.IH [of "notify t R"] Cons.prems notify_times [of r lt d R] t by auto
qed

context table_test_bed
begin

lemma trap_calls_tracked:
  assumes "tracked B clk i R fx" and "clock_monotone clk" and "length (snd R) + length ds \<le> 10"
    and "unat (fst R) + length ds < unat UINT_MAX"
  shows "\<exists>fx'. trap_calls B clk i ds fx = Some fx' \<and> model_table fx' = model_table fx \<and>
    itu_table fx' = itu_table fx \<and> tracked B clk (i + length ds) (fold notify (timed clk i ds) R) fx'"
proof -
  have tr: "tracks (ae_container (tb_env B)) (active_table fx) R"
    and before: "ra_time r \<in> clk ` {..<i}" if "r \<in> set (snd R)" for r
    using assms(1) that by (auto simp: tracked_def)
  have "not_later (ra_time r) (fst t)" if "r \<in> set (snd R)" "t \<in> set (timed clk i ds)" for r t
    using before [OF that(1)] timed_times [OF that(2)] assms(2) by (auto simp: clock_monotone_def)
  with run_traps_tracks [OF _ _ _ timed_sorted [OF assms(2)], of "active_table fx" R i ds] assms room
  obtain st where st: "run_traps (tb_env B) (timed clk i ds) (active_table fx) = Some st"
    "tracks (ae_container (tb_env B)) st (fold notify (timed clk i ds) R)"
    "local_ip st = local_ip (active_table fx)"
    by (auto simp: tracked_def)
  have "ra_time r \<in> clk ` {..<i + length ds}" if "r \<in> set (snd (fold notify (timed clk i ds) R))" for r
    using fold_notify_times [OF that] before [of r] timed_times [of _ clk i ds] by fastforce
  with st assms(1) show ?thesis by (auto simp: trap_calls_def tracked_def)
qed

lemma walk_active_tracked:
  "tracked B clk i R fx \<Longrightarrow>
    walk_active B fx = map instance_text (walk_of_list ''10.154.153.133'' (snd R))"
  using walk_tracks [of "active_table fx" R] snmp_client.client_walk [OF client]
  by (simp add: walk_active_def walk_table_string tracked_def)

lemma walk_active_length: "tracked B clk i R fx \<Longrightarrow> length (walk_active B fx) = 11 * length (snd R)"
  by (simp add: walk_active_tracked length_walk_of_list)

lemma teardown_tracked:
  assumes "tracked B clk i R fx" and "clock_monotone clk" and "i \<le> 16" and "length (snd R) \<le> 3"
    and "unat (fst R) + 7 < unat UINT_MAX"
    and "\<forall>r \<in> set (snd R). alarm_index (ra_def r) \<in> {6666, 6667, 6668, 6669, 6670}"
  shows "\<exists>fx'. TearDown B clk 16 fx = Some fx' \<and> model_table fx' = model_table fx \<and>
    itu_table fx' = itu_table fx \<and> tracked B clk 32 (fst R, []) fx'"
proof -
  let ?f = "SetUp 163"
  let ?ds = "[def_cleared ?f, def1_cleared ?f, def2_cleared ?f, def3_cleared ?f, def4_cleared ?f,
            def5_cleared ?f, def6_cleared ?f]"
  obtain n rs where R: "R = (n, rs)" by (cases R)
  have "tracked B clk 16 R fx" using assms(1,3) by (fastforce simp: tracked_def)
  from trap_calls_tracked [OF this assms(2), of ?ds] assms(4,5) obtain fx' where
    fx': "trap_calls B clk 16 ?ds fx = Some fx'" "model_table fx' = model_table fx" "itu_table fx' = itu_table fx"
    "tracked B clk 23 (fold notify (timed clk 16 ?ds) R) fx'"
    by auto
  have "fold notify (timed clk 16 ?ds) R = (n, [])"
    using assms(6) by (simp add: R Let_def filter_empty_conv) 
  with fx' show ?thesis by (fastforce simp: TearDown_def software_error Let_def tracked_def R)
qed

end

section \<open>The entries of a walk\<close>

lemma nth_concat_map_uniform:
  "\<forall>x \<in> set xs. length (f x) = n \<Longrightarrow> i < length xs \<Longrightarrow> j < n \<Longrightarrow> concat (map f xs) ! (i * n + j) = f (xs ! i) ! j"
proof (induction xs arbitrary: i)
  case Nil
  then show ?case by simp
next
  case (Cons x xs)
  then show ?case by (cases i) (auto simp: nth_append)
qed

lemma length_alarm_column:
  assumes "4 \<le> col" and "col < 15"
  shows "length (concat (map (alarm_instance ip col) rs)) = length rs"
  by (induction rs) (simp_all add: length_alarm_instance [OF assms, simplified])

lemma walk_of_list_nth:
  assumes "c < 11" and "j < length rs"
  shows "walk_of_list ip rs ! (c * length rs + j) = hd (alarm_instance ip (4 + c) (rs ! j))"
proof -
  have "walk_of_list ip rs ! (c * length rs + j) = concat (map (alarm_instance ip ([4..<15] ! c)) rs) ! j"
    unfolding walk_of_list_def using assms
    by (intro nth_concat_map_uniform ballI length_alarm_column) (simp_all only: set_upt atLeastLessThan_iff length_upt)
  also have "[4..<15] ! c = 4 + c" using assms(1) by (intro nth_upt) simp
  also have "concat (map (alarm_instance ip (4 + c)) rs) ! j = alarm_instance ip (4 + c) (rs ! j) ! 0"
    using nth_concat_map_uniform [of rs "alarm_instance ip (4 + c)" 1 j 0] assms length_alarm_instance [of "4 + c" ip]
    by simp
  also have "\<dots> = hd (alarm_instance ip (4 + c) (rs ! j))"
    using length_alarm_instance [of "4 + c" ip "rs ! j"] assms(1) by (intro hd_conv_nth [symmetric]) auto
  finally show ?thesis .
qed

text \<open>The fields of an entry: 25 numbers, and the row number followed by the value.\<close>

lemma entry_fields:
  "fields CHR ''.'' (instance_text (alarmActiveTable_oid @ [1, col] @ active_row_key lt n, v)) =
     map (\<lambda>x. show_dec (unat x)) (alarmActiveTable_oid @ [1, col, 0, 11] @ time_key lt) @
     (show_dec (unat n) @ '' = '' @ hd (split_on CHR ''.'' (value_text v))) #
     filter (\<lambda>t. t \<noteq> []) (tl (split_on CHR ''.'' (value_text v)))"
proof -
  let ?ids = "alarmActiveTable_oid @ [1, col, 0, 11] @ time_key lt"
  have "instance_text (alarmActiveTable_oid @ [1, col] @ active_row_key lt n, v) =
      to_string (?ids @ [n]) @ '' = '' @ value_text v"
    by (simp add: instance_text_def row_key_time)
  moreover have "split_on CHR ''.'' ('' = '' @ s) = ('' = '' @ hd (split_on CHR ''.'' s)) # tl (split_on CHR ''.'' s)" for s
    by (rule split_on_append) simp
  ultimately show ?thesis by (simp only: fields_to_string list.sel)
qed

lemma index_of_entry:
  assumes "snmp_client T"
  shows "get_index_from_row T (instance_text (alarmActiveTable_oid @ [1, col] @ active_row_key lt n, v)) =
    Some (show_dec (unat n))"
proof -
  have "length (alarmActiveTable_oid @ [1, col, 0, 11] @ time_key lt) = 25"
    by (simp add: alarmActiveTable_oid_def)
  then have "vec_at (fields CHR ''.'' (instance_text (alarmActiveTable_oid @ [1, col] @ active_row_key lt n, v))) 25 =
      Some (show_dec (unat n) @ '' = '' @ hd (split_on CHR ''.'' (value_text v)))"
    unfolding entry_fields by (simp only: vec_at_Some_iff nth_append) simp
  then show ?thesis
    unfolding get_index_from_row_def snmp_client.client_split [OF assms]
    by (simp add: fields_blank vec_at_def)
qed

section \<open>The tests of the active table\<close>

text \<open>
  A test passes, from an empty table and with at most \<open>c\<close> rows created, and leaves the table
  empty again.
\<close>

definition passes :: "('c, 's) test_bed \<Rightarrow> nat \<Rightarrow> ('c, 's) test \<Rightarrow> clock \<Rightarrow> bool" where
  "passes B c t clk \<longleftrightarrow>
     (\<forall>fx k. tracked B clk 0 (k, []) fx \<longrightarrow> unat k + 32 < 2 ^ 31 \<longrightarrow>
        (\<exists>fx' k'. run_test t B clk fx = Some (True, fx') \<and> tracked B clk 32 (k', []) fx' \<and> unat k' \<le> unat k + c))"

lemma unat_add_le: "unat (a + b :: 'a::len word) \<le> unat a + unat b"
  by (simp add: unat_word_ariths)

text \<open>Its body passes, and leaves alarms that \<open>TearDown\<close> clears.\<close>

definition body_passes :: "('c, 's) test_bed \<Rightarrow> nat \<Rightarrow> ('c, 's) test \<Rightarrow> clock \<Rightarrow> ('c, 's) tables \<Rightarrow> u64 \<Rightarrow> bool" where
  "body_passes B c t clk fx k \<longleftrightarrow>
     (\<exists>fx' R i. t B clk fx = Some (True, fx') \<and> tracked B clk i R fx' \<and> i \<le> 16 \<and> length (snd R) \<le> 3 \<and>
        unat (fst R) \<le> unat k + c \<and> (\<forall>r \<in> set (snd R). alarm_index (ra_def r) \<in> {6666, 6667, 6668, 6669, 6670}))"

lemma body_passesI:
  assumes "tracked B clk i (k + of_nat c, rs) fx'" and "t B clk fx = Some (True, fx')" and "i \<le> 16" and "length rs \<le> 3"
    and "\<forall>r \<in> set rs. alarm_index (ra_def r) \<in> {6666, 6667, 6668, 6669, 6670}"
  shows "body_passes B c t clk fx k"
proof -
  have "unat (of_nat c :: u64) \<le> c" by (simp add: unsigned_of_nat take_bit_nat_less_eq_self)
  with unat_add_le [of k "of_nat c"] have "unat (k + of_nat c) \<le> unat k + c" by linarith
  with assms show ?thesis unfolding body_passes_def by fastforce
qed

lemma walk_of_list_Nil [simp]: "walk_of_list ip [] = []"
  using length_walk_of_list [of ip "[]"] by simp

abbreviation raised_at :: "clock \<Rightarrow> nat \<Rightarrow> u64 \<Rightarrow> AlarmTableDef \<Rightarrow> raised_alarm" where
  "raised_at clk i n d \<equiv> \<lparr>ra_serial = n, ra_time = clk i, ra_def = d\<rparr>"

context table_test_bed
begin

text \<open>A test body that leaves at most three alarms raised passes when its assertions hold.\<close>

lemma run_test_passes:
  assumes "clock_monotone clk"
    and "\<And>fx k. tracked B clk 0 (k, []) fx \<Longrightarrow> unat k + 32 < 2 ^ 31 \<Longrightarrow> body_passes B c t clk fx k"
    and "c \<le> 16"
  shows "passes B c t clk"
  unfolding passes_def
proof (intro allI impI)
  fix fx k assume k: "tracked B clk 0 (k, []) fx" "unat k + 32 < 2 ^ 31"
  from assms(2) [OF this] obtain fx1 R i where fx1: "t B clk fx = Some (True, fx1)" "tracked B clk i R fx1"
    "i \<le> 16" "length (snd R) \<le> 3" "unat (fst R) \<le> unat k + c"
    "\<forall>r \<in> set (snd R). alarm_index (ra_def r) \<in> {6666, 6667, 6668, 6669, 6670}"
    by (auto simp: body_passes_def simp del: insert_iff)
  have "unat (fst R) + 7 < unat UINT_MAX" using fx1(5) k(2) assms(3) by (simp add: UINT_MAX_def)
  from teardown_tracked [OF fx1(2) assms(1) fx1(3,4) this fx1(6)] fx1(1,5)
  show "\<exists>fx' k'. run_test t B clk fx = Some (True, fx') \<and> tracked B clk 32 (k', []) fx' \<and> unat k' \<le> unat k + c"
    by (auto simp: run_test_def)
qed

text \<open>The calls within a body, with the bound on the row number discharged.\<close>

lemma calls_tracked:
  assumes "clock_monotone clk" and "tracked B clk i R fx" and "unat (fst R) + 16 < 2 ^ 31" and "length (snd R) + length ds \<le> 10"
    and "fold notify (timed clk i ds) R = R'" and "i + length ds = j"
  shows "\<exists>fx'. trap_calls B clk i ds fx = Some fx' \<and> tracked B clk j R' fx'"
proof -
  have "unat (fst R) + length ds < unat UINT_MAX" using assms(3,4) by (simp add: UINT_MAX_def)
  from trap_calls_tracked [OF assms(2,1,4) this] assms(5,6) show ?thesis by auto
qed

lemma multiple_alarms_pass:
  assumes clk: "clock_monotone clk"
  shows "passes B 5 test_ActiveTableMultipleAlarms clk"
proof (rule run_test_passes [OF clk])
  fix fx k assume tr: "tracked B clk 0 (k, []) fx" and k: "unat k + 32 < 2 ^ 31"
  let ?f = "SetUp 163"
  let ?rs = "[raised_at clk 2 (k + 3) (def3_raised ?f), raised_at clk 4 (k + 4) (def4_raised ?f)]"
  have k5: "unat (k + 5) \<le> unat k + 5" using unat_add_le [of k 5] by simp
  have "\<exists>fx'. trap_calls B clk 0 [def1_raised ?f, def2_raised ?f, def3_raised ?f, def2_cleared ?f, def4_raised ?f,
      def5_raised ?f, def5_cleared ?f, def1_cleared ?f] fx = Some fx' \<and> tracked B clk 8 (k + 5, ?rs) fx'"
    using k by (intro calls_tracked [OF clk tr]) (simp_all add: Let_def flip: numeral_2_eq_2)
  then obtain fx1 where fx1: "trap_calls B clk 0 [def1_raised ?f, def2_raised ?f, def3_raised ?f, def2_cleared ?f,
      def4_raised ?f, def5_raised ?f, def5_cleared ?f, def1_cleared ?f] fx = Some fx1"
    and tr1: "tracked B clk 8 (k + 5, ?rs) fx1" by blast
  have "\<exists>fx'. trap_calls B clk 8 [def3_cleared ?f, def4_cleared ?f] fx1 = Some fx' \<and> tracked B clk 10 (k + 5, []) fx'"
    using k k5 by (intro calls_tracked [OF clk tr1]) (simp_all add: Let_def)
  then obtain fx2 where fx2: "trap_calls B clk 8 [def3_cleared ?f, def4_cleared ?f] fx1 = Some fx2"
    and tr2: "tracked B clk 10 (k + 5, []) fx2" by blast
  have "test_ActiveTableMultipleAlarms B clk fx = Some (True, fx2)"
    using fx1 fx2 walk_active_length [OF tr1] walk_active_length [OF tr2]
    by (simp add: test_ActiveTableMultipleAlarms_def software_error Let_def)
  then show "body_passes B 5 test_ActiveTableMultipleAlarms clk fx k"
    using tr2 by (intro body_passesI [where i = 10 and rs = "[]"]) simp_all
qed simp

lemma repeat_alarm_passes:
  assumes clk: "clock_monotone clk"
  shows "passes B 1 test_ActiveTableRepeatAlarm clk"
proof (rule run_test_passes [OF clk])
  fix fx k assume tr: "tracked B clk 0 (k, []) fx" and k: "unat k + 32 < 2 ^ 31"
  let ?f = "SetUp 163"
  have k1: "unat (k + 1) \<le> unat k + 1" using unat_add_le [of k 1] by simp
  have "\<exists>fx'. trap_calls B clk 0 [def_raised ?f, def_raised ?f] fx = Some fx' \<and>
      tracked B clk 2 (k + 1, [raised_at clk 0 (k + 1) (def_raised ?f)]) fx'"
    using k by (intro calls_tracked [OF clk tr]) (simp_all add: Let_def)
  then obtain fx1 where fx1: "trap_calls B clk 0 [def_raised ?f, def_raised ?f] fx = Some fx1"
    and tr1: "tracked B clk 2 (k + 1, [raised_at clk 0 (k + 1) (def_raised ?f)]) fx1" by blast
  have "\<exists>fx'. trap_calls B clk 2 [def_cleared ?f] fx1 = Some fx' \<and> tracked B clk 3 (k + 1, []) fx'"
    using k k1 by (intro calls_tracked [OF clk tr1]) (simp_all add: Let_def)
  then obtain fx2 where fx2: "trap_calls B clk 2 [def_cleared ?f] fx1 = Some fx2"
    and tr2: "tracked B clk 3 (k + 1, []) fx2" by blast
  have "test_ActiveTableRepeatAlarm B clk fx = Some (True, fx2)"
    using fx1 fx2 walk_active_length [OF tr1] walk_active_length [OF tr2]
    by (simp add: test_ActiveTableRepeatAlarm_def software_error Let_def)
  then show "body_passes B 1 test_ActiveTableRepeatAlarm clk fx k"
    using tr2 by (intro body_passesI [where i = 3 and rs = "[]"]) simp_all
qed simp

lemma clearing_unraised_passes:
  assumes clk: "clock_monotone clk"
  shows "passes B 0 test_ActiveTableClearingUnraisedAlarm clk"
proof (rule run_test_passes [OF clk])
  fix fx k assume tr: "tracked B clk 0 (k, []) fx" and k: "unat k + 32 < 2 ^ 31"
  have "\<exists>fx'. trap_calls B clk 0 [def_cleared (SetUp 163)] fx = Some fx' \<and> tracked B clk 1 (k, []) fx'"
    using k by (intro calls_tracked [OF clk tr]) (simp_all add: Let_def)
  then obtain fx1 where fx1: "trap_calls B clk 0 [def_cleared (SetUp 163)] fx = Some fx1"
    and tr1: "tracked B clk 1 (k, []) fx1" by blast
  have "test_ActiveTableClearingUnraisedAlarm B clk fx = Some (True, fx1)"
    using fx1 walk_active_length [OF tr1]
    by (simp add: test_ActiveTableClearingUnraisedAlarm_def software_error Let_def)
  then show "body_passes B 0 test_ActiveTableClearingUnraisedAlarm clk fx k"
    using tr1 by (intro body_passesI [where i = 1 and rs = "[]"]) simp_all
qed simp

text \<open>An entry of the walk: its place gives the column and the row.\<close>

lemma entry_at:
  assumes "tracked B clk i (k, rs) fx" and "c < 11" and "j < length rs"
    and "alarmActiveTable_get_value ''10.154.153.133'' (ra_def (rs ! j)) (4 + c) = GotValue v"
  shows "vec_at (walk_active B fx) (c * length rs + j) =
    Some (instance_text (alarmActiveTable_oid @ [1, of_nat (4 + c)] @ active_row_key (ra_time (rs ! j)) (ra_serial (rs ! j)), v))"
proof -
  let ?w = "walk_of_list ''10.154.153.133'' rs"
  have "c * length rs + j < 11 * length rs"
  proof -
    have "c * length rs + j < Suc c * length rs" using assms(3) by simp
    also have "\<dots> \<le> 11 * length rs" using assms(2) by (intro mult_le_mono1) simp
    finally show ?thesis .
  qed
  then have "vec_at (walk_active B fx) (c * length rs + j) = Some (instance_text (?w ! (c * length rs + j)))"
    by (simp add: walk_active_tracked [OF assms(1)] length_walk_of_list)
  also have "?w ! (c * length rs + j) =
      (alarmActiveTable_oid @ [1, of_nat (4 + c)] @ active_row_key (ra_time (rs ! j)) (ra_serial (rs ! j)), v)"
    unfolding walk_of_list_nth [OF assms(2,3)] alarm_instance_def row_instances_def
    using assms(4) by (simp add: alarmActiveTable_reg_def)
  finally show ?thesis .
qed

lemma same_alarm_passes:
  assumes clk: "clock_monotone clk"
  shows "passes B 2 test_ActiveTableSameAlarmDifferentSeverities clk"
proof (rule run_test_passes [OF clk])
  fix fx k assume tr: "tracked B clk 0 (k, []) fx" and k: "unat k + 32 < 2 ^ 31"
  let ?f = "SetUp 163" and ?d = "''Test alarm major raised description''"
  let ?rs = "[raised_at clk 1 (k + 2) (def_raised_major ?f)]"
  have k2: "unat (k + 2) \<le> unat k + 2" using unat_add_le [of k 2] by simp
  have "\<exists>fx'. trap_calls B clk 0 [def_raised_critical ?f, def_raised_major ?f] fx = Some fx' \<and>
      tracked B clk 2 (k + 2, ?rs) fx'"
    using k by (intro calls_tracked [OF clk tr]) (simp_all add: Let_def)
  then obtain fx1 where fx1: "trap_calls B clk 0 [def_raised_critical ?f, def_raised_major ?f] fx = Some fx1"
    and tr1: "tracked B clk 2 (k + 2, ?rs) fx1" by blast
  have "\<exists>fx'. trap_calls B clk 2 [def_cleared ?f] fx1 = Some fx' \<and> tracked B clk 3 (k + 2, []) fx'"
    using k k2 by (intro calls_tracked [OF clk tr1]) (simp_all add: Let_def)
  then obtain fx2 where fx2: "trap_calls B clk 2 [def_cleared ?f] fx1 = Some fx2"
    and tr2: "tracked B clk 3 (k + 2, []) fx2" by blast
  obtain o1 where entry: "vec_at (walk_active B fx1) 7 = Some (instance_text (o1, ASN_OCTET_STR ?d))"
    using entry_at [OF tr1, of 7 0 "ASN_OCTET_STR ?d"] by (simp add: alarmActiveTable_get_value_def column_consts)
  have "contains_string ((to_string o1 @ '' = '' @ [quote]) @ ?d @ [quote]) ?d" by (rule contains_string_append)
  then have "contains_string (instance_text (o1, ASN_OCTET_STR ?d)) ?d" by (simp add: instance_text_def)
  with fx1 fx2 entry walk_active_length [OF tr1] walk_active_length [OF tr2]
  have "test_ActiveTableSameAlarmDifferentSeverities B clk fx = Some (True, fx2)"
    by (simp add: test_ActiveTableSameAlarmDifferentSeverities_def software_error Let_def column_consts del: vec_at_Some_iff)
  then show "body_passes B 2 test_ActiveTableSameAlarmDifferentSeverities clk fx k"
    using tr2 by (intro body_passesI [where i = 3 and rs = "[]"]) simp_all
qed simp

lemma index_size_passes:
  assumes clk: "clock_monotone clk"
  shows "passes B 1 test_AlarmTableIndexSize clk"
proof (rule run_test_passes [OF clk])
  fix fx k assume tr: "tracked B clk 0 (k, []) fx" and k: "unat k + 32 < 2 ^ 31"
  let ?f = "SetUp 163"
  let ?rs = "[raised_at clk 0 (k + 1) (def1_raised ?f)]"
  have "\<exists>fx'. trap_calls B clk 0 [def1_raised ?f] fx = Some fx' \<and> tracked B clk 1 (k + 1, ?rs) fx'"
    using k by (intro calls_tracked [OF clk tr]) (simp_all add: Let_def)
  then obtain fx1 where fx1: "trap_calls B clk 0 [def1_raised ?f] fx = Some fx1"
    and tr1: "tracked B clk 1 (k + 1, ?rs) fx1" by blast
  let ?e = "instance_text (alarmActiveTable_oid @ [1, of_nat 4] @ active_row_key (clk 0) (k + 1), ASN_OCTET_STR [])"
  have entry: "vec_at (walk_active B fx1) 0 = Some ?e"
    using entry_at [OF tr1, of 0 0 "ASN_OCTET_STR []"] by (simp add: alarmActiveTable_get_value_def column_consts)
  have "26 = length (tc_split (tb_client B) ?e CHR ''.'')"
    unfolding snmp_client.client_split [OF client] entry_fields
    by (simp add: alarmActiveTable_oid_def quote_def)
  with fx1 entry have "test_AlarmTableIndexSize B clk fx = Some (True, fx1)"
    by (simp add: test_AlarmTableIndexSize_def software_error del: vec_at_Some_iff)
  then show "body_passes B 1 test_AlarmTableIndexSize clk fx k"
    using tr1 by (intro body_passesI [where i = 1 and rs = ?rs]) simp_all
qed simp

text \<open>Three alarms raised one after the other.\<close>

lemma three_raised:
  assumes "clock_monotone clk" and "tracked B clk 0 (k, []) fx" and "unat k + 32 < 2 ^ 31"
  defines "f \<equiv> SetUp 163"
  obtains fx1 where "trap_calls B clk 0 [def1_raised f, def2_raised f, def3_raised f] fx = Some fx1"
    and "tracked B clk 3 (k + 3, [raised_at clk 0 (k + 1) (def1_raised f), raised_at clk 1 (k + 2) (def2_raised f),
      raised_at clk 2 (k + 3) (def3_raised f)]) fx1"
proof -
  have "\<exists>fx'. trap_calls B clk 0 [def1_raised f, def2_raised f, def3_raised f] fx = Some fx' \<and>
      tracked B clk 3 (k + 3, [raised_at clk 0 (k + 1) (def1_raised f), raised_at clk 1 (k + 2) (def2_raised f),
        raised_at clk 2 (k + 3) (def3_raised f)]) fx'"
    using assms(3) by (intro calls_tracked [OF assms(1,2)]) (simp_all add: f_def Let_def flip: numeral_2_eq_2)
  with that show thesis by blast
qed

end

text \<open>The clock shows a date of the calendar, and the same one throughout.\<close>

definition one_day :: "clock \<Rightarrow> bool" where
  "one_day clk \<longleftrightarrow>
     (\<exists>day mon. 1 \<le> day \<and> day \<le> 31 \<and> 0 \<le> mon \<and> mon \<le> 11 \<and>
        (\<forall>i. tm_mday (clk i) = day \<and> tm_mon (clk i) = mon))"

lemma unat_octet: "0 \<le> i \<Longrightarrow> i < 256 \<Longrightarrow> unat (of_nat (unat (word_of_int i :: u8)) :: u64) = nat i"
  by (simp add: unsigned_of_nat unsigned_of_int take_bit_nat_eq_self take_bit_int_eq_self)

lemma sint_atoi_show_dec: "n < 2 ^ 31 \<Longrightarrow> sint (atoi (show_dec n)) = int n"
  by (simp add: atoi_show_dec sint_of_nat_i32)

lemma time_key_date:
  assumes "1 \<le> tm_mday lt" "tm_mday lt \<le> 31" "0 \<le> tm_mon lt" "tm_mon lt \<le> 11"
  shows "show_dec (unat (time_key lt ! 3)) = std_to_string (tm_mday lt)"
    and "show_dec (unat (time_key lt ! 2)) = std_to_string (1 + tm_mon lt)"
  using assms unat_octet [of "tm_mday lt"] unat_octet [of "1 + tm_mon lt"]
  by (simp_all add: time_key_def datetime_octets_def alarm_time_issued_def std_to_string_def)

context table_test_bed
begin

lemma time_stamp_passes:
  assumes clk: "clock_monotone clk" and day: "one_day clk"
  shows "passes B 3 test_ActiveTableIndexTimeStamp clk"
proof (rule run_test_passes [OF clk])
  fix fx k assume tr: "tracked B clk 0 (k, []) fx" and k: "unat k + 32 < 2 ^ 31"
  let ?f = "SetUp 163"
  let ?rs = "[raised_at clk 0 (k + 1) (def1_raised ?f), raised_at clk 1 (k + 2) (def2_raised ?f),
    raised_at clk 2 (k + 3) (def3_raised ?f)]"
  obtain fx1 where fx1: "trap_calls B clk 0 [def1_raised ?f, def2_raised ?f, def3_raised ?f] fx = Some fx1"
    and tr1: "tracked B clk 3 (k + 3, ?rs) fx1" by (rule three_raised [OF clk tr k])
  let ?e = "instance_text (alarmActiveTable_oid @ [1, of_nat 4] @ active_row_key (clk 0) (k + 1), ASN_OCTET_STR [])"
  have entry: "vec_at (walk_active B fx1) 0 = Some ?e"
    using entry_at [OF tr1, of 0 0 "ASN_OCTET_STR []"] by (simp add: alarmActiveTable_get_value_def column_consts)
  have at: "vec_at (fields CHR ''.'' ?e) (14 + i) = Some (show_dec (unat (time_key (clk 0) ! i)))" if "i < 11" for i
    unfolding entry_fields using that by (simp add: alarmActiveTable_oid_def nth_append)
  have same: "tm_mday (clk 3) = tm_mday (clk 0)" "tm_mon (clk 3) = tm_mon (clk 0)"
    using day by (auto simp: one_day_def)
  have "1 \<le> tm_mday (clk 0)" "tm_mday (clk 0) \<le> 31" "0 \<le> tm_mon (clk 0)" "tm_mon (clk 0) \<le> 11"
    using day by (auto simp: one_day_def)
  note date = time_key_date [OF this]
  have "vec_at (fields CHR ''.'' ?e) 17 = Some (std_to_string (tm_mday (clk 3)))"
    "vec_at (fields CHR ''.'' ?e) 16 = Some (std_to_string (1 + tm_mon (clk 3)))"
    using at [of 3] at [of 2] by (simp_all add: same date)
  with fx1 entry have "test_ActiveTableIndexTimeStamp B clk fx = Some (True, fx1)"
    by (simp add: test_ActiveTableIndexTimeStamp_def software_error snmp_client.client_split [OF client] Let_def
        del: vec_at_Some_iff)
  then show "body_passes B 3 test_ActiveTableIndexTimeStamp clk fx k"
    using tr1 by (intro body_passesI [where i = 3 and rs = ?rs]) simp_all
qed simp

lemma index_at:
  assumes "tracked B clk i (k, rs) fx" and "c < 11" and "j < length rs" and "unat (ra_serial (rs ! j)) < 2 ^ 31"
  shows "read_index (tb_client B) (walk_active B fx) (c * length rs + j) = Some (int (unat (ra_serial (rs ! j))))"
proof -
  obtain v where v: "alarmActiveTable_get_value ''10.154.153.133'' (ra_def (rs ! j)) (4 + c) = GotValue v"
    using active_table.served [of "4 + c"] assms(2)
    by (auto simp: alarmActiveTable_reg_def alarmActiveTable_COL_MIN_def alarmActiveTable_COL_MAX_def)
  show ?thesis
    unfolding read_index_def entry_at [OF assms(1-3) v]
    by (simp only: bind.bind_lunit index_of_entry [OF client] sint_atoi_show_dec [OF assms(4)])
qed

lemma alarms_index_passes:
  assumes clk: "clock_monotone clk"
  shows "passes B 3 test_AlarmTableAlarmsIndex clk"
proof (rule run_test_passes [OF clk])
  fix fx k assume tr: "tracked B clk 0 (k, []) fx" and k: "unat k + 32 < 2 ^ 31"
  let ?f = "SetUp 163"
  let ?rs = "[raised_at clk 0 (k + 1) (def1_raised ?f), raised_at clk 1 (k + 2) (def2_raised ?f),
    raised_at clk 2 (k + 3) (def3_raised ?f)]"
  obtain fx1 where fx1: "trap_calls B clk 0 [def1_raised ?f, def2_raised ?f, def3_raised ?f] fx = Some fx1"
    and tr1: "tracked B clk 3 (k + 3, ?rs) fx1" by (rule three_raised [OF clk tr k])
  have "unat (k + 1) = unat k + 1" "unat (k + 2) = unat k + 2" "unat (k + 3) = unat k + 3"
    using k by (simp_all add: unat_word_ariths)
  with index_at [OF tr1, of 0 0] index_at [OF tr1, of 4 1] index_at [OF tr1, of 8 2] k
  have index: "read_index (tb_client B) (walk_active B fx1) 0 = Some (int (unat k + 1))" "read_index (tb_client B) (walk_active B fx1) 13 = Some (int (unat k + 2))"
    "read_index (tb_client B) (walk_active B fx1) 26 = Some (int (unat k + 3))"
    by simp_all
  have "test_AlarmTableAlarmsIndex B clk fx = Some (True, fx1)"
    using fx1 index by (simp add: test_AlarmTableAlarmsIndex_def software_error Let_def)
  then show "body_passes B 3 test_AlarmTableAlarmsIndex clk fx k"
    using tr1 by (intro body_passesI [where i = 3 and rs = ?rs]) simp_all
qed simp

text \<open>From one test to the next.\<close>

lemma tracked_next: "tracked B clk 32 (k, []) fx \<Longrightarrow> tracked B (\<lambda>i. clk (32 + i)) 0 (k, []) fx"
  by (simp add: tracked_def)

lemma run_tests_pass:
  assumes "list_all2 (\<lambda>c t. \<forall>clk. clock_monotone clk \<longrightarrow> one_day clk \<longrightarrow> passes B c t clk) cs ts"
  shows "tracked B clk 0 (k, []) fx \<Longrightarrow> unat k + sum_list cs + 32 < 2 ^ 31 \<Longrightarrow> clock_monotone clk \<Longrightarrow> one_day clk \<Longrightarrow>
    \<exists>fx' k' clk'. run_tests ts B clk fx = Some (replicate (length ts) True, fx') \<and> tracked B clk' 0 (k', []) fx'"
  using assms
proof (induction arbitrary: clk k fx rule: list_all2_induct)
  case Nil
  then show ?case by auto
next
  case (Cons c cs t ts)
  from Cons.hyps(1) Cons.prems obtain fx1 k1 where fx1: "run_test t B clk fx = Some (True, fx1)"
    "tracked B clk 32 (k1, []) fx1" "unat k1 \<le> unat k + c"
    by (fastforce simp: passes_def)
  have "clock_monotone (\<lambda>i. clk (32 + i))" using Cons.prems(3) by (simp add: clock_monotone_def)
  moreover have "one_day (\<lambda>i. clk (32 + i))" using Cons.prems(4) by (auto simp: one_day_def)
  moreover have "unat k1 + sum_list cs + 32 < 2 ^ 31" using fx1(3) Cons.prems(2) by simp
  ultimately show ?case using Cons.IH [OF tracked_next [OF fx1(2)]] fx1(1) by fastforce
qed

lemma active_tests_pass:
  assumes "clock_monotone clk" and "one_day clk" and "tracked B clk 0 (0, []) fx" and "j \<le> 7"
  shows "\<exists>fx'. run_tests (take j (drop 2 all_tests)) B clk fx = Some (replicate j True, fx') \<and> walk_active B fx' = []"
proof -
  let ?cs = "[5, 1, 0, 2, 3, 1, 3] :: nat list"
  have "list_all2 (\<lambda>c t. \<forall>clk. clock_monotone clk \<longrightarrow> one_day clk \<longrightarrow> passes B c t clk) ?cs (drop 2 all_tests)"
    using multiple_alarms_pass repeat_alarm_passes clearing_unraised_passes same_alarm_passes time_stamp_passes
      index_size_passes alarms_index_passes
    by (simp add: all_tests_def)
  then have "list_all2 (\<lambda>c t. \<forall>clk. clock_monotone clk \<longrightarrow> one_day clk \<longrightarrow> passes B c t clk)
      (take j ?cs) (take j (drop 2 all_tests))"
    by (rule list_all2_takeI)
  moreover have "sum_list (take j ?cs) \<le> sum_list ?cs"
    using sum_list_append [of "take j ?cs" "drop j ?cs"] by (simp only: append_take_drop_id)
  moreover have "length (take j (drop 2 (all_tests :: ('c, 's) test list))) = j" using assms(4) by (simp add: all_tests_def)
  ultimately obtain fx' k' clk' where "run_tests (take j (drop 2 all_tests)) B clk fx = Some (replicate j True, fx')"
    "tracked B clk' 0 (k', []) fx'"
    using run_tests_pass [OF _ assms(3) _ assms(1,2), of "take j ?cs" "take j (drop 2 all_tests)"] by auto
  then show ?thesis using walk_active_length by fastforce
qed

text \<open>The two tests of the static tables leave the active table alone.\<close>

lemma static_tests_pass:
  assumes clk: "clock_monotone clk" and model: "container (model_table fx) = Some (c_new (tb_static B))"
    and itu: "container (itu_table fx) = Some (c_new (tb_static B))" and tr: "tracked B clk 0 (0, []) fx"
  shows "\<exists>fx1 fx2. run_test test_ModelTable B clk fx = Some (True, fx1) \<and> walk_active B fx1 = [] \<and>
    run_test test_ituAlarmTable B (\<lambda>i. clk (32 + i)) fx1 = Some (True, fx2) \<and>
    tracked B (\<lambda>i. clk (32 + (32 + i))) 0 (0, []) fx2"
proof -
  let ?clk1 = "\<lambda>i. clk (32 + i)"
  have clk1: "clock_monotone ?clk1" using clk by (simp add: clock_monotone_def)
  have start: "unat (fst (0, []) :: u64) + 7 < unat UINT_MAX" by (simp add: UINT_MAX_def)
  obtain fx1 where fx1: "test_ModelTable B clk fx = Some (True, fx1)" "itu_table fx1 = itu_table fx"
    "active_table fx1 = active_table fx"
    using model_test_passes [OF model] by blast
  then have "tracked B clk 0 (0, []) fx1" using tr by (simp add: tracked_def)
  from teardown_tracked [OF this clk] start obtain fx2 where fx2: "TearDown B clk 16 fx1 = Some fx2"
    "itu_table fx2 = itu_table fx1" "tracked B clk 32 (0, []) fx2"
    by auto
  obtain fx3 where fx3: "test_ituAlarmTable B ?clk1 fx2 = Some (True, fx3)" "active_table fx3 = active_table fx2"
    using itu_test_passes [of fx2 ?clk1] itu fx1(2) fx2(2) by auto
  then have "tracked B ?clk1 0 (0, []) fx3" using tracked_next [OF fx2(3)] by (simp add: tracked_def)
  from teardown_tracked [OF this clk1] start obtain fx4 where fx4: "TearDown B ?clk1 16 fx3 = Some fx4"
    "tracked B ?clk1 32 (0, []) fx4"
    by auto
  from fx1(1) fx2(1) fx3(1) fx4(1) tracked_next [OF fx4(2)] walk_active_length [OF fx2(3)] show ?thesis
    by (simp add: run_test_def)
qed

end

section \<open>Properties\<close>

definition fresh_tables :: "('c, 's) tables" where
  "fresh_tables = \<lparr>model_table = fresh_table, itu_table = fresh_table, active_table = fresh_active\<rparr>"

lemma all_tests_split: "all_tests = test_ModelTable # test_ituAlarmTable # drop 2 all_tests"
  by (simp add: all_tests_def)

lemma tracked_start:
  assumes "table_test_bed B n"
  shows "tracked B clk 0 (0, []) (SetUpTestCase B fresh_tables)"
proof -
  have "netsnmp_container (ae_container (tb_env B))"
    using assms by (simp add: table_test_bed_def table_host_def iterable_container_def)
  then show ?thesis
    using tracks_init [of "tb_env B" "''10.154.153.133''"]
    by (simp add: tracked_def SetUpTestCase_def fresh_tables_def init_alarmActiveTable_def register_table_def fresh_active_def)
qed

text \<open>
  C32. The tests of the three SNMP tables pass.  In the order of the file, from the tables that
  \<open>SetUpTestCase\<close> registers, every assertion of the nine tests holds, no call follows a null or
  freed row and no vector is read past its end; and after each of them, as before the first, the walk
  of the active table is empty: every \<open>TearDown\<close> leaves it without an entry.  This holds for every
  container, allocator and SNMP client that keep their documented contracts, and for every clock that
  does not go back and stays within one day (the test of the time stamp compares the day with that of
  a clock read after the alarms were raised).
\<close>

theorem table_tests_pass:
  assumes "table_test_bed B n" and "clock_monotone clk" and "one_day clk"
  shows "(\<exists>fx. run_tests all_tests B clk (SetUpTestCase B fresh_tables) = Some (replicate 9 True, fx)) \<and>
    (\<forall>k \<le> 9. \<exists>fx. run_tests (take k all_tests) B clk (SetUpTestCase B fresh_tables) = Some (replicate k True, fx) \<and>
       walk_active B fx = [])"
proof -
  let ?fx = "SetUpTestCase B fresh_tables" and ?clk2 = "\<lambda>i. clk (32 + (32 + i))"
  have containers: "container (model_table ?fx) = Some (c_new (tb_static B))"
    "container (itu_table ?fx) = Some (c_new (tb_static B))"
    by (simp_all add: SetUpTestCase_def fresh_tables_def fresh_table_def initialize_table_alarmModelTable_def
        initialize_table_ituAlarmTable_def register_table_def)
  note start = tracked_start [OF assms(1), of clk]
  from table_test_bed.static_tests_pass [OF assms(1,2) containers start] obtain fx1 fx2 where
    static: "run_test test_ModelTable B clk ?fx = Some (True, fx1)" "walk_active B fx1 = []"
      "run_test test_ituAlarmTable B (\<lambda>i. clk (32 + i)) fx1 = Some (True, fx2)" "tracked B ?clk2 0 (0, []) fx2"
    by blast
  have clk2: "clock_monotone ?clk2" "one_day ?clk2" using assms(2,3) by (auto simp: clock_monotone_def one_day_def)
  have prefix: "\<exists>fx. run_tests (take k all_tests) B clk ?fx = Some (replicate k True, fx) \<and> walk_active B fx = []"
    if "k \<le> 9" for k
  proof -
    consider "k = 0" | "k = 1" | j where "k = Suc (Suc j)" "j \<le> 7" using \<open>k \<le> 9\<close> by (cases k; cases "k - 1") auto
    then show ?thesis
    proof cases
      case 1
      then show ?thesis using table_test_bed.walk_active_length [OF assms(1) start] by simp
    next
      case 2
      then show ?thesis by (subst all_tests_split) (simp add: static(1,2))
    next
      case (3 j)
      from table_test_bed.active_tests_pass [OF assms(1) clk2 static(4) 3(2)] obtain fx' where
        active: "run_tests (take j (drop 2 all_tests)) B ?clk2 fx2 = Some (replicate j True, fx')" "walk_active B fx' = []"
        by blast
      have "run_tests (take k all_tests) B clk ?fx = Some (replicate k True, fx')"
        unfolding 3(1) by (subst all_tests_split)
          (simp only: take_Suc_Cons run_tests.simps static(1,3) active(1) bind.bind_lunit split replicate.simps)
      with active(2) show ?thesis by blast
    qed
  qed
  have all: "take 9 (all_tests :: ('a, 'b) test list) = all_tests" by (simp add: all_tests_def)
  show ?thesis
  proof (intro conjI allI impI prefix)
    show "\<exists>fx. run_tests all_tests B clk ?fx = Some (replicate 9 True, fx)"
      using prefix [of 9] unfolding all by blast
  qed
qed

definition sample_bed :: "((oid list \<times> nat) list, (oid list \<times> AlarmTableDef) list) test_bed" where
  "sample_bed =
     \<lparr>tb_client = reference_client, tb_env = walk_env 10, tb_rows = AList.clearjunk, tb_static = list_container,
      tb_static_rows = AList.clearjunk, tb_software_error = 163\<rparr>"

interpretation sample_bed: table_test_bed sample_bed 10
proof -
  have "table_host (tb_env sample_bed) (tb_rows sample_bed) 10"
    using walk_host.table_host_axioms by (simp add: sample_bed_def)
  then show "table_test_bed sample_bed 10"
    by (simp add: table_test_bed_def table_test_bed_axioms_def sample_bed_def
        list_container.iterable_container_axioms reference_client.snmp_client_axioms)
qed

theorem table_tests_pass_witness:
  "\<exists>fx. run_tests (take 4 all_tests) sample_bed (\<lambda>_. sample_time) (SetUpTestCase sample_bed fresh_tables) =
      Some (replicate 4 True, fx) \<and> walk_active sample_bed fx = []"
proof -
  have "clock_monotone (\<lambda>_. sample_time)" "one_day (\<lambda>_. sample_time)"
    by (simp_all add: clock_monotone_def one_day_def sample_time_def oid_less_irrefl)
  from table_tests_pass [OF sample_bed.table_test_bed_axioms this] show ?thesis by simp
qed

end
