(* ===== verification/Fake_Net_Snmp.thy ===== *)
theory Fake_Net_Snmp
  imports Table_Tests
begin

text \<open>
  The fake net-snmp of the unit tests (\<open>src/ut/fakenetsnmp.h\<close>, \<open>src/ut/fakenetsnmp.cpp\<close>):
  the interface object that counts the traps sent and collects the log, the wait for a number of
  traps, and the functions that stand in for net-snmp's.  The interface objects live in a store of
  addresses, so that the file-scope pointer can be null or dangle.  The mocked virtual function
  \<open>send_v2trap\<close> is an argument.
\<close>

section \<open>The interface object\<close>

record 'm NetSnmpInterface =
  mock :: 'm
  trap_count :: i32
  logged :: string

definition new_NetSnmpInterface :: "'m \<Rightarrow> 'm NetSnmpInterface" where
  "new_NetSnmpInterface m = \<lparr>mock = m, trap_count = 0, logged = []\<rparr>"

definition trap_signal :: "'m NetSnmpInterface \<Rightarrow> 'm NetSnmpInterface" where
  "trap_signal x = x\<lparr>trap_count := trap_count x + 1\<rparr>"

text \<open>The argument is a C string.\<close>

definition log_insert :: "string \<Rightarrow> 'm NetSnmpInterface \<Rightarrow> 'm NetSnmpInterface" where
  "log_insert line x = x\<lparr>logged := logged x @ line @ [newline]\<rparr>"

definition log_contains :: "string \<Rightarrow> 'm NetSnmpInterface \<Rightarrow> bool" where
  "log_contains fragment x \<longleftrightarrow> contains_string (logged x) fragment"

text \<open>
  What other threads do to the object while \<open>trap_complete\<close> waits, and the return code of the
  timed wait that ends then: 0 after a signal or a spurious wake-up, \<open>ETIMEDOUT\<close> once the
  time-out given to \<open>trap_complete\<close> has passed.
\<close>

datatype intf_op = Trap_Signal | Log_Insert string

fun intf_apply :: "intf_op \<Rightarrow> 'm NetSnmpInterface \<Rightarrow> 'm NetSnmpInterface" where
  "intf_apply Trap_Signal x = trap_signal x"
| "intf_apply (Log_Insert line) x = log_insert line x"

type_synonym wake = "intf_op list \<times> i32"

fun trap_wait ::
  "i32 \<Rightarrow> wake list \<Rightarrow> i32 \<Rightarrow> 'm NetSnmpInterface \<Rightarrow> (i32 \<times> 'm NetSnmpInterface) option" where
  "trap_wait count [] rc x = (if rc = 0 \<and> trap_count x \<noteq> count then None else Some (rc, x))"
| "trap_wait count ((ops, rc') # ws) rc x =
     (if rc = 0 \<and> trap_count x \<noteq> count then trap_wait count ws rc' (fold intf_apply ops x) else Some (rc, x))"

text \<open>\<^const>\<open>None\<close>: the call has not returned at the end of the given wake-ups.\<close>

definition trap_complete :: "i32 \<Rightarrow> wake list \<Rightarrow> 'm NetSnmpInterface \<Rightarrow> (bool \<times> 'm NetSnmpInterface) option" where
  "trap_complete count ws x =
     map_option (\<lambda>(rc, x'). (rc = 0, x'\<lparr>trap_count := 0\<rparr>)) (trap_wait count ws 0 x)"

section \<open>The functions that stand in for net-snmp\<close>

record 'm fake_net_snmp =
  netsnmp_intf_p :: "nat option"
  interfaces :: "nat \<rightharpoonup> 'm NetSnmpInterface"

definition cwtest_intercept_netsnmp :: "nat option \<Rightarrow> 'm fake_net_snmp \<Rightarrow> 'm fake_net_snmp" where
  "cwtest_intercept_netsnmp intf F = F\<lparr>netsnmp_intf_p := intf\<rparr>"

definition cwtest_restore_netsnmp :: "'m fake_net_snmp \<Rightarrow> 'm fake_net_snmp" where
  "cwtest_restore_netsnmp F = F\<lparr>netsnmp_intf_p := None\<rparr>"

text \<open>A call through the pointer: nothing without an object, \<^const>\<open>None\<close> on a dangling pointer.\<close>

definition on_interface ::
  "('m NetSnmpInterface \<Rightarrow> 'm NetSnmpInterface) \<Rightarrow> 'm fake_net_snmp \<Rightarrow> 'm fake_net_snmp option" where
  "on_interface g F =
     (case netsnmp_intf_p F of
        None \<Rightarrow> Some F
      | Some p \<Rightarrow> (case interfaces F p of
                      None \<Rightarrow> None
                    | Some x \<Rightarrow> Some (F\<lparr>interfaces := (interfaces F)(p \<mapsto> g x)\<rparr>)))"

definition fake_send_v2trap :: "('t \<Rightarrow> 'm \<Rightarrow> 'm) \<Rightarrow> 't \<Rightarrow> 'm fake_net_snmp \<Rightarrow> 'm fake_net_snmp option" where
  "fake_send_v2trap send_v2trap args F =
     on_interface (\<lambda>x. trap_signal (x\<lparr>mock := send_v2trap args (mock x)\<rparr>)) F"

text \<open>
  \<open>snmp_log\<close> formats into a buffer of 1024 characters, the last of them the terminating NUL;
  the argument is the message as formatted, without NUL characters.
\<close>

definition snmp_log :: "string \<Rightarrow> 'm fake_net_snmp \<Rightarrow> (int \<times> 'm fake_net_snmp) option" where
  "snmp_log formatted F = map_option (Pair 0) (on_interface (log_insert (take 1023 formatted)) F)"

text \<open>The registration functions succeed and do nothing; the handler registration is a static object.\<close>

definition netsnmp_table_array_helper_handler :: int where
  "netsnmp_table_array_helper_handler = 0"

definition netsnmp_create_handler_registration :: "'r \<Rightarrow> 'r option" where
  "netsnmp_create_handler_registration hr = Some hr"

definition netsnmp_table_container_register :: int where
  "netsnmp_table_container_register = 0"

section \<open>Waiting for traps\<close>

text \<open>The number of traps signalled by the operations of a wake-up.\<close>

definition signals :: "intf_op list \<Rightarrow> nat" where
  "signals ops = length (filter (\<lambda>op. op = Trap_Signal) ops)"

lemma trap_count_intf_apply [simp]: "trap_count (fold intf_apply ops x) = trap_count x + of_nat (signals ops)"
proof (induction ops arbitrary: x)
  case Nil
  then show ?case by (simp add: signals_def)
next
  case (Cons op ops)
  then show ?case
    by (cases op) (simp_all add: signals_def trap_signal_def log_insert_def)
qed

text \<open>The count after the first wake-ups.\<close>

definition count_after :: "wake list \<Rightarrow> 'm NetSnmpInterface \<Rightarrow> nat \<Rightarrow> i32" where
  "count_after ws x k = trap_count x + of_nat (sum_list (map (signals \<circ> fst) (take k ws)))"

lemma count_after_0 [simp]: "count_after ws x 0 = trap_count x"
  by (simp add: count_after_def)

lemma count_after_Suc [simp]: "count_after ((ops, rc) # ws) x (Suc k) = count_after ws (fold intf_apply ops x) k"
  by (simp add: count_after_def algebra_simps)

lemma trap_wait_zero_iff:
  "(\<exists>x'. trap_wait count ws rc x = Some (0, x')) \<longleftrightarrow>
     rc = 0 \<and> (\<exists>k < Suc (length ws). count_after ws x k = count \<and> list_all (\<lambda>w. snd w = 0) (take k ws))"
proof (induction count ws rc x rule: trap_wait.induct)
  case (1 count rc x)
  then show ?case by auto
next
  case (2 count ops rc' ws rc x)
  then show ?case by (auto simp: Ex_less_Suc2 simp del: less_Suc_eq)
qed

text \<open>
  \<open>trap_complete\<close> reports success exactly when, at the start or after some wake-up, the number
  of traps since the last call is the awaited one, and no timed wait has ended before by a
  time-out.
\<close>

lemma trap_complete_succeeds_iff:
  "(\<exists>x'. trap_complete count ws x = Some (True, x')) \<longleftrightarrow>
     (\<exists>k \<le> length ws. count_after ws x k = count \<and> list_all (\<lambda>w. snd w = 0) (take k ws))"
  using trap_wait_zero_iff [of count ws 0 x]
  by (auto simp: trap_complete_def less_Suc_eq_le)

lemma trap_complete_resets: "trap_complete count ws x = Some (ok, x') \<Longrightarrow> trap_count x' = 0"
  by (auto simp: trap_complete_def)

text \<open>It returns at the latest after a time-out, whatever has been signalled.\<close>

lemma trap_complete_returns:
  assumes "(ops, rc) \<in> set ws" and "rc \<noteq> 0"
  shows "\<exists>ok x'. trap_complete count ws x = Some (ok, x')"
proof -
  have "\<exists>r. trap_wait count ws 0 x = Some r"
    using assms
  proof (induction ws arbitrary: x)
    case (Cons w ws)
    obtain ops' rc' where w: "w = (ops', rc')" by (cases w)
    have stop: "trap_wait count ws rc' y = Some (rc', y)" if "rc' \<noteq> 0" for y
      using that by (cases ws) auto
    from Cons w stop show ?case by (cases "rc' = 0") auto
  qed simp
  then show ?thesis by (auto simp: trap_complete_def)
qed

text \<open>
  Signals coalesce: two traps before the waiting thread runs take the count past an awaited 1, and
  the call then waits for its time-out.
\<close>

lemma trap_complete_overshoots:
  "trap_complete 1 [([Trap_Signal, Trap_Signal], 0), ([], 110)] (new_NetSnmpInterface m) =
     Some (False, new_NetSnmpInterface m)"
  by (simp add: trap_complete_def trap_signal_def new_NetSnmpInterface_def)

section \<open>The log\<close>

text \<open>What was logged stays, and a new line can be found up to the size of the buffer.\<close>

lemma log_keeps: "log_contains t x \<Longrightarrow> log_contains t (fold intf_apply ops x)"
proof (induction ops arbitrary: x)
  case (Cons op ops)
  have "log_contains t (intf_apply op x)"
    using Cons.prems by (cases op) (simp_all add: log_contains_def trap_signal_def log_insert_def contains_string_extend [of _ _ "[]", simplified])
  with Cons.IH show ?case by simp
qed simp

lemma snmp_log_found:
  assumes "netsnmp_intf_p F = Some p" and "interfaces F p = Some x" and "contains_string (take 1023 formatted) t"
  shows "\<exists>F' x'. snmp_log formatted F = Some (0, F') \<and> interfaces F' p = Some x' \<and> log_contains t x'"
  using assms
  by (simp add: snmp_log_def on_interface_def log_insert_def log_contains_def contains_string_extend)

lemma fake_without_interface:
  "fake_send_v2trap g a (cwtest_restore_netsnmp F) = Some (cwtest_restore_netsnmp F)"
  "snmp_log s (cwtest_restore_netsnmp F) = Some (0, cwtest_restore_netsnmp F)"
  by (simp_all add: fake_send_v2trap_def snmp_log_def on_interface_def cwtest_restore_netsnmp_def)

end
