(* ===== verification/Spec2Isabelle.thy ===== *)
theory Spec2Isabelle
  imports Scheduler_Props Agent Start_Handshake Shutdown Stats_Service Stats_Interleaving
    Thread_Creation Table_Tests_Pass Fake_Net_Snmp
begin

text \<open>
  \<^bold>\<open>Clearwater SNMP handlers: the alarm agent and the statistics handlers.\<close>

  The repository holds two programs.  The \<^emph>\<open>alarm agent\<close> (\<open>src/alarms_agent.cpp\<close>) is a
  process that receives alarm requests over ZeroMQ, schedules them, sends SNMP INFORMs and serves
  three alarm tables.  The \<^emph>\<open>statistics handlers\<close> are modules that \<open>snmpd\<close> loads; each
  subscribes to the statistics that a node publishes over ZeroMQ, keeps them in a tree of object
  identifiers and answers SNMP requests from it.

  \<^bold>\<open>The alarm agent.\<close>  A request goes from \<open>AlarmReqListener\<close> to \<open>AlarmScheduler\<close>, which keeps
  one manager per alarm and a heap of timers.  The heap-sender thread takes what is due from the
  heap, gives it to \<open>AlarmTrapSender\<close>, which hands INFORMs to net-snmp, and updates the active
  alarm table.  net-snmp reports a delivery back to the scheduler, which retries after a timeout.

  \<^item> \<open>Table_Defs\<close>: \<open>alarm_table_defs.cpp\<close>, \<open>alarm_table_defs.hpp\<close>.  The definitions read from
    the alarm files, in a table ordered by index and severity.  Lemmas: when reading succeeds, and
    what a lookup returns.
  \<^item> \<open>Snmp_Tables\<close>: \<open>alarm_model_table.cpp\<close>, \<open>itu_alarm_table.cpp\<close>, \<open>oid_definitions.hpp\<close>.
    Registration, rows and columns of the two static tables, numbered as in their headers; the locale \<open>netsnmp_container\<close> is the
    contract of the row containers.  Lemmas: every definition has its row, and the tables point at
    each other.
  \<^item> \<open>Active_Table\<close>: \<open>alarm_active_table.cpp\<close>.  Rows live in an explicit store of addresses, so
    that a freed or null row pointer is an error of the model.  Lemmas: memory safety, the served rows
    are the live rows, and a refinement to a map from alarms to severities.
    \<open>Table_Walk\<close> has what a management station sees: for every container that keeps the contract,
    a walk of the table is that of a plain list of the raised alarms in the order of their row numbers.
  \<^item> \<open>Trap_Sender\<close>: \<open>alarm_trap_sender.cpp\<close>.  The two INFORM formats as lists of variables.
  \<^item> \<open>Timer_Heap\<close>: the contract of the heap of cpp-common as the locale \<open>timer_heap\<close>.
  \<^item> \<open>Scheduler\<close>: \<open>alarm_scheduler.cpp\<close>, \<open>alarm_scheduler.hpp\<close>.  Every entry point, the
    heap-sender thread, construction and destruction.  All of them hold one lock, so that each is one
    step of the relation \<open>sched_step\<close>, and interleavings of the threads are sequences of steps.
    \<open>Scheduler_Inv\<close> has the invariant and its preservation in the locale \<open>sched_context\<close>,
    \<open>Scheduler_Sender\<close> the rounds of the thread and the entry points in detail,
    \<open>Scheduler_Timing\<close> the times under a clock that does not go backwards, \<open>Scheduler_Props\<close> the
    properties and the interpretation, and \<open>Active_Agreement\<close> the agreement with the active table.
  \<^item> \<open>Req_Listener\<close>: \<open>alarm_req_listener.cpp\<close>.  Starting and stopping, with the ways in which
    \<open>start\<close> never returns, receiving a request in parts, and dispatching it.  \<open>Start_Handshake\<close> has the handshake between \<open>start\<close> and the
    thread it creates, call by call and in every interleaving.
  \<^item> \<open>Agent\<close>: \<open>alarms_agent.cpp\<close>.  Options, inform sinks, start-up, exits and shutdown.
    \<open>Shutdown\<close> interleaves the shutdown with the threads that still run and with the delivery
    reports of net-snmp, and shows exactly when one of them can use an object that is already deleted,
    and that the main thread gets to the end.

  \<^bold>\<open>The statistics handlers.\<close>  The first SNMP request starts a thread that runs \<open>ZMQListener\<close>; it
  passes each publication to the handler of its statistic, which updates the tree.

  \<^item> \<open>OID\<close>: \<open>oid.cpp\<close>, \<open>oid_inet_addr.cpp\<close>.  The locale \<open>oid_library\<close> names the behaviour of
    net-snmp, boost and \<open>inet_pton\<close> that the code relies on.
  \<^item> \<open>OID_Tree\<close>: \<open>oidtree.cpp\<close>.  The locale \<open>oid_store\<close> is the contract of the tree, which is
    proved for the model by a sublocale of \<open>oid_library\<close>.
  \<^item> \<open>Stat_Handlers\<close>, \<open>Astaire\<close>: \<open>zmq_message_handler.cpp\<close>, \<open>astairedata.cpp\<close>.  The locale
    \<open>stat_handler\<close> is the contract of a handler: it finishes on every message, keeps the tree in order
    and changes only its own branch.  Every handler satisfies it.  The two handlers of Astaire share one
    root; \<open>global_branches\<close> and \<open>connection_branches\<close> are the parts of it that each writes.
  \<^item> \<open>Node_Data\<close>: \<open>nodedata.hpp\<close>, \<open>cdivdata.cpp\<close>, \<open>mementoasdata.cpp\<close>, \<open>mementodata.cpp\<close>.
  \<^item> \<open>Zmq_Listener\<close>: \<open>zmq_listener.cpp\<close>.
  \<^item> \<open>Custom_Handler\<close>, \<open>Stats_Service\<close>: \<open>custom_handler.cpp\<close>.  The SNMP handler, the thread that
    it starts, and the two together.  \<open>Stats_Interleaving\<close> splits the messages into their
    operations on the tree and lets the lookups of a PDU come between them.  \<open>Thread_Creation\<close> has any number of handlers that check
    the flag and take the lock concurrently; every interleaving amounts to one handler.

  \<^bold>\<open>The tests.\<close>  \<open>Table_Tests\<close> has the fixture and the nine tests of
  \<open>ut/alarm_tables_testing.hpp\<close> and \<open>ut/alarm_tables_testing.cpp\<close> as programs over the tables,
  with the SNMP client commands as arguments; \<open>Table_Tests_Pass\<close> shows that they all pass.
  \<open>Fake_Net_Snmp\<close> has the fake net-snmp of the other tests, \<open>ut/fakenetsnmp.cpp\<close>: exactly when
  its wait for a number of traps succeeds, and that it ends by its time-out.

  \<open>Prelude\<close> has types and lemmas for all, \<open>Std_Map\<close> the ordered map of the C++ library and
  \<open>C_Library\<close> the string conversions of the C library.

  \<^bold>\<open>This theory\<close> has the properties that span components: a running agent keeps its invariant,
  shows in the active table what was last sent and answers its requests; requests are carried out in
  order; how the start of the agent ends; and that a published statistic is served.

  \<^bold>\<open>Conventions and bounds.\<close>  An optional result is \<^const>\<open>None\<close> where the C++ code would follow a
  null or dangling pointer or read outside a vector; library calls that can fail take their result as
  an argument, and a call repeated after \<open>EINTR\<close> takes the list of its attempts.  Integers have
  their width: 64-bit times, 32-bit indexes, and the \<open>int\<close> arithmetic of Astaire's parser with its
  wrap-around; \<open>last_seen_time\<close> and the clock of the statistics handler are unbounded integers.  The
  inner loop of the heap-sender thread has fuel; more than the number of alarms is enough, because
  every turn takes a timer from the heap.  A walk of the tree has fuel; more than the number of its
  entries is enough.  The walk of the active table is shown while memory lasts and its 32-bit row
  number has not come round; the tests, which create 15 rows, need an allocator with room for ten
  at a time.  The properties with times assume that the clock is 30 seconds or more from the
  end of its 64-bit range.  A synchronisation reads the clock once in the model, and for each alarm in
  the code; both while it holds the lock.

  \<^bold>\<open>Not modelled.\<close>  cpp-common (timer heap, JSON alarm definitions, start and stop of the SNMP
  threads), net-snmp, ZeroMQ, boost and \<open>getopt_long\<close> are not in the repository and appear as
  arguments with named assumptions.  Logging changes no state.  The lock of the scheduler and
  the one of the tree are not modelled themselves: what they protect is one step, and interleavings
  are sequences of such steps.  Where the code
  depends on the order of single calls on a mutex, a condition variable, a semaphore or an atomic
  flag, in \<open>Start_Handshake\<close>, \<open>Shutdown\<close> and \<open>Thread_Creation\<close>, each call is a step.  An alarm definition
  is a value: that a row of a table keeps a pointer to it, and its lifetime, are not modelled.  The tests
  of the definitions, the scheduler and the request listener (\<open>ut/*_test.cpp\<close>) are expectations
  on mocks that gmock checks, and are not modelled; packaging, MIB documents and the MIB generator
  are not part of the two programs.
\<close>

section \<open>The alarm agent\<close>

lemma sample_sched_room: "card (alarm_index ` set (all_definitions (se_defs sample_sched))) < 16"
proof -
  have "length (all_definitions (se_defs sample_sched)) < 16" by code_simp
  then show ?thesis using card_length [of "map alarm_index (all_definitions (se_defs sample_sched))"] by simp
qed

text \<open>
  C1. End to end: whatever the options, once \<open>main\<close> has brought the agent up, every state that
  its threads can reach keeps the scheduler's invariant; the active alarm table shows exactly the
  alarms whose last sent severity is neither undefined nor cleared, at that severity; and the
  thread of the listener, whatever parts arrive in whatever state of the socket, answers every whole
  request with one \<open>ok\<close>, leaves the agent in a reachable state again, and posts the termination
  semaphore exactly when receiving has failed.  From every reachable
  state the shutdown completes: it sends nothing more and frees every manager.
\<close>

theorem running_agent_correct:
  assumes "agent_main M argv = Running a"
    and "timer_heap (me_heap M) valid" and "malloc_fresh (ae_malloc (me_active M))"
    and "malloc_serves n (ae_malloc (me_active M))" and "build_oid_spec (ae_build_oid (me_active M))"
    and "me_info_ok M ''alarmActiveTable''" and "me_handler_ok M ''alarmActiveTable''"
    and "severities_defined (se_defs (ag_env a))"
    and "card (alarm_index ` set (all_definitions (se_defs (ag_env a)))) < n"
    and "sched_reachable (ag_env a) (ag_active a) s"
  shows "sched_ok (ag_env a) valid s \<and>
    active_severity (active s) = last_sent s \<and>
    (\<exists>s'. listener_thread True (ag_env a) clk ps s =
        Some (receive_fails ps, s', replicate (length (whole_msgs ps)) ''ok'') \<and>
      sched_reachable (ag_env a) (ag_active a) s') \<and>
    (\<exists>a'. agent_shutdown fuel ltime now (a\<lparr>ag_scheduler := s\<rparr>) = Some a' \<and>
      informs (ag_scheduler a') = informs s \<and> all_alarms_state (ag_scheduler a') = [])"
proof -
  note up = agent_main_running [OF assms(1)]
  have ctx: "sched_context (ag_env a) valid"
    using assms(2,3) up(3-5) by (simp add: sched_context_def sched_context_axioms_def)
  have "my_handler (ag_active a) \<noteq> None" using up(10) assms(6,7) by blast
  then have "agrees s"
    using sched_context.agrees_reachable [OF ctx assms(10) up(6) _ up(7) assms(8) _ _ assms(9)] assms(4,5) up(4)
    by simp
  moreover have ok: "sched_ok (ag_env a) valid s"
    using sched_context.sched_reachable_ok [OF ctx assms(10) up(6)] by simp
  moreover obtain s1 where "delete_AlarmScheduler fuel (ag_env a) ltime now s = Some s1"
    "informs s1 = informs s" "all_alarms_state s1 = []"
    using sched_context.delete_scheduler [OF ctx ok] by blast
  ultimately show ?thesis
    using sched_context.listener_replies [OF ctx assms(10) up(6), of clk ps "[]"]
    by (auto simp: agrees_def agent_shutdown_def listener_thread_def)
qed

text \<open>An agent with one inform sink and the alarms of the examples.\<close>

definition sample_main :: "(timer_list, oid list \<rightharpoonup> nat, oid list \<rightharpoonup> AlarmTableDef) main_env" where
  "sample_main =
     \<lparr>me_split = (\<lambda>arg sep tokens. tokens @ [arg]), me_split_host_port = (\<lambda>_. None),
      me_validate = sample_validate, me_dir = Some sample_files, 
      me_default_definition = sample_alarm 0, me_default_details = sample_details UNDEFINED_SEVERITY,
      me_static = fun_container, me_static_mem = (\<lambda>_. True), me_info_ok = (\<lambda>_. True), me_handler_ok = (\<lambda>_. True),
      me_active = \<lparr>ae_container = fun_container, ae_build_oid = encode_index, ae_malloc = first_free 16\<rparr>,
      me_heap = list_heap, me_severity_gt = rank_gt,
      me_start = \<lparr>rs_ctx_new = True, rs_socket = True, rs_remove = ENOENT,
        rs_bind = [Interrupted, Got ()], rs_chmod = True, rs_thread = True\<rparr>\<rparr>"

definition sample_argv :: "OptionTypes list" where
  "sample_argv = [OPT_SNMP_IPS ''10.0.0.9'', OPT_HOSTNAME ''node1'']"

definition sample_agent_up :: "(timer_list, oid list \<rightharpoonup> nat, oid list \<rightharpoonup> AlarmTableDef) agent" where
  "sample_agent_up = (case agent_main sample_main sample_argv of Running a \<Rightarrow> a)"

lemma sample_defs_ready: "fst (initialize sample_validate (Some sample_files) sample_empty)"
  by code_simp

lemma sample_running: "agent_main sample_main sample_argv = Running sample_agent_up"
proof -
  have "\<exists>a. agent_main sample_main sample_argv = Running a"
    unfolding agent_main_runs using sample_defs_ready
    by (simp add: sample_empty_def sample_main_def sample_argv_def start_succeeds_def)
  then show ?thesis by (auto simp: sample_agent_up_def)
qed

theorem running_agent_correct_witness:
  "\<exists>s'. listener_thread True (ag_env sample_agent_up) (\<lambda>_. 5)
      (msg_parts (\<lambda>_. (2, 3)) [''issue-alarm'', ''monit'', ''1000.3'']) (ag_scheduler sample_agent_up) =
    Some (False, s', [''ok'']) \<and> sched_reachable (ag_env sample_agent_up) (ag_active sample_agent_up) s'"
proof -
  let ?M = sample_main and ?a = sample_agent_up
    and ?ps = "msg_parts (\<lambda>_. (2, 3)) [''issue-alarm'', ''monit'', ''1000.3'']"
  note up = agent_main_running [OF sample_running]
  have env: "timer_heap (me_heap ?M) list_heap_ok" "malloc_fresh (ae_malloc (me_active ?M))"
    "malloc_serves 16 (ae_malloc (me_active ?M))" "build_oid_spec (ae_build_oid (me_active ?M))"
    "me_info_ok ?M ''alarmActiveTable''" "me_handler_ok ?M ''alarmActiveTable''"
    by (simp_all add: sample_main_def list_heap.timer_heap_axioms malloc_fresh_first_free malloc_serves_first_free
        build_oid_spec_encode)
  have defs: "se_defs (ag_env ?a) = se_defs sample_sched"
    using up(2) by (simp add: sample_main_def sample_sched_def agent_env_def sample_empty_def)
  have reach: "sched_reachable (ag_env ?a) (ag_active ?a) (ag_scheduler ?a)"
    using up(8) sched_reachable.start by metis
  have one: "whole_msgs ?ps = [[''issue-alarm'', ''monit'', ''1000.3'']]" "\<not> receive_fails ?ps" by code_simp+
  show ?thesis
    using running_agent_correct [OF sample_running env _ _ reach, of "\<lambda>_. 5" ?ps]
      sample_sched_defined sample_sched_room by (simp add: defs one del: msg_parts.simps)
qed

text \<open>
  C16. How the start of the agent ends.  It aborts exactly on an unknown option.  It runs exactly
  when no unknown option is given, the alarm files can all be read and no alarm index occurs twice,
  and every call that starts the listener succeeds.  It never gets past the start of the listener
  exactly when the options and files are good and either binding the socket goes on being interrupted, or
  all is ready but the thread cannot be created: the listener then waits for its own open socket to
  be closed.  In all other cases it exits with code 1.  A running agent has one session per
  configured address, to its port or to 162, with the configured community, and sends the
  notification types that the options name, RFC 3877 when they name none.
\<close>

theorem agent_comes_up:
  "(agent_main M argv = Aborted \<longleftrightarrow> OPT_UNKNOWN \<in> set argv) \<and>
   ((\<exists>a. agent_main M argv = Running a) \<longleftrightarrow>
      OPT_UNKNOWN \<notin> set argv \<and>
      (\<exists>es as. me_dir M = Some es \<and> parsed_alarms (me_validate M) es = Some as \<and> distinct (map ad_index as)) \<and>
      start_succeeds (me_start M)) \<and>
   (agent_main M argv = Start_Blocked \<longleftrightarrow>
      OPT_UNKNOWN \<notin> set argv \<and>
      (\<exists>es as. me_dir M = Some es \<and> parsed_alarms (me_validate M) es = Some as \<and> distinct (map ad_index as)) \<and>
      start_blocks (me_start M)) \<and>
   (\<forall>rc. agent_main M argv = Exited rc \<longleftrightarrow> rc = 1 \<and> OPT_UNKNOWN \<notin> set argv \<and>
      \<not> ((\<exists>es as. me_dir M = Some es \<and> parsed_alarms (me_validate M) es = Some as \<and> distinct (map ad_index as)) \<and>
         (start_succeeds (me_start M) \<or> start_blocks (me_start M)))) \<and>
   (\<forall>a. agent_main M argv = Running a \<longrightarrow>
      (\<exists>opts. parse_options (me_split M) argv default_options = Some opts \<and>
         ag_sessions a =
           map (\<lambda>addr. case me_split_host_port M addr of
                   Some (host, port) \<Rightarrow> \<lparr>sess_host = host, sess_port = port, sess_community = community opts\<rparr>
                 | None \<Rightarrow> \<lparr>sess_host = addr, sess_port = 162, sess_community = community opts\<rparr>)
               (trap_ips opts)) \<and>
      types_in (ts_notifications (se_sender (ag_env a))) =
        (if types_named (named_types (me_split M) argv) = {} then {RFC3877}
         else types_named (named_types (me_split M) argv)))"
proof -
  have init: "fst (initialize (me_validate M) (me_dir M) (me_new_defs M)) \<longleftrightarrow>
      (\<exists>es as. me_dir M = Some es \<and> parsed_alarms (me_validate M) es = Some as \<and> distinct (map ad_index as))"
    by (cases "me_dir M") (simp add: initialize_def, simp add: initialize_rc)
  have sink: "(\<lambda>addr. case me_split_host_port M addr of
        Some (host, port) \<Rightarrow> \<lparr>sess_host = host, sess_port = port, sess_community = com\<rparr>
      | None \<Rightarrow> \<lparr>sess_host = addr, sess_port = 162, sess_community = com\<rparr>) =
      trap_sink (me_split_host_port M) com" for com
    by (simp add: trap_sink_def fun_eq_iff)
  show ?thesis
    unfolding init [symmetric] sink
  proof (intro conjI allI impI)
    fix a assume up: "agent_main M argv = Running a"
    show "\<exists>opts. parse_options (me_split M) argv default_options = Some opts \<and>
        ag_sessions a = map (trap_sink (me_split_host_port M) (community opts)) (trap_ips opts)"
      by (rule agent_main_options(1) [OF up])
    show "types_in (ts_notifications (se_sender (ag_env a))) =
        (if types_named (named_types (me_split M) argv) = {} then {RFC3877}
         else types_named (named_types (me_split M) argv))"
      by (rule agent_main_options(2) [OF up])
  qed (rule agent_main_aborted agent_main_runs agent_main_blocks agent_main_exit_iff)+
qed

text \<open>The agent of the examples on a host that creates no more threads.\<close>

definition sample_no_thread :: "(timer_list, oid list \<rightharpoonup> nat, oid list \<rightharpoonup> AlarmTableDef) main_env" where
  "sample_no_thread = sample_main\<lparr>me_start := (me_start sample_main)\<lparr>rs_thread := False\<rparr>\<rparr>"

theorem agent_comes_up_witness:
  "types_in (ts_notifications (se_sender (ag_env sample_agent_up))) = {RFC3877} \<and>
   agent_main sample_no_thread sample_argv = Start_Blocked"
proof -
  have "types_named (named_types (me_split sample_main) sample_argv) = {}"
    by (simp add: sample_argv_def)
  moreover have "start_blocks (me_start sample_no_thread)" "OPT_UNKNOWN \<notin> set sample_argv"
    "me_dir sample_no_thread = me_dir sample_main" "me_validate sample_no_thread = me_validate sample_main"
    by (simp_all add: sample_no_thread_def sample_main_def sample_argv_def start_blocks_def)
  ultimately show ?thesis
    using agent_comes_up [of sample_main sample_argv] agent_comes_up [of sample_no_thread sample_argv]
    by (simp add: sample_running)
qed

text \<open>
  C9. Requests are carried out in order and each is answered once: when clients send whole
  requests, however often the calls that receive their parts are interrupted by signals, the
  listener carries out each of them at the time it arrives, in the order of arrival, answers
  \<open>ok\<close> to each, malformed ones included, and waits for the next one.
\<close>

theorem requests_carried_out_in_order:
  assumes "sched_context E valid" and "rows_ok t" and "sched_reachable E t s" and "\<forall>m \<in> set ms. m \<noteq> []"
  shows "\<exists>s'. run_requests E clk 0 ms s = Some s' \<and> sched_reachable E t s' \<and>
    listener E clk (concat (map (msg_parts k) ms)) s [] =
      Some (Listening, s', replicate (length ms) ''ok'')"
  using sched_context.run_requests_reachable [OF assms(1,3,2,4), of clk 0]
    listener_parts [OF assms(4), of E clk k s "[]"] by auto

theorem requests_carried_out_in_order_witness:
  "\<exists>s'. listener sample_sched (\<lambda>_. 5)
      (concat (map (msg_parts (\<lambda>_. (1, 2))) [[''issue-alarm'', ''monit'', ''1000.3''], [''poll'']])) sample_start [] =
    Some (Listening, s', [''ok'', ''ok''])"
  using requests_carried_out_in_order [OF sample_context sample_active_rows_ok sample_start_reachable,
      of "[[''issue-alarm'', ''monit'', ''1000.3''], [''poll'']]" "\<lambda>_. 5" "\<lambda>_. (1, 2)"]
  by (auto simp: numeral_2_eq_2)

section \<open>The statistics handlers\<close>

text \<open>
  C6. End to end: a published statistic is served.  The thread of a node, however often its calls
  are interrupted, takes in all the publications about its statistics and goes on waiting; after
  that, for 15 seconds from the last of them, a \<open>GET\<close> of an identifier that belongs to a statistic
  is answered from what its handler made of its last publication, if that had status \<open>OK\<close>,
  whatever other statistics of the node were published since.  The identifiers that belong to a
  statistic are those below the root of its handler; the two statistics of Astaire have one root, and
  the identifiers that belong to them are below the parts of it that each of their handlers writes.
\<close>

theorem published_statistic_is_served:
  assumes "oid_library L" and "nd \<in> set (all_nodes L)" and "tree_ok (sa_tree a)"
    and "zc_ctx_new Z" and "zc_socket Z" and "zc_connect Z" and "\<forall>s \<in> set (nd_stats nd). zc_subscribe Z s"
    and "map_find string_less name (nd_stat_to_handler nd) = Some h"
    and "list_all (about_node nd) (earlier_pubs @ later)" and "list_all (about_other name) later"
    and "now - fst (last ((time, name # ''OK'' # vals) # later)) < 15"
  shows "\<exists>z a' z1 a1 t'.
    start_stats L Z nd (publish k (earlier_pubs @ (time, name # ''OK'' # vals) # later)) a = (Blocked, Some z, a') \<and>
    start_stats L Z nd (publish k earlier_pubs) a = (Blocked, Some z1, a1) \<and>
    handle L h (name # ''OK'' # vals) (sa_tree a1) = Some t' \<and>
    (\<forall>b c rq. b \<in> set (handler_branches h) \<and> rq_name rq = b @ c \<and> \<not> rq_processed rq \<longrightarrow>
      fst (clearwater_handler L now MODE_GET [rq] a') =
        [case tree_get L (b @ c) t' of
           Some v \<Rightarrow> rq\<lparr>rq_value := Some (ASN_UNSIGNED (uint v))\<rparr>
         | None \<Rightarrow> rq])"
proof -
  let ?pubs = "earlier_pubs @ (time, name # ''OK'' # vals) # later"
  let ?s0 = "\<lparr>ls_tree = sa_tree a, ls_last_seen = sa_last_seen_time a\<rparr>"
  define s where "s = fold (store L nd) ?pubs ?s0"
  define s1 where "s1 = fold (store L nd) earlier_pubs ?s0"
  have about: "list_all (about_node nd) ?pubs" using assms(8,9) by (simp add: about_node_def)
  note thread = start_stats_publications [OF assms(1,3) _ assms(4-7), of _ k, unfolded Let_def]
  obtain z where z: "start_stats L Z nd (publish k ?pubs) a =
      (Blocked, Some z, a\<lparr>sa_tree := ls_tree s, sa_last_seen_time := ls_last_seen s\<rparr>)"
    using thread [OF about] unfolding s_def by blast
  have "list_all (about_node nd) earlier_pubs" using assms(9) by simp
  from thread [OF this] obtain z1 where z1: "start_stats L Z nd (publish k earlier_pubs) a =
      (Blocked, Some z1, a\<lparr>sa_tree := ls_tree s1, sa_last_seen_time := ls_last_seen s1\<rparr>)"
    unfolding s1_def by blast
  obtain t' where t': "handle L h (name # ''OK'' # vals) (ls_tree s1) = Some t'"
    and get: "\<And>b c. b \<in> set (handler_branches h) \<Longrightarrow> tree_get L (b @ c) (ls_tree s) = tree_get L (b @ c) t'"
    using oid_library.last_publication [OF assms(1) _ branches_apart_all [OF assms(1,2)] assms(8-10), of ?s0 vals time]
      assms(3) unfolding s_def s1_def by auto
  have "ls_last_seen s = fst (last ?pubs)"
    unfolding s_def using assms(3) by (intro oid_library.fold_store_time [OF assms(1) _ about]) simp_all
  then have "now - ls_last_seen s < 15" using assms(11) by simp
  then have "fst (clearwater_handler L now MODE_GET [rq] (a\<lparr>sa_tree := ls_tree s, sa_last_seen_time := ls_last_seen s\<rparr>)) =
      [case tree_get L (b @ c) t' of
         Some v \<Rightarrow> rq\<lparr>rq_value := Some (ASN_UNSIGNED (uint v))\<rparr>
       | None \<Rightarrow> rq]" if "b \<in> set (handler_branches h)" "rq_name rq = b @ c" "\<not> rq_processed rq" for b c rq
    using that by (simp add: clearwater_handler_def TIMEOUT_THRESHOLD_def answer_get get)
  then show ?thesis
    using t' by (intro exI conjI allI impI) (rule z, rule z1, simp, blast)
qed

definition sample_connect :: zmq_connect_env where
  "sample_connect = \<lparr>zc_ctx_new = True, zc_socket = True, zc_connect = True, zc_subscribe = (\<lambda>_. True)\<rparr>"

theorem published_statistic_is_served_witness:
  "\<exists>z a'. start_stats std_lib sample_connect (astaire_node_data std_lib)
     (publish (\<lambda>_. (2, 0)) [(90, [''astaire_global'', ''OK'', ''4'', ''2'', ''30'', ''900'', ''8'']),
        (100, [''astaire_connections'', ''OK''])])
     new_stats_agent = (Blocked, Some z, a') \<and>
   (\<exists>t' (a1 :: stats_agent). handle std_lib (AstaireGlobalStat [1, 2, 826, 0, 1, 1578918, 9, 9])
        [''astaire_global'', ''OK'', ''4'', ''2'', ''30'', ''900'', ''8''] (sa_tree a1) = Some t' \<and>
     (\<forall>rq. rq_name rq = [1, 2, 826, 0, 1, 1578918, 9, 9, 1, 0] \<and> \<not> rq_processed rq \<longrightarrow>
       fst (clearwater_handler std_lib 105 MODE_GET [rq] a') =
         [case tree_get std_lib [1, 2, 826, 0, 1, 1578918, 9, 9, 1, 0] t' of
            Some v \<Rightarrow> rq\<lparr>rq_value := Some (ASN_UNSIGNED (uint v))\<rparr>
          | None \<Rightarrow> rq]))"
proof -
  let ?nd = "astaire_node_data std_lib" and ?root = "[1, 2, 826, 0, 1, 1578918, 9, 9] :: OID"
  let ?later = "[(100, [''astaire_connections'', ''OK''])] :: publication list"
  have node: "?nd \<in> set (all_nodes std_lib)" by (simp add: all_nodes_def)
  have tree: "tree_ok (sa_tree new_stats_agent)" by (simp add: new_stats_agent_def tree_ok_def)
  have h: "map_find string_less ''astaire_global'' (nd_stat_to_handler ?nd) = Some (AstaireGlobalStat ?root)"
    and about: "list_all (about_node ?nd) ([] @ ?later)"
    unfolding astaire_node_data_def node_oids by code_simp+
  have other: "list_all (about_other ''astaire_global'') ?later" by (simp add: about_other_def)
  have branch: "?root @ [1, 0] \<in> set (handler_branches (AstaireGlobalStat ?root))" by (simp add: global_branches_def)
  have connect: "zc_ctx_new sample_connect" "zc_socket sample_connect" "zc_connect sample_connect"
    "\<forall>s \<in> set (nd_stats ?nd). zc_subscribe sample_connect s" by (simp_all add: sample_connect_def)
  have fresh: "105 - fst (last ((90, [''astaire_global'', ''OK'', ''4'', ''2'', ''30'', ''900'', ''8'']) # ?later)) < 15"
    by simp
  from published_statistic_is_served [OF std_lib.oid_library_axioms node tree connect h about other fresh, of "\<lambda>_. (2, 0)"]
  obtain z a' t' and a1 :: stats_agent where start: "start_stats std_lib sample_connect ?nd (publish (\<lambda>_. (2, 0)) ([] @ (90, [''astaire_global'', ''OK'', ''4'', ''2'', ''30'', ''900'', ''8'']) # ?later))
      new_stats_agent = (Blocked, Some z, a')"
    and made: "handle std_lib (AstaireGlobalStat ?root) [''astaire_global'', ''OK'', ''4'', ''2'', ''30'', ''900'', ''8''] (sa_tree a1) = Some t'"
    and get: "\<forall>b c rq. b \<in> set (handler_branches (AstaireGlobalStat ?root)) \<and> rq_name rq = b @ c \<and> \<not> rq_processed rq \<longrightarrow>
      fst (clearwater_handler std_lib 105 MODE_GET [rq] a') =
        [case tree_get std_lib (b @ c) t' of Some v \<Rightarrow> rq\<lparr>rq_value := Some (ASN_UNSIGNED (uint v))\<rparr> | None \<Rightarrow> rq]"
    by (elim exE conjE) (rule that)
  have "fst (clearwater_handler std_lib 105 MODE_GET [rq] a') =
      [case tree_get std_lib (?root @ [1, 0]) t' of Some v \<Rightarrow> rq\<lparr>rq_value := Some (ASN_UNSIGNED (uint v))\<rparr> | None \<Rightarrow> rq]"
    if "rq_name rq = ?root @ [1, 0] \<and> \<not> rq_processed rq" for rq
    using spec [OF spec [OF spec [OF get, of "?root @ [1, 0]"], of "[]"], of rq] branch that by simp
  with start made show ?thesis by (intro exI conjI allI impI) simp_all
qed

end
